(* ===== verification/Prelude.thy ===== *)
theory Prelude
  imports Main "HOL-Library.Word" "HOL-Library.Char_ord" "HOL-Library.List_Lexorder"
    "HOL-Library.Product_Lexorder"
begin

text \<open>
  The prelude of the development: the ways a C++ function of the program can end
  (\<open>error\<close>), the state-and-exception monad every method is written in, its weakest
  precondition calculus, and a few facts on C strings the components share.

  A method is a function from the state of its object to a pair: what it ends with
  (\<open>Inl\<close> an error, \<open>Inr\<close> the returned value) and the state it leaves. The state is
  kept on both kinds of end, since an exception does not undo the effects made before it.
\<close>

section \<open>Ways a function can end\<close>

text \<open>
  The first four are C++ exceptions: \<open>std::runtime_error\<close> (and the classes derived from
  it), \<open>std::out_of_range\<close>, \<open>std::invalid_argument\<close> and \<open>std::length_error\<close>. The last three are no
  exceptions and no handler sees them: a call that blocks for ever, a call of
  \<open>std::terminate\<close>, and undefined behaviour, after which nothing is known.
\<close>

datatype error =
    Runtime_error string
  | Out_of_range string
  | Invalid_argument string
  | Length_error string
  | Deadlock
  | Terminate
  | Undefined string

fun is_exception :: "error \<Rightarrow> bool" where
  "is_exception (Runtime_error w) = True"
| "is_exception (Out_of_range w) = True"
| "is_exception (Invalid_argument w) = True"
| "is_exception (Length_error w) = True"
| "is_exception Deadlock = False"
| "is_exception Terminate = False"
| "is_exception (Undefined w) = False"

section \<open>The monad\<close>

type_synonym ('s, 'a) io = "'s \<Rightarrow> (error + 'a) \<times> 's"

definition return :: "'a \<Rightarrow> ('s, 'a) io" where
  "return x = (\<lambda>s. (Inr x, s))"

definition throw :: "error \<Rightarrow> ('s, 'a) io" where
  "throw e = (\<lambda>s. (Inl e, s))"

definition bindE :: "('s, 'a) io \<Rightarrow> ('a \<Rightarrow> ('s, 'b) io) \<Rightarrow> ('s, 'b) io" where
  "bindE m f = (\<lambda>s. case m s of (Inl e, s') \<Rightarrow> (Inl e, s') | (Inr x, s') \<Rightarrow> f x s')"

definition thenE :: "('s, 'a) io \<Rightarrow> ('s, 'b) io \<Rightarrow> ('s, 'b) io" where
  "thenE m n = bindE m (\<lambda>_. n)"

definition gets :: "('s \<Rightarrow> 'a) \<Rightarrow> ('s, 'a) io" where
  "gets f = (\<lambda>s. (Inr (f s), s))"

definition modify :: "('s \<Rightarrow> 's) \<Rightarrow> ('s, unit) io" where
  "modify f = (\<lambda>s. (Inr (), f s))"

definition lift_sum :: "error + 'a \<Rightarrow> ('s, 'a) io" where
  "lift_sum r = (\<lambda>s. (r, s))"

text \<open>
  \<open>catch_runtime m h\<close> is \<open>try { m } catch (const runtime_error&) { h }\<close>.
  \<open>on_unwind m c\<close> runs the destructors \<open>c\<close> of the automatic objects when an exception
  leaves \<open>m\<close>; an exception that leaves a destructor during unwinding calls
  \<open>std::terminate\<close>. \<open>scoped m c\<close> is a scope whose guard's destructor is \<open>c\<close>: it
  runs however \<open>m\<close> is left. \<open>no_throw m\<close> is a function that is \<open>noexcept\<close>, such
  as a destructor: an exception that would leave it calls \<open>std::terminate\<close>.
\<close>

definition catch_runtime :: "('s, 'a) io \<Rightarrow> (string \<Rightarrow> ('s, 'a) io) \<Rightarrow> ('s, 'a) io" where
  "catch_runtime m h = (\<lambda>s. case m s of
     (Inl (Runtime_error w), s') \<Rightarrow> h w s' | r \<Rightarrow> r)"

definition on_unwind :: "('s, 'a) io \<Rightarrow> ('s, unit) io \<Rightarrow> ('s, 'a) io" where
  "on_unwind m c = (\<lambda>s. case m s of
     (Inr x, s') \<Rightarrow> (Inr x, s')
   | (Inl e, s') \<Rightarrow>
       (if is_exception e
        then (case c s' of (Inr _, s'') \<Rightarrow> (Inl e, s'') | (Inl _, s'') \<Rightarrow> (Inl Terminate, s''))
        else (Inl e, s')))"

definition scoped :: "('s, 'a) io \<Rightarrow> ('s, unit) io \<Rightarrow> ('s, 'a) io" where
  "scoped m c = bindE (on_unwind m c) (\<lambda>x. thenE c (return x))"

definition no_throw :: "('s, 'a) io \<Rightarrow> ('s, 'a) io" where
  "no_throw m = (\<lambda>s. case m s of
     (Inl e, s') \<Rightarrow> (Inl (if is_exception e then Terminate else e), s') | r \<Rightarrow> r)"

primrec for_each :: "('x \<Rightarrow> ('s, unit) io) \<Rightarrow> 'x list \<Rightarrow> ('s, unit) io" where
  "for_each f [] = return ()"
| "for_each f (x # xs) = thenE (f x) (for_each f xs)"

lemmas io_defs = return_def throw_def bindE_def thenE_def gets_def modify_def lift_sum_def
  catch_runtime_def on_unwind_def scoped_def no_throw_def

section \<open>Weakest preconditions\<close>

text \<open>
  \<open>wp m Q R s\<close>: run from \<open>s\<close>, \<open>m\<close> either returns a value and a state that satisfy
  \<open>Q\<close> or ends in an error and a state that satisfy \<open>R\<close>.
\<close>

definition wp :: "('s, 'a) io \<Rightarrow> ('a \<Rightarrow> 's \<Rightarrow> bool) \<Rightarrow> (error \<Rightarrow> 's \<Rightarrow> bool) \<Rightarrow> 's \<Rightarrow> bool" where
  "wp m Q R s = (case m s of (Inl e, s') \<Rightarrow> R e s' | (Inr x, s') \<Rightarrow> Q x s')"

named_theorems wp_simps "equations that compute weakest preconditions"

lemma wp_return [wp_simps]: "wp (return x) Q R = Q x"
  by (simp add: fun_eq_iff wp_def return_def)

lemma wp_throw [wp_simps]: "wp (throw e) Q R = R e"
  by (simp add: fun_eq_iff wp_def throw_def)

lemma wp_bindE [wp_simps]: "wp (bindE m f) Q R = wp m (\<lambda>x. wp (f x) Q R) R"
  by (auto simp: fun_eq_iff wp_def bindE_def split: prod.splits sum.splits)

lemma wp_thenE [wp_simps]: "wp (thenE m n) Q R = wp m (\<lambda>_. wp n Q R) R"
  by (simp add: thenE_def wp_bindE)

lemma wp_gets [wp_simps]: "wp (gets f) Q R = (\<lambda>s. Q (f s) s)"
  by (simp add: fun_eq_iff wp_def gets_def)

lemma wp_modify [wp_simps]: "wp (modify f) Q R = (\<lambda>s. Q () (f s))"
  by (simp add: fun_eq_iff wp_def modify_def)

lemma wp_lift_sum [wp_simps]:
  "wp (lift_sum r) Q R = (case r of Inl e \<Rightarrow> R e | Inr x \<Rightarrow> Q x)"
  by (simp add: fun_eq_iff wp_def lift_sum_def split: sum.splits)

lemma wp_catch_runtime [wp_simps]:
  "wp (catch_runtime m h) Q R =
     wp m Q (\<lambda>e. case e of Runtime_error w \<Rightarrow> wp (h w) Q R | _ \<Rightarrow> R e)"
  by (auto simp: fun_eq_iff wp_def catch_runtime_def split: prod.splits sum.splits error.splits)

lemma wp_on_unwind [wp_simps]:
  "wp (on_unwind m c) Q R =
     wp m Q (\<lambda>e. if is_exception e then wp c (\<lambda>_. R e) (\<lambda>_. R Terminate) else R e)"
  by (auto simp: fun_eq_iff wp_def on_unwind_def split: prod.splits sum.splits)

lemma wp_scoped [wp_simps]:
  "wp (scoped m c) Q R =
     wp m (\<lambda>x. wp c (\<lambda>_. Q x) R)
       (\<lambda>e. if is_exception e then wp c (\<lambda>_. R e) (\<lambda>_. R Terminate) else R e)"
  by (simp add: scoped_def wp_bindE wp_thenE wp_return wp_on_unwind)

lemma wp_no_throw [wp_simps]:
  "wp (no_throw m) Q R = wp m Q (\<lambda>e. R (if is_exception e then Terminate else e))"
  by (auto simp: fun_eq_iff wp_def no_throw_def split: prod.splits sum.splits)

lemma wp_mono:
  assumes "wp m Q R s"
    and "\<And>x t. Q x t \<Longrightarrow> Q' x t" and "\<And>e t. R e t \<Longrightarrow> R' e t"
  shows "wp m Q' R' s"
  using assms by (auto simp: wp_def split: prod.splits sum.splits)

lemma wp_conj:
  "wp m Q R s \<Longrightarrow> wp m Q' R' s \<Longrightarrow> wp m (\<lambda>x t. Q x t \<and> Q' x t) (\<lambda>e t. R e t \<and> R' e t) s"
  by (auto simp: wp_def split: prod.splits sum.splits)

lemma wpI:
  assumes "\<And>x s'. m s = (Inr x, s') \<Longrightarrow> Q x s'" and "\<And>e s'. m s = (Inl e, s') \<Longrightarrow> R e s'"
  shows "wp m Q R s"
  using assms by (auto simp: wp_def split: prod.splits sum.splits)

lemma wp_returnsD: "wp m Q R s \<Longrightarrow> m s = (Inr x, s') \<Longrightarrow> Q x s'"
  by (simp add: wp_def)

lemma wp_failsD: "wp m Q R s \<Longrightarrow> m s = (Inl e, s') \<Longrightarrow> R e s'"
  by (simp add: wp_def)

lemma wp_run: "wp m Q (\<lambda>_ _. False) s \<Longrightarrow> \<exists>x t. m s = (Inr x, t) \<and> Q x t"
  by (auto simp: wp_def split: prod.splits sum.splits)

lemma wp_snd: "wp m (\<lambda>_. I) (\<lambda>_. I) s \<longleftrightarrow> I (snd (m s))"
  by (auto simp: wp_def split: prod.splits sum.splits)

text \<open>The rule of a loop over a range: an invariant on what is left to visit.\<close>

lemma wp_for_each:
  assumes "I xs s"
    and "\<And>x xs s. I (x # xs) s \<Longrightarrow> wp (f x) (\<lambda>_. I xs) R s"
  shows "wp (for_each f xs) (\<lambda>_. I []) R s"
  using assms(1)
proof (induction xs arbitrary: s)
  case Nil
  then show ?case by (simp add: wp_simps)
next
  case (Cons x xs)
  from assms(2) [OF Cons.prems] show ?case
    by (auto simp: wp_simps intro: wp_mono Cons.IH)
qed

lemma for_each_invariant:
  assumes "I s" and "\<And>x s. x \<in> set xs \<Longrightarrow> I s \<Longrightarrow> wp (f x) (\<lambda>_. I) (\<lambda>_. I) s"
  shows "wp (for_each f xs) (\<lambda>_. I) (\<lambda>_. I) s"
  using assms
proof (induction xs arbitrary: s)
  case Nil
  then show ?case by (simp add: wp_simps)
next
  case (Cons x xs)
  have "wp (f x) (\<lambda>_. I) (\<lambda>_. I) s"
    using Cons.prems by simp
  then show ?case
    using Cons by (auto simp: wp_simps intro: wp_mono)
qed

section \<open>Invariants\<close>

text \<open>
  \<open>keeps I m\<close>: run from a state that satisfies \<open>I\<close>, \<open>m\<close> leaves a state that satisfies
  \<open>I\<close>, whether it returns or ends in an exception. The rules compose along the structure of a
  method.
\<close>

definition safely :: "('s \<Rightarrow> bool) \<Rightarrow> error \<Rightarrow> 's \<Rightarrow> bool" where
  "safely I e s \<longleftrightarrow> (is_exception e \<longrightarrow> I s)"

definition keeps :: "('s \<Rightarrow> bool) \<Rightarrow> ('s, 'a) io \<Rightarrow> bool" where
  "keeps I m \<longleftrightarrow> (\<forall>s. I s \<longrightarrow> wp m (\<lambda>_. I) (safely I) s)"

named_theorems keeps_intros "computations that keep an invariant"

lemma keepsI: "(\<And>s. I s \<Longrightarrow> wp m (\<lambda>_. I) (safely I) s) \<Longrightarrow> keeps I m"
  by (simp add: keeps_def)

lemma keepsD: "keeps I m \<Longrightarrow> I s \<Longrightarrow> wp m (\<lambda>_. I) (safely I) s"
  by (simp add: keeps_def)

lemma keeps_returns: "keeps I m \<Longrightarrow> I s \<Longrightarrow> m s = (Inr x, t) \<Longrightarrow> I t"
  by (auto simp: keeps_def wp_def)

lemma keeps_raises: "keeps I m \<Longrightarrow> I s \<Longrightarrow> m s = (Inl e, t) \<Longrightarrow> is_exception e \<Longrightarrow> I t"
  by (auto simp: keeps_def wp_def safely_def)

lemma keeps_return [keeps_intros]: "keeps I (return x)"
  by (simp add: keeps_def wp_simps)

lemma keeps_throw [keeps_intros]: "keeps I (throw e)"
  by (simp add: keeps_def wp_simps safely_def)

lemma keeps_gets [keeps_intros]: "keeps I (gets f)"
  by (simp add: keeps_def wp_simps)

lemma keeps_lift_sum [keeps_intros]: "keeps I (lift_sum r)"
  by (simp add: keeps_def wp_simps safely_def split: sum.split)

lemma keeps_modify: "(\<And>s. I s \<Longrightarrow> I (f s)) \<Longrightarrow> keeps I (modify f)"
  by (simp add: keeps_def wp_simps)

lemma keeps_bindE [keeps_intros]:
  assumes "keeps I m" and "\<And>x. keeps I (f x)"
  shows "keeps I (bindE m f)"
proof (rule keepsI)
  fix s
  assume "I s"
  with assms(1) have "wp m (\<lambda>_. I) (safely I) s" by (rule keepsD)
  then show "wp (bindE m f) (\<lambda>_. I) (safely I) s"
    unfolding wp_bindE by (rule wp_mono) (use assms(2) in \<open>auto simp: keeps_def\<close>)
qed

lemma keeps_thenE [keeps_intros]: "keeps I m \<Longrightarrow> keeps I n \<Longrightarrow> keeps I (thenE m n)"
  by (simp add: thenE_def keeps_intros)

lemma keeps_catch_runtime [keeps_intros]:
  assumes "keeps I m" and "\<And>w. keeps I (h w)"
  shows "keeps I (catch_runtime m h)"
proof (rule keepsI)
  fix s
  assume "I s"
  with assms(1) have "wp m (\<lambda>_. I) (safely I) s" by (rule keepsD)
  then show "wp (catch_runtime m h) (\<lambda>_. I) (safely I) s"
    unfolding wp_catch_runtime
    by (rule wp_mono) (use assms(2) in \<open>auto simp: keeps_def safely_def split: error.split\<close>)
qed

lemma keeps_on_unwind [keeps_intros]:
  assumes "keeps I m" and "keeps I c"
  shows "keeps I (on_unwind m c)"
proof (rule keepsI)
  fix s
  assume "I s"
  with assms(1) have m: "wp m (\<lambda>_. I) (safely I) s" by (rule keepsD)
  have c: "wp c (\<lambda>_. safely I e) (\<lambda>_. safely I Terminate) t" if "I t" for e t
    by (rule wp_mono [OF keepsD [OF assms(2) that]]) (auto simp: safely_def)
  show "wp (on_unwind m c) (\<lambda>_. I) (safely I) s"
    unfolding wp_on_unwind
  proof (rule wp_mono [OF m])
    fix e t
    assume "safely I e t"
    then show "(if is_exception e then wp c (\<lambda>_. safely I e) (\<lambda>_. safely I Terminate)
        else safely I e) t"
      using c [of t e] by (cases "is_exception e") (auto simp: safely_def [of I e t])
  qed
qed

lemma keeps_scoped [keeps_intros]: "keeps I m \<Longrightarrow> keeps I c \<Longrightarrow> keeps I (scoped m c)"
  by (simp add: scoped_def keeps_intros)

lemma keeps_no_throw [keeps_intros]:
  assumes "keeps I m"
  shows "keeps I (no_throw m)"
proof (rule keepsI)
  fix s
  assume "I s"
  with assms have "wp m (\<lambda>_. I) (safely I) s" by (rule keepsD)
  then show "wp (no_throw m) (\<lambda>_. I) (safely I) s"
    unfolding wp_no_throw by (rule wp_mono) (auto simp: safely_def)
qed

lemma keeps_for_each [keeps_intros]: "(\<And>x. keeps I (f x)) \<Longrightarrow> keeps I (for_each f xs)"
  by (induction xs) (simp_all add: keeps_intros)

lemma keeps_if [keeps_intros]: "keeps I m \<Longrightarrow> keeps I n \<Longrightarrow> keeps I (if b then m else n)"
  by simp

text \<open>
  The states a machine can be in: from an initial state, by its operations, as long as none
  gets stuck. An exception leaves a state the machine goes on from.
\<close>

inductive reachable :: "('s \<Rightarrow> bool) \<Rightarrow> ('s, unit) io set \<Rightarrow> 's \<Rightarrow> bool"
  for init :: "'s \<Rightarrow> bool" and ops :: "('s, unit) io set"
where
  start: "init s \<Longrightarrow> reachable init ops s"
| returns: "reachable init ops s \<Longrightarrow> m \<in> ops \<Longrightarrow> m s = (Inr (), t) \<Longrightarrow> reachable init ops t"
| raises: "reachable init ops s \<Longrightarrow> m \<in> ops \<Longrightarrow> m s = (Inl e, t) \<Longrightarrow> is_exception e \<Longrightarrow>
    reachable init ops t"

lemma reachable_invariant:
  assumes "reachable init ops s" and "\<And>s. init s \<Longrightarrow> I s" and "\<And>m. m \<in> ops \<Longrightarrow> keeps I m"
  shows "I s"
  using assms(1)
proof (induction rule: reachable.induct)
  case (start s)
  then show ?case by (rule assms(2))
next
  case (returns s m t)
  then show ?case by (blast intro: keeps_returns [OF assms(3)])
next
  case (raises s m e t)
  then show ?case by (blast intro: keeps_raises [OF assms(3)])
qed

section \<open>C strings\<close>

text \<open>What \<open>std::string{p}\<close> reads from a \<open>char*\<close>: the characters before the first NUL.\<close>

abbreviation NUL :: char where
  "NUL \<equiv> CHR 0x00"

definition c_str :: "string \<Rightarrow> string" where
  "c_str s = takeWhile (\<lambda>c. c \<noteq> NUL) s"

lemma c_str_Nil [simp]: "c_str [] = []"
  by (simp add: c_str_def)

lemma c_str_no_nul [simp]: "NUL \<notin> set s \<Longrightarrow> c_str s = s"
  by (auto simp: c_str_def)

lemma nul_notin_c_str [simp]: "NUL \<notin> set (c_str s)"
  by (auto simp: c_str_def dest: set_takeWhileD)

lemma c_str_idem [simp]: "c_str (c_str s) = c_str s"
  by simp

lemma c_str_append_nul [simp]: "c_str (s @ NUL # t) = c_str s"
  by (induction s) (auto simp: c_str_def)

lemma c_str_pad: "c_str (s @ replicate n NUL) = c_str s"
  by (cases n) auto

end
