(* ===== verification/CppContainers.thy ===== *)
theory CppContainers
  imports Prelude
begin

text \<open>
  The two associative containers of the C++ standard library the program keeps its peers in:
  \<open>std::map\<close> (TCP, DCCP, UDP; \<open>std::set\<close> for the UNIX socket) as a list of pairs in
  ascending key order, \<open>std::unordered_map\<close> (SCTP) as a list of pairs with distinct keys
  in some order. What a client of either relies on is the locale \<open>cpp_map\<close>, which both
  models interpret.
\<close>

section \<open>The contract of an associative container\<close>

locale cpp_map =
  fixes emplace :: "'k \<Rightarrow> 'v \<Rightarrow> 'm \<Rightarrow> 'm"
    and erase :: "'k \<Rightarrow> 'm \<Rightarrow> 'm"
    and update :: "'k \<Rightarrow> ('v \<Rightarrow> 'v) \<Rightarrow> 'm \<Rightarrow> 'm"
    and entries :: "'m \<Rightarrow> ('k \<times> 'v) list"
    and invar :: "'m \<Rightarrow> bool"
  assumes distinct_entries: "invar m \<Longrightarrow> distinct (map fst (entries m))"
    and entries_emplace: "invar m \<Longrightarrow>
      map_of (entries (emplace k v m)) =
        (if map_of (entries m) k = None then (map_of (entries m))(k \<mapsto> v) else map_of (entries m))"
    and entries_erase: "invar m \<Longrightarrow>
      map_of (entries (erase k m)) = (map_of (entries m))(k := None)"
    and entries_update: "invar m \<Longrightarrow>
      map_of (entries (update k f m)) = (map_of (entries m))(k := map_option f (map_of (entries m) k))"
    and invar_emplace: "invar m \<Longrightarrow> invar (emplace k v m)"
    and invar_erase: "invar m \<Longrightarrow> invar (erase k m)"
    and invar_update: "invar m \<Longrightarrow> invar (update k f m)"
begin

lemma set_entries: "invar m \<Longrightarrow> (k, v) \<in> set (entries m) \<longleftrightarrow> map_of (entries m) k = Some v"
  using distinct_entries [of m] by (auto dest: map_of_SomeD)

lemma keys_iff: "k \<in> fst ` set (entries m) \<longleftrightarrow> map_of (entries m) k \<noteq> None"
  by (force simp: map_of_eq_None_iff)

lemma set_emplace:
  "invar m \<Longrightarrow> set (entries (emplace k v m)) =
     (if k \<in> fst ` set (entries m) then set (entries m) else insert (k, v) (set (entries m)))"
  by (auto simp: set_entries invar_emplace entries_emplace keys_iff split: if_splits)

lemma set_erase:
  "invar m \<Longrightarrow> set (entries (erase k m)) = {(k', v) \<in> set (entries m). k' \<noteq> k}"
  by (auto simp: set_entries invar_erase entries_erase split: if_splits)

lemma set_update:
  "invar m \<Longrightarrow> set (entries (update k f m)) =
     (\<lambda>(k', v). (k', if k' = k then f v else v)) ` set (entries m)"
  by (force simp: set_entries invar_update entries_update image_iff split: if_splits prod.splits)

lemma keys_emplace:
  "invar m \<Longrightarrow> fst ` set (entries (emplace k v m)) = insert k (fst ` set (entries m))"
  by (auto simp: set_emplace)

lemma keys_erase:
  "invar m \<Longrightarrow> fst ` set (entries (erase k m)) = fst ` set (entries m) - {k}"
  by (force simp: set_erase)

lemma keys_update:
  "invar m \<Longrightarrow> fst ` set (entries (update k f m)) = fst ` set (entries m)"
  by (force simp: set_update)

lemma length_entries: "invar m \<Longrightarrow> length (entries m) = card (fst ` set (entries m))"
  using distinct_entries [of m] by (metis distinct_card length_map set_map)

lemma length_emplace:
  "invar m \<Longrightarrow> k \<notin> fst ` set (entries m) \<Longrightarrow> length (entries (emplace k v m)) = Suc (length (entries m))"
  by (simp add: length_entries invar_emplace keys_emplace)

lemma length_erase:
  "invar m \<Longrightarrow> k \<in> fst ` set (entries m) \<Longrightarrow> Suc (length (entries (erase k m))) = length (entries m)"
  by (metis List.finite_set card_Suc_Diff1 finite_imageI invar_erase keys_erase length_entries)

lemma erase_emplace:
  "invar m \<Longrightarrow> k \<notin> fst ` set (entries m) \<Longrightarrow>
     set (entries (erase k (emplace k v m))) = set (entries m)"
  by (force simp: set_erase invar_emplace set_emplace)

end

section \<open>\<open>std::map\<close>\<close>

type_synonym ('k, 'v) std_map = "('k \<times> 'v) list"

fun map_emplace :: "'k::linorder \<Rightarrow> 'v \<Rightarrow> ('k, 'v) std_map \<Rightarrow> ('k, 'v) std_map" where
  "map_emplace k v [] = [(k, v)]"
| "map_emplace k v ((k', v') # m) =
     (if k < k' then (k, v) # (k', v') # m
      else if k = k' then (k', v') # m
      else (k', v') # map_emplace k v m)"

definition map_erase :: "'k \<Rightarrow> ('k \<times> 'v) list \<Rightarrow> ('k \<times> 'v) list" where
  "map_erase k m = filter (\<lambda>p. fst p \<noteq> k) m"

definition map_update :: "'k \<Rightarrow> ('v \<Rightarrow> 'v) \<Rightarrow> ('k \<times> 'v) list \<Rightarrow> ('k \<times> 'v) list" where
  "map_update k f m = map (\<lambda>(k', v). (k', if k' = k then f v else v)) m"

definition std_map_ok :: "('k::linorder, 'v) std_map \<Rightarrow> bool" where
  "std_map_ok m \<longleftrightarrow> sorted_wrt (<) (map fst m)"

lemma keys_map_emplace: "fst ` set (map_emplace k v m) = insert k (fst ` set m)"
  by (induction k v m rule: map_emplace.induct) (simp_all add: insert_commute)

lemma std_map_ok_distinct: "std_map_ok m \<Longrightarrow> distinct (map fst m)"
  by (simp add: std_map_ok_def strict_sorted_iff)

lemma std_map_ok_emplace: "std_map_ok m \<Longrightarrow> std_map_ok (map_emplace k v m)"
proof (induction m)
  case Nil
  then show ?case by (simp add: std_map_ok_def)
next
  case (Cons p m)
  obtain k' v' where p: "p = (k', v')" by force
  show ?case
  proof (cases "k' < k")
    case True
    have "std_map_ok (map_emplace k v m)"
      using Cons by (simp add: std_map_ok_def)
    moreover have "\<forall>x\<in>fst ` set (map_emplace k v m). k' < x"
      using Cons.prems True p by (auto simp: keys_map_emplace std_map_ok_def)
    ultimately show ?thesis
      using True p by (auto simp: std_map_ok_def)
  next
    case False
    then show ?thesis
      using Cons.prems p by (auto simp: std_map_ok_def)
  qed
qed

lemma map_of_emplace:
  "std_map_ok m \<Longrightarrow> map_of (map_emplace k v m) =
     (if map_of m k = None then (map_of m)(k \<mapsto> v) else map_of m)"
proof (induction m)
  case Nil
  then show ?case by (simp add: fun_eq_iff)
next
  case (Cons p m)
  obtain k' v' where p: "p = (k', v')" by force
  have "std_map_ok m" and lt: "\<forall>x\<in>set m. k' < fst x"
    using Cons.prems p by (auto simp: std_map_ok_def)
  then have IH: "map_of (map_emplace k v m) =
      (if map_of m k = None then (map_of m)(k \<mapsto> v) else map_of m)"
    by (intro Cons.IH)
  have "k < k' \<Longrightarrow> map_of m k = None"
    using lt by (force simp: map_of_eq_None_iff)
  then show ?case
    using IH p by (auto simp: fun_eq_iff)
qed

lemma map_of_erase: "map_of (map_erase k m) = (map_of m)(k := None)"
  by (induction m) (auto simp: map_erase_def fun_eq_iff)

lemma map_of_update:
  "map_of (map_update k f m) = (map_of m)(k := map_option f (map_of m k))"
  by (induction m) (auto simp: map_update_def fun_eq_iff)

lemma map_fst_update: "map fst (map_update k f m) = map fst m"
  by (induction m) (auto simp: map_update_def)

lemma std_map_ok_erase: "std_map_ok m \<Longrightarrow> std_map_ok (map_erase k m)"
  by (induction m) (auto simp: std_map_ok_def map_erase_def)

lemma std_map_ok_update: "std_map_ok m \<Longrightarrow> std_map_ok (map_update k f m)"
  by (simp add: std_map_ok_def map_fst_update)

interpretation std_map: cpp_map map_emplace map_erase map_update "\<lambda>m. m" std_map_ok
  by unfold_locales
    (simp_all add: std_map_ok_distinct map_of_emplace map_of_erase map_of_update
      std_map_ok_emplace std_map_ok_erase std_map_ok_update)

lemma map_erase_absent: "k \<notin> fst ` set m \<Longrightarrow> map_erase k m = m"
  by (force simp: map_erase_def filter_id_conv)

lemma map_erase_emplace: "map_erase k (map_emplace k v m) = map_erase k m"
  by (induction k v m rule: map_emplace.induct) (auto simp: map_erase_def)

lemma set_map_erase: "set (map_erase k m) = {p \<in> set m. fst p \<noteq> k}"
  by (auto simp: map_erase_def)

lemma set_map_update: "set (map_update k f m) = (\<lambda>(k', v). (k', if k' = k then f v else v)) ` set m"
  by (simp add: map_update_def)

lemma keys_map_erase: "fst ` set (map_erase k m) = fst ` set m - {k}"
  by (auto simp: map_erase_def)

lemma keys_map_update: "fst ` set (map_update k f m) = fst ` set m"
  by (metis map_fst_update set_map)

lemma map_emplace_present: "std_map_ok m \<Longrightarrow> k \<in> fst ` set m \<Longrightarrow> map_emplace k v m = m"
  by (induction m) (force simp: std_map_ok_def)+

section \<open>\<open>std::unordered_map\<close>\<close>

text \<open>
  The order in which an \<open>unordered_map\<close> is iterated is not specified: the model's list is
  one order, and a loop over the map goes through a permutation that is a parameter.
\<close>

definition umap_emplace :: "'k \<Rightarrow> 'v \<Rightarrow> ('k \<times> 'v) list \<Rightarrow> ('k \<times> 'v) list" where
  "umap_emplace k v m = (if k \<in> fst ` set m then m else (k, v) # m)"

definition umap_ok :: "('k \<times> 'v) list \<Rightarrow> bool" where
  "umap_ok m \<longleftrightarrow> distinct (map fst m)"

lemma umap_emplace_none: "map_of m k = None \<Longrightarrow> umap_emplace k v m = (k, v) # m"
  by (auto simp: umap_emplace_def map_of_eq_None_iff)

lemma umap_emplace_some: "map_of m k \<noteq> None \<Longrightarrow> umap_emplace k v m = m"
  by (metis map_of_eq_None_iff umap_emplace_def)

lemma umap_ok_erase: "umap_ok m \<Longrightarrow> umap_ok (map_erase k m)"
  by (auto simp: umap_ok_def map_erase_def distinct_map_filter)

lemma umap_ok_emplace: "umap_ok m \<Longrightarrow> umap_ok (umap_emplace k v m)"
  by (auto simp: umap_ok_def umap_emplace_def)

lemma umap_ok_update: "umap_ok m \<Longrightarrow> umap_ok (map_update k f m)"
  by (simp add: umap_ok_def map_fst_update)

interpretation umap: cpp_map umap_emplace map_erase map_update "\<lambda>m. m" umap_ok
proof (unfold_locales, goal_cases)
  case (1 m)
  then show ?case by (simp add: umap_ok_def)
next
  case (2 m k v)
  then show ?case
    by (cases "map_of m k") (simp_all add: umap_emplace_none umap_emplace_some fun_eq_iff)
qed (simp_all add: map_of_erase map_of_update umap_ok_emplace umap_ok_erase umap_ok_update)

end
