(* ===== verification/IPSocketType.thy ===== *)
theory IPSocketType
  imports Prelude
begin

text \<open>
  The data type \<open>IPSocket\<close> of \<open>src/src/IPSocket.hpp\<close> (an address text, a port and
  an address family), its order as a key of \<open>std::map\<close>, and the address families of
  \<open><sys/socket.h>\<close> the program names, with their values on Linux.
\<close>

type_synonym byte = "8 word"
type_synonym bytes = "byte list"
type_synonym family = "16 word"
type_synonym port = "16 word"
type_synonym FD = int

definition AF_UNSPEC :: family where "AF_UNSPEC = 0"
definition AF_UNIX :: family where "AF_UNIX = 1"
definition AF_INET :: family where "AF_INET = 2"
definition AF_INET6 :: family where "AF_INET6 = 10"

lemmas family_defs = AF_UNSPEC_def AF_UNIX_def AF_INET_def AF_INET6_def

lemma family_distinct [simp]:
  "AF_INET \<noteq> AF_INET6" "AF_INET6 \<noteq> AF_INET" "AF_INET \<noteq> AF_UNIX" "AF_UNIX \<noteq> AF_INET"
  "AF_INET6 \<noteq> AF_UNIX" "AF_UNIX \<noteq> AF_INET6" "AF_UNSPEC \<noteq> AF_UNIX" "AF_UNIX \<noteq> AF_UNSPEC"
  "AF_UNSPEC \<noteq> AF_INET" "AF_INET \<noteq> AF_UNSPEC" "AF_UNSPEC \<noteq> AF_INET6" "AF_INET6 \<noteq> AF_UNSPEC"
  by (simp_all add: family_defs)

datatype IPSocket = IPSocket (addr: string) (port: port) (family: family)

text \<open>\<open>any_port\<close>, the default of the constructor's port.\<close>

definition any_port :: port where "any_port = 0"

definition isIPv6 :: "IPSocket \<Rightarrow> bool" where
  "isIPv6 ip \<longleftrightarrow> family ip = AF_INET6"

text \<open>\<open>sizeof(sockaddr_in6)\<close> is 28 and \<open>sizeof(sockaddr_in)\<close> is 16.\<close>

definition sizeofSockaddr :: "IPSocket \<Rightarrow> nat" where
  "sizeofSockaddr ip = (if isIPv6 ip then 28 else 16)"

section \<open>\<open>IPSocket\<close> as a key\<close>

text \<open>
  \<open>tieAll\<close> gives the triple of the members, and the comparison operators of
  \<open>tools/ComparisonOperators.hpp\<close> compare these triples: lexicographically, texts by
  their characters.
\<close>

definition tieAll :: "IPSocket \<Rightarrow> string \<times> port \<times> family" where
  "tieAll ip = (addr ip, port ip, family ip)"

lemma tieAll_inject [simp]: "tieAll a = tieAll b \<longleftrightarrow> a = b"
  by (cases a; cases b) (simp add: tieAll_def)

definition IPSocket_less :: "IPSocket \<Rightarrow> IPSocket \<Rightarrow> bool" where
  "IPSocket_less a b \<longleftrightarrow> tieAll a < tieAll b"

definition IPSocket_less_eq :: "IPSocket \<Rightarrow> IPSocket \<Rightarrow> bool" where
  "IPSocket_less_eq a b \<longleftrightarrow> tieAll a \<le> tieAll b"

instantiation IPSocket :: linorder
begin

definition less_eq_IPSocket :: "IPSocket \<Rightarrow> IPSocket \<Rightarrow> bool" where
  "less_eq_IPSocket = IPSocket_less_eq"

definition less_IPSocket :: "IPSocket \<Rightarrow> IPSocket \<Rightarrow> bool" where
  "less_IPSocket = IPSocket_less"

instance
proof
  fix a b c :: IPSocket
  show "a < b \<longleftrightarrow> a \<le> b \<and> \<not> b \<le> a"
    by (auto simp: less_eq_IPSocket_def less_IPSocket_def IPSocket_less_def IPSocket_less_eq_def not_le)
  show "a \<le> a" by (simp add: less_eq_IPSocket_def IPSocket_less_eq_def)
  show "a \<le> b \<Longrightarrow> b \<le> c \<Longrightarrow> a \<le> c"
    unfolding less_eq_IPSocket_def IPSocket_less_eq_def by (rule order_trans)
  show "a \<le> b \<Longrightarrow> b \<le> a \<Longrightarrow> a = b"
    unfolding less_eq_IPSocket_def IPSocket_less_eq_def using antisym tieAll_inject by blast
  show "a \<le> b \<or> b \<le> a" unfolding less_eq_IPSocket_def IPSocket_less_eq_def by (rule linear)
qed

end

end
