(* ===== verification/Platform.thy ===== *)
theory Platform
  imports CppContainers IPSocketType "HOL-Library.Multiset"
begin

text \<open>
  What the program calls and does not define: the operating system's socket interface and
  the \<open>tools\<close> submodule (its sources are not part of the repository). Every call is a
  value of \<open>call\<close>, every reply a \<open>ret\<close>; the state of every object holds the history of
  the calls made so far, newest first. The replies come from the parameter
  \<open>env\<close>: an arbitrary function of the history and the call, so a theorem about every
  \<open>env\<close> is about every behaviour of the kernel. What the code relies on is stated by
  the predicates at the end (\<open>fresh_fds\<close>, \<open>checks_ok\<close>, \<open>std_mutex\<close> and so on), each a
  hypothesis of the theorems that need it.
\<close>

section \<open>Calls\<close>

text \<open>
  Socket types, option levels and option names are the macros of the system's headers, by
  name; the structures are those of \<open><netinet/sctp.h>\<close> with their field widths.
\<close>

datatype socktype = SOCK_STREAM | SOCK_DGRAM | SOCK_SEQPACKET | SOCK_DCCP

datatype sockopt_level = IPPROTO_SCTP | SOL_SOCKET | IPPROTO_IP | IPPROTO_IPV6 | SOL_SCTP | SOL_TCP

datatype sockopt_name =
    SCTP_NODELAY | SO_REUSEADDR | SCTP_EVENTS | SCTP_INITMSG | SCTP_RTOINFO | SCTP_DELAYED_SACK
  | SCTP_ASSOCINFO | IP_TOS | IPV6_TCLASS | SCTP_I_WANT_MAPPED_V4_ADDR | IP_TTL
  | SCTP_PEER_ADDR_PARAMS | SCTP_MAXSEG | TCP_KEEPIDLE | TCP_KEEPINTVL | TCP_KEEPCNT
  | SO_KEEPALIVE | SO_PASSCRED | SCTP_STATUS

record sctp_event_subscribe =
  sctp_data_io_event :: bool
  sctp_association_event :: bool
  sctp_address_event :: bool
  sctp_send_failure_event :: bool
  sctp_peer_error_event :: bool
  sctp_shutdown_event :: bool
  sctp_partial_delivery_event :: bool
  sctp_adaptation_layer_event :: bool
  sctp_authentication_event :: bool

record sctp_initmsg =
  sinit_num_ostreams :: "16 word"
  sinit_max_instreams :: "16 word"
  sinit_max_attempts :: "16 word"
  sinit_max_init_timeo :: "16 word"

record sctp_rtoinfo =
  srto_assoc_id :: int
  srto_initial :: "32 word"
  srto_max :: "32 word"
  srto_min :: "32 word"

record sctp_sack_info =
  sack_assoc_id :: int
  sack_delay :: "32 word"
  sack_freq :: "32 word"

record sctp_assocparams =
  sasoc_assoc_id :: int
  sasoc_asocmaxrxt :: "16 word"
  sasoc_number_peer_destinations :: "16 word"
  sasoc_peer_rwnd :: "32 word"
  sasoc_local_rwnd :: "32 word"
  sasoc_cookie_life :: "32 word"

record sctp_paddrparams =
  spp_assoc_id :: int
  spp_hbinterval :: "32 word"
  spp_pathmaxrxt :: "16 word"
  spp_pathmtu :: "32 word"
  spp_sackdelay :: "32 word"
  spp_flags :: "32 word"

record sctp_assoc_value =
  av_assoc_id :: int
  av_assoc_value :: "32 word"

datatype optval =
    Opt_int int
  | Opt_events sctp_event_subscribe
  | Opt_initmsg sctp_initmsg
  | Opt_rtoinfo sctp_rtoinfo
  | Opt_sack sctp_sack_info
  | Opt_assocparams sctp_assocparams
  | Opt_paddrparams sctp_paddrparams
  | Opt_assoc_value sctp_assoc_value

text \<open>
  The closures the program gives to the task scheduler: \<open>connect({remote})\<close>, a
  keep-alive ping to \<open>remote\<close>, \<open>handleCommLost(remote)\<close>.
\<close>

datatype task = T_connect IPSocket | T_ping IPSocket | T_comm_lost IPSocket

text \<open>
  Calls on the means of communication between a process and its child: message queues, shared
  memory, semaphores, named pipes, signals. Names are the paths the code gives, pointers 64-bit
  addresses. \<open>I_store\<close> and \<open>I_load\<close> are the accesses to the \<open>int\<close> in shared memory.
\<close>

datatype (plugins only: code size) ipc =
    I_mq_unlink string
  | I_mq_open string
  | I_mq_close int
  | I_mq_send int string nat
  | I_mq_receive int nat
  | I_ftruncate FD nat
  | I_mmap FD nat
  | I_munmap "64 word" nat
  | I_shm_unlink string
  | I_shmget nat
  | I_shmat int
  | I_shmdt "64 word"
  | I_sem_open string
  | I_sem_close "64 word"
  | I_sem_unlink string
  | I_sem_init "64 word"
  | I_sem_destroy "64 word"
  | I_sem_post "64 word"
  | I_sem_trywait "64 word"
  | I_sem_getvalue "64 word"
  | I_remove string
  | I_mkfifo string
  | I_getpid
  | I_getppid
  | I_fork
  | I_kill int
  | I_sigaction string
  | I_prctl_pdeathsig
  | I_read FD nat
  | I_write FD string
  | I_store "64 word" int
  | I_load "64 word"
  | I_sleep_ms nat

text \<open>
  An address is recorded as the bytes the kernel may read: as many as the length argument
  says. A \<open>schedule\<close> carries the delay in milliseconds and the repetitions where the code
  gives them. \<open>C_log_received\<close> is the \<open>INFO_LOG\<close> line by which the program reports a
  message it received. \<open>C_chat\<close> is a thread's access to the mailbox it shares with others; its reply
  carries the message that was there. \<open>C_now\<close> reads the clock, in milliseconds.
\<close>

datatype (plugins only: code size) call =
    C_socket family socktype int
  | C_close FD
  | C_bind FD bytes
  | C_listen FD int
  | C_connect FD bytes
  | C_accept4 FD
  | C_getsockname FD
  | C_getpeername FD
  | C_setsockopt FD sockopt_level sockopt_name optval
  | C_fcntl_getfl FD
  | C_fcntl_setfl FD "32 word"
  | C_select int "FD set" "int \<times> int"
  | C_recv FD nat
  | C_recvfrom FD nat
  | C_send FD string
  | C_sendto FD string bytes
  | C_sctp_recvmsg FD nat
  | C_sctp_connectx FD bytes nat
  | C_sctp_bindx FD bytes nat
  | C_sctp_peeloff FD int
  | C_sctp_getladdrs FD int
  | C_sctp_getpaddrs FD int
  | C_sctp_freeladdrs
  | C_sctp_freepaddrs
  | C_getsockopt FD sockopt_level sockopt_name
  | C_sctp_opt_info FD int sockopt_name
  | C_schedule task int "nat option"
  | C_task_lock nat
  | C_task_reset nat
  | C_task_disable nat
  | C_log_received string
  | C_chat string
  | C_now
  | C_socketpair family socktype int
  | C_pipe2
  | C_open string bool
  | C_shm_open string
  | C_ipc ipc

text \<open>
  A reply: the returned value, \<open>errno\<close>, and what the call writes through its pointer
  arguments (received characters, an address, a set of descriptors, flags, a pair of descriptors).
\<close>

record ret =
  rv :: int
  err :: int
  odata :: string
  oaddr :: bytes
  ofds :: "FD set"
  oflags :: "32 word"
  opair :: "FD \<times> FD"

definition reply :: "int \<Rightarrow> ret" where
  "reply v = \<lparr>rv = v, err = 0, odata = [], oaddr = [], ofds = {}, oflags = 0, opair = (0, 0)\<rparr>"

lemma reply_sel [simp]:
  "rv (reply v) = v" "err (reply v) = 0" "odata (reply v) = []" "oaddr (reply v) = []"
  "ofds (reply v) = {}" "oflags (reply v) = 0" "opair (reply v) = (0, 0)"
  by (simp_all add: reply_def)

type_synonym history = "(call \<times> ret) list"

section \<open>The environment\<close>

text \<open>
  \<open>os\<close>: the kernel and the task scheduler. \<open>inet_pton\<close>, \<open>inet_ntop\<close>: the functions of
  \<open><arpa/inet.h>\<close> (returned value and binary address; text, or none where they return
  NULL). \<open>check_outcome\<close>: what the macros of \<open>tools/ErrorChecks.hpp\<close> throw, given the
  check's name and whether \<open>failed...\<close> holds; \<open>succeeded\<close>: the reverse check they
  generate. \<open>LOCK_MTX\<close>: the macro's effect on a mutex held to the given depth by the
  calling thread, \<open>None\<close> where the call never returns. \<open>pool_get\<close>: the buffer
  \<open>BufferPool::get\<close> returns, for the size the pool was made with. \<open>repeat_ix\<close>: the values
  \<open>i\<close> takes in the body of \<open>repeat(n)\<close>. \<open>count_s\<close>, \<open>count_us\<close>:
  \<open>tools/CountTime.hpp\<close>, a duration in microseconds counted in seconds and in
  microseconds. \<open>task_order\<close>: the order in which the asynchronous tasks of one
  \<open>receive\<close> take effect; \<open>hash_order\<close>: the order in which a loop visits the keys of an
  \<open>unordered_map\<close>; \<open>shuffled_ix\<close>: \<open>shuffledIndexes(n)\<close>; \<open>join_tasks\<close>: what \<open>join\<close> does with the exceptions they ended
  in. \<open>due_tasks\<close>: the scheduled tasks that \<open>launch()\<close> runs; \<open>launch_result\<close>: what it does with
  the exceptions they ended in. \<open>log_exceptions\<close>: what leaves the handler \<open>LOG_EXCEPTIONS\<close> for an
  exception that reached it. \<open>to_lower\<close>: \<open>tools/ToLower.hpp\<close>. \<open>garbage\<close>: the bytes of memory behind a socket address object. \<open>indeterminate\<close>:
  the value an \<open>int\<close> member has that no constructor initialises.
\<close>

record env =
  os :: "history \<Rightarrow> call \<Rightarrow> ret"
  inet_pton :: "family \<Rightarrow> string \<Rightarrow> int \<times> bytes"
  inet_ntop :: "family \<Rightarrow> bytes \<Rightarrow> string option"
  check_outcome :: "string \<Rightarrow> bool \<Rightarrow> error option"
  succeeded :: "bool \<Rightarrow> bool"
  LOCK_MTX :: "nat \<Rightarrow> nat option"
  pool_get :: "history \<Rightarrow> nat \<Rightarrow> string"
  repeat_ix :: "int \<Rightarrow> int list"
  count_s :: "int \<Rightarrow> int"
  count_us :: "int \<Rightarrow> int"
  task_order :: "history \<Rightarrow> FD list \<Rightarrow> FD list"
  hash_order :: "history \<Rightarrow> int list \<Rightarrow> int list"
  shuffled_ix :: "history \<Rightarrow> nat \<Rightarrow> nat list"
  join_tasks :: "error option list \<Rightarrow> error option"
  due_tasks :: "history \<Rightarrow> task list"
  launch_result :: "error option list \<Rightarrow> error option"
  log_exceptions :: "error \<Rightarrow> error option"
  to_lower :: "string \<Rightarrow> string"
  garbage :: bytes
  indeterminate :: int

record world =
  trace :: history

definition sys :: "env \<Rightarrow> call \<Rightarrow> ('z world_scheme, ret) io" where
  "sys E c = (\<lambda>s. let r = os E (trace s) c in (Inr r, s\<lparr>trace := (c, r) # trace s\<rparr>))"

text \<open>\<open>check\<close> is the macro \<open>check...(result)\<close>, \<open>checked\<close> the macro \<open>checked...(result)\<close>.\<close>

definition check :: "env \<Rightarrow> string \<Rightarrow> bool \<Rightarrow> ('s, unit) io" where
  "check E name failed = (case check_outcome E name failed of None \<Rightarrow> return () | Some e \<Rightarrow> throw e)"

definition checked :: "env \<Rightarrow> string \<Rightarrow> bool \<Rightarrow> 'a \<Rightarrow> ('s, 'a) io" where
  "checked E name failed r = thenE (check E name failed) (return r)"

section \<open>Descriptors opened and closed by a history\<close>

fun opened :: "call \<times> ret \<Rightarrow> FD set" where
  "opened (C_socket f t p, r) = (if 0 \<le> rv r then {rv r} else {})"
| "opened (C_accept4 fd, r) = (if 0 \<le> rv r then {rv r} else {})"
| "opened (C_sctp_peeloff fd a, r) = (if 0 \<le> rv r then {rv r} else {})"
| "opened (C_socketpair f t p, r) = (if rv r = 0 then {fst (opair r), snd (opair r)} else {})"
| "opened (C_pipe2, r) = (if rv r = 0 then {fst (opair r), snd (opair r)} else {})"
| "opened (C_open p w, r) = (if 0 \<le> rv r then {rv r} else {})"
| "opened (C_shm_open p, r) = (if 0 \<le> rv r then {rv r} else {})"
| "opened (c, r) = {}"

fun closed :: "call \<times> ret \<Rightarrow> FD set" where
  "closed (C_close fd, r) = {fd}"
| "closed (c, r) = {}"

text \<open>
  \<open>live h\<close>: the descriptors opened and not closed since. \<open>sound_closes h\<close>: every
  \<open>close\<close> was of a descriptor live at that time, so none was closed twice.
\<close>

primrec live :: "history \<Rightarrow> FD set" where
  "live [] = {}"
| "live (e # h) = (live h - closed e) \<union> opened e"

primrec sound_closes :: "history \<Rightarrow> bool" where
  "sound_closes [] = True"
| "sound_closes (e # h) \<longleftrightarrow> closed e \<subseteq> live h \<and> sound_closes h"

definition accounts :: "history \<Rightarrow> FD set \<Rightarrow> bool" where
  "accounts h L \<longleftrightarrow> live h = L \<and> sound_closes h"

definition neutral :: "history \<Rightarrow> bool" where
  "neutral t \<longleftrightarrow> (\<forall>e\<in>set t. opened e = {} \<and> closed e = {})"

lemma neutral_Nil [simp]: "neutral []"
  by (simp add: neutral_def)

lemma neutral_Cons [simp]: "neutral (e # t) \<longleftrightarrow> opened e = {} \<and> closed e = {} \<and> neutral t"
  by (auto simp: neutral_def)

lemma neutral_append [simp]: "neutral (t @ u) \<longleftrightarrow> neutral t \<and> neutral u"
  by (auto simp: neutral_def)

lemma accounts_neutral [simp]: "neutral t \<Longrightarrow> accounts (t @ h) L \<longleftrightarrow> accounts h L"
proof -
  assume n: "neutral t"
  then have "live (t @ h) = live h" and "sound_closes (t @ h) = sound_closes h"
    by (induction t) auto
  then show ?thesis by (simp add: accounts_def)
qed

lemma accounts_open:
  "accounts h L \<Longrightarrow> opened e = {fd} \<Longrightarrow> closed e = {} \<Longrightarrow> accounts (e # h) (insert fd L)"
  by (auto simp: accounts_def)

lemma accounts_close: "accounts h L \<Longrightarrow> fd \<in> L \<Longrightarrow> accounts ((C_close fd, r) # h) (L - {fd})"
  by (auto simp: accounts_def)

section \<open>What the code relies on\<close>

text \<open>POSIX: a call that makes a descriptor returns one that is not open.\<close>

definition fresh_fds :: "env \<Rightarrow> bool" where
  "fresh_fds E \<longleftrightarrow> (\<forall>h c. opened (c, os E h c) \<inter> live h = {})"

text \<open>
  \<open>tools/ErrorChecks.hpp\<close>: a check throws, and then a \<open>std::runtime_error\<close>, exactly when
  its \<open>failed...\<close> holds; the reverse check negates.
\<close>

definition checks_ok :: "env \<Rightarrow> bool" where
  "checks_ok E \<longleftrightarrow> (\<forall>name. check_outcome E name False = None \<and>
     (\<exists>w. check_outcome E name True = Some (Runtime_error w))) \<and> succeeded E = Not"

text \<open>A check throws nothing but C++ exceptions.\<close>

definition checks_throw :: "env \<Rightarrow> bool" where
  "checks_throw E \<longleftrightarrow> (\<forall>name f e. check_outcome E name f = Some e \<longrightarrow> is_exception e)"

text \<open>
  \<open>std::mutex\<close>: a free mutex is acquired, and a second \<open>lock\<close> by the thread that holds it
  never succeeds (the mutex is not recursive).
\<close>

definition std_mutex :: "env \<Rightarrow> bool" where
  "std_mutex E \<longleftrightarrow> LOCK_MTX E 0 = Some 1 \<and> (\<forall>n. LOCK_MTX E (Suc n) = None)"

text \<open>
  \<open>recv\<close> and its relatives: at most as many characters as the length argument allows, and
  the returned value is their number.
\<close>

definition recv_ok :: "env \<Rightarrow> bool" where
  "recv_ok E \<longleftrightarrow> (\<forall>h fd n c. c \<in> {C_recv fd n, C_recvfrom fd n, C_sctp_recvmsg fd n} \<longrightarrow>
     0 \<le> rv (os E h c) \<longrightarrow> rv (os E h c) = int (length (odata (os E h c))) \<and> length (odata (os E h c)) \<le> n)"

text \<open>\<open>repeat(n)\<close> runs its body for \<open>i\<close> from 0 to \<open>n - 1\<close>.\<close>

definition repeat_ok :: "env \<Rightarrow> bool" where
  "repeat_ok E \<longleftrightarrow> (\<forall>n. repeat_ix E n = [0..n - 1])"

text \<open>\<open>select\<close> leaves in the set only descriptors that were in it.\<close>

definition select_ok :: "env \<Rightarrow> bool" where
  "select_ok E \<longleftrightarrow> (\<forall>h n S t. ofds (os E h (C_select n S t)) \<subseteq> S)"

text \<open>A loop over an \<open>unordered_map\<close> visits every key once, in whatever order.\<close>

definition hash_ok :: "env \<Rightarrow> bool" where
  "hash_ok E \<longleftrightarrow> (\<forall>h ks. mset (hash_order E h ks) = mset ks)"

text \<open>\<open>shuffledIndexes(n)\<close> are the numbers below \<open>n\<close>, each once, in whatever order.\<close>

definition shuffle_ok :: "env \<Rightarrow> bool" where
  "shuffle_ok E \<longleftrightarrow> (\<forall>h n. mset (shuffled_ix E h n) = mset [0..<n])"

text \<open>Every task runs once.\<close>

definition tasks_ok :: "env \<Rightarrow> bool" where
  "tasks_ok E \<longleftrightarrow> (\<forall>h fds. set (task_order E h fds) = set fds)"

text \<open>
  \<open><arpa/inet.h>\<close>: \<open>inet_ntop\<close> gives every binary address a text that fits the buffer
  length the headers name and that \<open>inet_pton\<close> reads back; \<open>inet_pton\<close> gives 4 bytes for
  \<open>AF_INET\<close>, 16 for \<open>AF_INET6\<close>, and does not return 1 for any other family.
\<close>

definition INET_ADDRSTRLEN :: nat where "INET_ADDRSTRLEN = 16"
definition INET6_ADDRSTRLEN :: nat where "INET6_ADDRSTRLEN = 46"

definition inet_ok :: "env \<Rightarrow> bool" where
  "inet_ok E \<longleftrightarrow>
     (\<forall>b. length b = 4 \<longrightarrow> (\<exists>a. inet_ntop E AF_INET b = Some a \<and> length a < INET_ADDRSTRLEN \<and>
        NUL \<notin> set a \<and> inet_pton E AF_INET a = (1, b))) \<and>
     (\<forall>b. length b = 16 \<longrightarrow> (\<exists>a. inet_ntop E AF_INET6 b = Some a \<and> length a < INET6_ADDRSTRLEN \<and>
        NUL \<notin> set a \<and> inet_pton E AF_INET6 a = (1, b))) \<and>
     (\<forall>a b. inet_pton E AF_INET a = (1, b) \<longrightarrow> length b = 4) \<and>
     (\<forall>a b. inet_pton E AF_INET6 a = (1, b) \<longrightarrow> length b = 16) \<and>
     (\<forall>f a. f \<noteq> AF_INET \<longrightarrow> f \<noteq> AF_INET6 \<longrightarrow> fst (inet_pton E f a) \<noteq> 1)"

section \<open>Calculus\<close>

lemma wp_sys [wp_simps]:
  "wp (sys E c) Q R = (\<lambda>s. Q (os E (trace s) c) (s\<lparr>trace := (c, os E (trace s) c) # trace s\<rparr>))"
  by (simp add: fun_eq_iff wp_def sys_def Let_def)

lemma wp_check [wp_simps]:
  "wp (check E name f) Q R = (case check_outcome E name f of None \<Rightarrow> Q () | Some e \<Rightarrow> R e)"
  by (simp add: check_def wp_simps split: option.split)

lemma wp_checked [wp_simps]:
  "wp (checked E name f r) Q R = (case check_outcome E name f of None \<Rightarrow> Q r | Some e \<Rightarrow> R e)"
  by (simp add: checked_def wp_simps)

lemma checks_okE:
  assumes "checks_ok E"
  shows "check_outcome E name False = None"
    and "\<exists>w. check_outcome E name True = Some (Runtime_error w)"
    and "succeeded E b = (\<not> b)"
  using assms by (auto simp: checks_ok_def)

lemma checks_ok_throw: "checks_ok E \<Longrightarrow> checks_throw E"
  unfolding checks_throw_def
  by (metis (full_types) checks_okE(1) checks_okE(2) is_exception.simps(1) option.distinct(1)
      option.inject)

lemma checks_ok_None: "checks_ok E \<Longrightarrow> check_outcome E name f = None \<longleftrightarrow> \<not> f"
  by (metis (full_types) checks_okE(1) checks_okE(2) option.distinct(1))

text \<open>The message of the exception a failed check throws.\<close>

definition check_text :: "env \<Rightarrow> string \<Rightarrow> string" where
  "check_text E name =
     (case check_outcome E name True of Some (Runtime_error w) \<Rightarrow> w | _ \<Rightarrow> [])"

lemma checks_ok_eq:
  "checks_ok E \<Longrightarrow>
     check_outcome E name f = (if f then Some (Runtime_error (check_text E name)) else None)"
  using checks_okE(1) [of E name] checks_okE(2) [of E name] by (cases f) (auto simp: check_text_def)

text \<open>
  A computation is \<open>quiet\<close> when it changes nothing of its object but the history, by
  calls that open and close no descriptor. Most of the program is: the lemmas below
  compose.
\<close>

definition quiet :: "('z world_scheme, 'a) io \<Rightarrow> bool" where
  "quiet m \<longleftrightarrow> (\<forall>s. \<exists>t. snd (m s) = s\<lparr>trace := t @ trace s\<rparr> \<and> neutral t)"

named_theorems quiet_intros "computations that open and close nothing"

lemma quiet_wp:
  assumes "quiet m"
    and "\<And>t x. neutral t \<Longrightarrow> Q x (s\<lparr>trace := t @ trace s\<rparr>)"
    and "\<And>t e. neutral t \<Longrightarrow> R e (s\<lparr>trace := t @ trace s\<rparr>)"
  shows "wp m Q R s"
proof -
  obtain t where "snd (m s) = s\<lparr>trace := t @ trace s\<rparr>" "neutral t"
    using assms(1) unfolding quiet_def by blast
  then show ?thesis
    using assms(2,3) [of t] by (cases "fst (m s)") (auto simp: wp_def split: prod.splits)
qed

lemma quiet_same: "(\<And>s. snd (m s) = s) \<Longrightarrow> quiet m"
  unfolding quiet_def
proof
  fix s :: "'a world_scheme"
  assume "\<And>s. snd (m s) = s"
  then have "snd (m s) = s\<lparr>trace := [] @ trace s\<rparr> \<and> neutral []" by simp
  then show "\<exists>t. snd (m s) = s\<lparr>trace := t @ trace s\<rparr> \<and> neutral t" by blast
qed

lemma quiet_return [quiet_intros]: "quiet (return x)"
  by (rule quiet_same) (simp add: return_def)

lemma quiet_throw [quiet_intros]: "quiet (throw e)"
  by (rule quiet_same) (simp add: throw_def)

lemma quiet_gets [quiet_intros]: "quiet (gets f)"
  by (rule quiet_same) (simp add: gets_def)

lemma quiet_lift_sum [quiet_intros]: "quiet (lift_sum r)"
  by (rule quiet_same) (simp add: lift_sum_def)

lemma quiet_check [quiet_intros]: "quiet (check E name f)"
  by (auto simp: check_def intro: quiet_intros split: option.split)

lemma quiet_bindE [quiet_intros]:
  assumes "quiet m" and "\<And>x. quiet (f x)"
  shows "quiet (bindE m f)"
  unfolding quiet_def
proof
  fix s :: "'a world_scheme"
  obtain t where t: "snd (m s) = s\<lparr>trace := t @ trace s\<rparr>" "neutral t"
    using assms(1) unfolding quiet_def by blast
  show "\<exists>t. snd (bindE m f s) = s\<lparr>trace := t @ trace s\<rparr> \<and> neutral t"
  proof (cases "fst (m s)")
    case (Inl e)
    then show ?thesis using t by (auto simp: bindE_def split: prod.splits)
  next
    case (Inr x)
    obtain u where u: "snd (f x (snd (m s))) = (snd (m s))\<lparr>trace := u @ trace (snd (m s))\<rparr>" "neutral u"
      using assms(2) unfolding quiet_def by blast
    have "snd (bindE m f s) = s\<lparr>trace := (u @ t) @ trace s\<rparr> \<and> neutral (u @ t)"
      using Inr t u by (auto simp: bindE_def split: prod.splits)
    then show ?thesis by blast
  qed
qed

lemma quiet_thenE [quiet_intros]: "quiet m \<Longrightarrow> quiet n \<Longrightarrow> quiet (thenE m n)"
  by (simp add: thenE_def quiet_intros)

lemma quiet_checked [quiet_intros]: "quiet (checked E name f r)"
  by (simp add: checked_def quiet_intros)

lemma quiet_for_each [quiet_intros]: "(\<And>x. quiet (f x)) \<Longrightarrow> quiet (for_each f xs)"
  by (induction xs) (simp_all add: quiet_intros)

lemma quiet_if [quiet_intros]: "quiet m \<Longrightarrow> quiet n \<Longrightarrow> quiet (if b then m else n)"
  by simp

fun neutral_call :: "call \<Rightarrow> bool" where
  "neutral_call (C_socket f t p) = False"
| "neutral_call (C_accept4 fd) = False"
| "neutral_call (C_sctp_peeloff fd a) = False"
| "neutral_call (C_close fd) = False"
| "neutral_call (C_socketpair f t p) = False"
| "neutral_call C_pipe2 = False"
| "neutral_call (C_open p w) = False"
| "neutral_call (C_shm_open p) = False"
| "neutral_call c = True"

lemma neutral_callD: "neutral_call c \<Longrightarrow> opened (c, r) = {} \<and> closed (c, r) = {}"
  by (cases c) auto

lemma accounts_neutral_call [simp]: "neutral_call c \<Longrightarrow> accounts ((c, r) # h) L \<longleftrightarrow> accounts h L"
  using accounts_neutral [of "[(c, r)]" h L] by (simp add: neutral_callD)

lemma quiet_sys [quiet_intros]: "neutral_call c \<Longrightarrow> quiet (sys E c)"
  unfolding quiet_def
proof
  fix s :: "'a world_scheme"
  assume "neutral_call c"
  then have "snd (sys E c s) = s\<lparr>trace := [(c, os E (trace s) c)] @ trace s\<rparr> \<and>
      neutral [(c, os E (trace s) c)]"
    by (simp add: sys_def Let_def neutral_callD)
  then show "\<exists>t. snd (sys E c s) = s\<lparr>trace := t @ trace s\<rparr> \<and> neutral t" by blast
qed

lemma quiet_let [quiet_intros]: "quiet (f x) \<Longrightarrow> quiet (let y = x in f y)"
  by simp

lemma quiet_case_list [quiet_intros]:
  "quiet m \<Longrightarrow> (\<And>x ys. quiet (f x ys)) \<Longrightarrow> quiet (case xs of [] \<Rightarrow> m | x # ys \<Rightarrow> f x ys)"
  by (cases xs) simp_all

text \<open>A quiet computation keeps every invariant that neutral calls leave alone.\<close>

definition stable :: "('z world_scheme \<Rightarrow> bool) \<Rightarrow> bool" where
  "stable I \<longleftrightarrow> (\<forall>s t. neutral t \<longrightarrow> I s \<longrightarrow> I (s\<lparr>trace := t @ trace s\<rparr>))"

lemma quiet_keeps: "quiet m \<Longrightarrow> stable I \<Longrightarrow> keeps I m"
  by (rule keepsI, erule quiet_wp) (auto simp: stable_def safely_def)

text \<open>A computation \<open>grows\<close> the history: what it adds goes in front of what was there.\<close>

definition grows :: "('z world_scheme, 'a) io \<Rightarrow> bool" where
  "grows m \<longleftrightarrow> (\<forall>s. \<exists>u. trace (snd (m s)) = u @ trace s)"

named_theorems grows_intros "computations that only add to the history"

lemma growsI: "(\<And>s. \<exists>u. trace (snd (m s)) = u @ trace s) \<Longrightarrow> grows m"
  by (simp add: grows_def)

lemma growsD: "grows m \<Longrightarrow> \<exists>u. trace (snd (m s)) = u @ trace s"
  by (simp add: grows_def)

lemma grows_same: "(\<And>s. trace (snd (m s)) = trace s) \<Longrightarrow> grows m"
  by (simp add: grows_def)

lemma grows_wp: "grows m \<Longrightarrow> wp m (\<lambda>_ t. \<exists>u. trace t = u @ trace s) (\<lambda>_ t. \<exists>u. trace t = u @ trace s) s"
  using growsD [of m s] by (auto simp: wp_def split: prod.split sum.split)

lemma grows_quiet: "quiet m \<Longrightarrow> grows m"
proof (rule growsI)
  fix s :: "'a world_scheme"
  assume "quiet m"
  then obtain t where "snd (m s) = s\<lparr>trace := t @ trace s\<rparr>" unfolding quiet_def by blast
  then show "\<exists>u. trace (snd (m s)) = u @ trace s" by simp
qed

lemma grows_basic [grows_intros]:
  "grows (return x)" "grows (throw e)" "grows (gets f)" "grows (lift_sum r)"
  by (rule grows_same, simp add: io_defs)+

lemma grows_modify: "(\<And>s. trace (f s) = trace s) \<Longrightarrow> grows (modify f)"
  by (rule grows_same) (simp add: io_defs)

lemma grows_sys [grows_intros]: "grows (sys E c)"
  by (simp add: grows_def sys_def Let_def)

lemma grows_check [grows_intros]: "grows (check E name f)"
  by (auto simp: check_def intro: grows_intros split: option.split)

lemma grows_bindE [grows_intros]:
  assumes "grows m" and "\<And>x. grows (f x)"
  shows "grows (bindE m f)"
proof (rule growsI)
  fix s :: "'a world_scheme"
  obtain r t where r: "m s = (r, t)" by force
  obtain u where u: "trace t = u @ trace s" using growsD [OF assms(1), of s] r by auto
  show "\<exists>u. trace (snd (bindE m f s)) = u @ trace s"
  proof (cases r)
    case (Inl e)
    then show ?thesis using r u by (simp add: bindE_def)
  next
    case (Inr x)
    obtain v where "trace (snd (f x t)) = v @ trace t" using growsD [OF assms(2)] by blast
    then show ?thesis using Inr r u by (intro exI [of _ "v @ u"]) (simp add: bindE_def)
  qed
qed

lemma grows_thenE [grows_intros]: "grows m \<Longrightarrow> grows n \<Longrightarrow> grows (thenE m n)"
  by (simp add: thenE_def grows_intros)

lemma grows_checked [grows_intros]: "grows (checked E name f r)"
  by (simp add: checked_def grows_intros)

lemma grows_for_each [grows_intros]: "(\<And>x. grows (f x)) \<Longrightarrow> grows (for_each f xs)"
  by (induction xs) (simp_all add: grows_intros)

lemma grows_if [grows_intros]: "grows m \<Longrightarrow> grows n \<Longrightarrow> grows (if b then m else n)"
  by simp

end
