(* ===== verification/DemoEnv.thy ===== *)
theory DemoEnv
  imports Platform
begin

text \<open>
  One concrete environment, used only to apply theorems at concrete inputs: it shows that the
  hypotheses of \<open>Platform\<close> hold together and lets examples evaluate. Its kernel gives out
  the descriptor above all live ones, lets every other call succeed, delivers a fixed message
  from a fixed address, and reports every watched descriptor as ready.
\<close>

section \<open>Address texts\<close>

text \<open>Two letters per byte, from A for 0 to P for 15: 8 characters for IPv4, 32 for IPv6.\<close>

primrec demo_text :: "bytes \<Rightarrow> string" where
  "demo_text [] = []"
| "demo_text (b # bs) =
     char_of (65 + unat b div 16) # char_of (65 + unat b mod 16) # demo_text bs"

fun demo_parse :: "string \<Rightarrow> bytes" where
  "demo_parse (c # d # cs) =
     word_of_nat ((of_char c - 65) * 16 + (of_char d - 65)) # demo_parse cs"
| "demo_parse cs = []"

definition demo_pton :: "family \<Rightarrow> string \<Rightarrow> int \<times> bytes" where
  "demo_pton f a =
     (if f = AF_INET \<and> length a = 8 \<or> f = AF_INET6 \<and> length a = 32 then (1, demo_parse a)
      else (0, []))"

definition demo_ntop :: "family \<Rightarrow> bytes \<Rightarrow> string option" where
  "demo_ntop f b =
     (if f = AF_INET \<and> length b = 4 \<or> f = AF_INET6 \<and> length b = 16 then Some (demo_text b) else None)"

lemma length_demo_text [simp]: "length (demo_text b) = 2 * length b"
  by (induction b) auto

lemma unat_byte_less: "unat (b :: byte) < 256"
  using unsigned_less [of b] by simp

lemma demo_parse_text [simp]: "demo_parse (demo_text b) = b"
proof (induction b)
  case Nil
  then show ?case by simp
next
  case (Cons x b)
  have "unat x div 16 < 16" using unat_byte_less [of x] by (simp add: less_mult_imp_div_less)
  then show ?case using Cons by simp
qed

lemma char_of_not_NUL: "0 < n \<Longrightarrow> n < 256 \<Longrightarrow> char_of (n :: nat) \<noteq> NUL"
proof
  assume n: "0 < n" "n < 256" and "char_of n = NUL"
  then have "(of_char (char_of n) :: nat) = of_char NUL" by simp
  then show False using n by simp
qed

lemma nul_notin_demo_text: "NUL \<notin> set (demo_text b)"
proof (induction b)
  case Nil
  then show ?case by simp
next
  case (Cons x b)
  have "unat x div 16 < 16" using unat_byte_less [of x] by (simp add: less_mult_imp_div_less)
  then have "char_of (65 + unat x div 16) \<noteq> NUL" and "char_of (65 + unat x mod 16) \<noteq> NUL"
    using char_of_not_NUL [of "65 + unat x div 16"] char_of_not_NUL [of "65 + unat x mod 16"]
    by simp_all
  then show ?case using Cons by auto
qed

lemma length_demo_parse: "even (length a) \<Longrightarrow> length (demo_parse a) = length a div 2"
  by (induction a rule: demo_parse.induct) auto

section \<open>The environment\<close>

definition next_fd :: "history \<Rightarrow> FD" where
  "next_fd h = Max (insert 2 (live h)) + 1"

fun demo_os :: "string \<Rightarrow> bytes \<Rightarrow> history \<Rightarrow> call \<Rightarrow> ret" where
  "demo_os msg from h (C_socket f t p) = reply (next_fd h)"
| "demo_os msg from h (C_accept4 fd) = (reply (next_fd h))\<lparr>oaddr := from\<rparr>"
| "demo_os msg from h (C_sctp_peeloff fd a) = reply (next_fd h)"
| "demo_os msg from h (C_getsockname fd) = (reply 0)\<lparr>oaddr := from\<rparr>"
| "demo_os msg from h (C_getpeername fd) = (reply 0)\<lparr>oaddr := from\<rparr>"
| "demo_os msg from h (C_recv fd n) = (reply (int (length (take n msg))))\<lparr>odata := take n msg\<rparr>"
| "demo_os msg from h (C_recvfrom fd n) =
     (reply (int (length (take n msg))))\<lparr>odata := take n msg, oaddr := from\<rparr>"
| "demo_os msg from h (C_sctp_recvmsg fd n) =
     (reply (int (length (take n msg))))\<lparr>odata := take n msg, oaddr := from\<rparr>"
| "demo_os msg from h (C_select n S t) = (reply (int (card S)))\<lparr>ofds := S\<rparr>"
| "demo_os msg from h (C_task_lock i) = reply 1"
| "demo_os msg from h (C_socketpair f t p) = (reply 0)\<lparr>opair := (next_fd h, next_fd h + 1)\<rparr>"
| "demo_os msg from h C_pipe2 = (reply 0)\<lparr>opair := (next_fd h, next_fd h + 1)\<rparr>"
| "demo_os msg from h (C_open p w) = reply (next_fd h)"
| "demo_os msg from h (C_shm_open p) = reply (next_fd h)"
| "demo_os msg from h c = reply 0"

definition demo_check :: "string \<Rightarrow> bool \<Rightarrow> error option" where
  "demo_check name failed = (if failed then Some (Runtime_error name) else None)"

definition demo_lock :: "nat \<Rightarrow> nat option" where
  "demo_lock n = (if n = 0 then Some 1 else None)"

definition ascii_lower :: "char \<Rightarrow> char" where
  "ascii_lower c = (if 65 \<le> (of_char c :: nat) \<and> of_char c \<le> (90 :: nat) then char_of (of_char c + 32 :: nat) else c)"

definition demo_env :: "nat \<Rightarrow> string \<Rightarrow> bytes \<Rightarrow> env" where
  "demo_env bsize msg from =
     \<lparr>os = demo_os msg from, inet_pton = demo_pton, inet_ntop = demo_ntop,
      check_outcome = demo_check, succeeded = Not, LOCK_MTX = demo_lock,
      pool_get = (\<lambda>h n. replicate bsize NUL), repeat_ix = (\<lambda>n. [0..n - 1]),
      count_s = (\<lambda>t. if t < 0 then - (- t div 1000000) else t div 1000000), count_us = (\<lambda>t. t), task_order = (\<lambda>h fds. fds),
      hash_order = (\<lambda>h ks. ks), shuffled_ix = (\<lambda>h n. [0..<n]),
      join_tasks = (\<lambda>es. None), due_tasks = (\<lambda>h. []), launch_result = (\<lambda>es. None),
      log_exceptions = (\<lambda>e. None), to_lower = map ascii_lower, garbage = [], indeterminate = 0\<rparr>"

lemma demo_env_sel [simp]:
  "os (demo_env bsize msg from) = demo_os msg from"
  "inet_pton (demo_env bsize msg from) = demo_pton"
  "inet_ntop (demo_env bsize msg from) = demo_ntop"
  "check_outcome (demo_env bsize msg from) = demo_check"
  "succeeded (demo_env bsize msg from) = Not"
  "LOCK_MTX (demo_env bsize msg from) = demo_lock"
  "pool_get (demo_env bsize msg from) = (\<lambda>h n. replicate bsize NUL)"
  "repeat_ix (demo_env bsize msg from) = (\<lambda>n. [0..n - 1])"
  "count_s (demo_env bsize msg from) = (\<lambda>t. if t < 0 then - (- t div 1000000) else t div 1000000)"
  "count_us (demo_env bsize msg from) = (\<lambda>t. t)"
  "task_order (demo_env bsize msg from) = (\<lambda>h fds. fds)"
  "hash_order (demo_env bsize msg from) = (\<lambda>h ks. ks)"
  "shuffled_ix (demo_env bsize msg from) = (\<lambda>h n. [0..<n])"
  "join_tasks (demo_env bsize msg from) = (\<lambda>es. None)"
  "due_tasks (demo_env bsize msg from) = (\<lambda>h. [])"
  "launch_result (demo_env bsize msg from) = (\<lambda>es. None)"
  "log_exceptions (demo_env bsize msg from) = (\<lambda>e. None)"
  "to_lower (demo_env bsize msg from) = map ascii_lower"
  "garbage (demo_env bsize msg from) = []"
  "indeterminate (demo_env bsize msg from) = 0"
  by (simp_all add: demo_env_def)

section \<open>It satisfies the contracts\<close>

lemma finite_opened [simp]: "finite (opened e)"
  by (cases e rule: opened.cases) auto

lemma finite_live [simp]: "finite (live h)"
  by (induction h) auto

lemma next_fd_fresh: "next_fd h \<notin> live h"
proof
  assume "next_fd h \<in> live h"
  then have "next_fd h \<le> Max (insert 2 (live h))" by (intro Max_ge) auto
  then show False by (simp add: next_fd_def)
qed

lemma next_fd_fresh': "next_fd h + 1 \<notin> live h"
proof
  assume "next_fd h + 1 \<in> live h"
  then have "next_fd h + 1 \<le> Max (insert 2 (live h))" by (intro Max_ge) auto
  then show False by (simp add: next_fd_def)
qed

lemma next_fd_ge: "3 \<le> next_fd h"
  using Max_ge [of "insert 2 (live h)" 2] by (simp add: next_fd_def)

lemma demo_fresh_fds [simp]: "fresh_fds (demo_env bsize msg from)"
  unfolding fresh_fds_def
proof (intro allI)
  fix h c
  show "opened (c, os (demo_env bsize msg from) h c) \<inter> live h = {}"
    using next_fd_fresh [of h] next_fd_fresh' [of h] by (cases c) auto
qed

lemma demo_checks_ok [simp]: "checks_ok (demo_env bsize msg from)"
  by (simp add: checks_ok_def demo_check_def)

lemma demo_std_mutex [simp]: "std_mutex (demo_env bsize msg from)"
  by (simp add: std_mutex_def demo_lock_def)

lemma demo_recv_ok [simp]: "recv_ok (demo_env bsize msg from)"
  by (auto simp: recv_ok_def)

lemma demo_repeat_ok [simp]: "repeat_ok (demo_env bsize msg from)"
  by (simp add: repeat_ok_def)

lemma demo_select_ok [simp]: "select_ok (demo_env bsize msg from)"
  by (simp add: select_ok_def)

lemma demo_tasks_ok [simp]: "tasks_ok (demo_env bsize msg from)"
  by (simp add: tasks_ok_def)

lemma demo_hash_ok [simp]: "hash_ok (demo_env bsize msg from)"
  by (simp add: hash_ok_def)

lemma demo_shuffle_ok [simp]: "shuffle_ok (demo_env bsize msg from)"
  by (simp add: shuffle_ok_def)

lemma demo_inet_ok [simp]: "inet_ok (demo_env bsize msg from)"
  unfolding inet_ok_def
  by (auto simp: demo_ntop_def demo_pton_def nul_notin_demo_text length_demo_parse
      INET_ADDRSTRLEN_def INET6_ADDRSTRLEN_def split: if_splits)

end
