(* ===== verification/SocketErrorChecks.thy ===== *)
theory SocketErrorChecks
  imports IPSocketType
begin

text \<open>
  The predicates of \<open>src/src/SocketErrorChecks.cpp\<close>, one per function: whether the value a
  system call returned means that it failed. Those that read \<open>errno\<close> take it as a second
  argument; pointers are 64-bit addresses.
\<close>

section \<open>Values of \<open>errno\<close> and of pointers\<close>

text \<open>The values Linux gives to the names the checks use.\<close>

definition ENOENT :: int where "ENOENT = 2"
definition EINTR :: int where "EINTR = 4"
definition EAGAIN :: int where "EAGAIN = 11"
definition EINPROGRESS :: int where "EINPROGRESS = 115"

lemmas errno_defs = ENOENT_def EINTR_def EAGAIN_def EINPROGRESS_def

type_synonym ptr = "64 word"

definition MAP_FAILED :: ptr where "MAP_FAILED = -1"
definition SEM_FAILED :: ptr where "SEM_FAILED = 0"

section \<open>The predicates\<close>

definition failedAccept :: "int \<Rightarrow> bool" where
  "failedAccept result \<longleftrightarrow> result < 0"

definition failedBind :: "int \<Rightarrow> bool" where
  "failedBind result \<longleftrightarrow> result \<noteq> 0"

definition failedConnect :: "int \<Rightarrow> int \<Rightarrow> bool" where
  "failedConnect result errno \<longleftrightarrow> \<not> (result = 0 \<or> errno \<in> {EINPROGRESS, EINTR})"

definition failedFcntl :: "int \<Rightarrow> bool" where
  "failedFcntl result \<longleftrightarrow> result = -1"

definition failedFork :: "int \<Rightarrow> bool" where
  "failedFork result \<longleftrightarrow> result < 0"

definition failedGetaddrs :: "int \<Rightarrow> bool" where
  "failedGetaddrs result \<longleftrightarrow> result < 0"

definition failedGetpeername :: "int \<Rightarrow> bool" where
  "failedGetpeername result \<longleftrightarrow> result \<noteq> 0"

definition failedGetsockname :: "int \<Rightarrow> bool" where
  "failedGetsockname result \<longleftrightarrow> result \<noteq> 0"

definition failedGetsockopt :: "int \<Rightarrow> bool" where
  "failedGetsockopt result \<longleftrightarrow> result \<noteq> 0"

definition failedInetpton :: "int \<Rightarrow> bool" where
  "failedInetpton result \<longleftrightarrow> result \<noteq> 1"

definition failedListen :: "int \<Rightarrow> bool" where
  "failedListen result \<longleftrightarrow> result \<noteq> 0"

definition failedMkfifo :: "int \<Rightarrow> bool" where
  "failedMkfifo result \<longleftrightarrow> result \<noteq> 0"

definition failedMqClose :: "int \<Rightarrow> bool" where
  "failedMqClose result \<longleftrightarrow> result \<noteq> 0"

definition failedMqOpen :: "int \<Rightarrow> bool" where
  "failedMqOpen result \<longleftrightarrow> result < 0"

definition failedMqReceive :: "int \<Rightarrow> int \<Rightarrow> bool" where
  "failedMqReceive result errno \<longleftrightarrow> result < 0 \<and> errno \<noteq> EAGAIN"

definition failedMqSend :: "int \<Rightarrow> bool" where
  "failedMqSend result \<longleftrightarrow> result \<noteq> 0"

definition failedMqUnlink :: "int \<Rightarrow> bool" where
  "failedMqUnlink result \<longleftrightarrow> result \<noteq> 0"

definition failedOpen :: "int \<Rightarrow> bool" where
  "failedOpen result \<longleftrightarrow> result < 0"

definition failedOptinfo :: "int \<Rightarrow> bool" where
  "failedOptinfo result \<longleftrightarrow> result \<noteq> 0"

definition failedPeeloff :: "int \<Rightarrow> bool" where
  "failedPeeloff result \<longleftrightarrow> result < 0"

definition failedPipe :: "int \<Rightarrow> bool" where
  "failedPipe result \<longleftrightarrow> result \<noteq> 0"

definition failedPrctl :: "int \<Rightarrow> bool" where
  "failedPrctl result \<longleftrightarrow> result = -1"

definition failedRead :: "int \<Rightarrow> int \<Rightarrow> bool" where
  "failedRead result errno \<longleftrightarrow> result < 0 \<and> errno \<noteq> EAGAIN"

definition failedReceive :: "int \<Rightarrow> bool" where
  "failedReceive result \<longleftrightarrow> result < 0"

definition failedRemove :: "int \<Rightarrow> int \<Rightarrow> bool" where
  "failedRemove result errno \<longleftrightarrow> result \<noteq> 0 \<and> errno \<noteq> ENOENT"

definition failedSelect :: "int \<Rightarrow> bool" where
  "failedSelect result \<longleftrightarrow> result < 0"

definition failedSemgetvalue :: "int \<Rightarrow> bool" where
  "failedSemgetvalue result \<longleftrightarrow> result \<noteq> 0"

definition failedSeminit :: "int \<Rightarrow> bool" where
  "failedSeminit result \<longleftrightarrow> result \<noteq> 0"

definition failedSempost :: "int \<Rightarrow> bool" where
  "failedSempost result \<longleftrightarrow> result \<noteq> 0"

definition failedSemtrywait :: "int \<Rightarrow> int \<Rightarrow> bool" where
  "failedSemtrywait result errno \<longleftrightarrow> result \<noteq> 0 \<and> errno \<noteq> EAGAIN"

definition failedSend :: "int \<Rightarrow> bool" where
  "failedSend result \<longleftrightarrow> result < 0"

definition failedSetsockopt :: "int \<Rightarrow> bool" where
  "failedSetsockopt result \<longleftrightarrow> result \<noteq> 0"

definition failedShmdt :: "int \<Rightarrow> bool" where
  "failedShmdt result \<longleftrightarrow> result \<noteq> 0"

definition failedShmget :: "int \<Rightarrow> bool" where
  "failedShmget result \<longleftrightarrow> result < 0"

definition failedShmopen :: "int \<Rightarrow> bool" where
  "failedShmopen result \<longleftrightarrow> result < 0"

definition failedSocket :: "int \<Rightarrow> bool" where
  "failedSocket result \<longleftrightarrow> result < 0"

definition failedSocketpair :: "int \<Rightarrow> bool" where
  "failedSocketpair result \<longleftrightarrow> result \<noteq> 0"

definition failedTruncate :: "int \<Rightarrow> bool" where
  "failedTruncate result \<longleftrightarrow> result \<noteq> 0"

definition failedWrite :: "int \<Rightarrow> bool" where
  "failedWrite result \<longleftrightarrow> result < 0"

definition failedWsaStartup :: "int \<Rightarrow> bool" where
  "failedWsaStartup result \<longleftrightarrow> result \<noteq> 0"

definition failedInetntop :: "ptr \<Rightarrow> bool" where
  "failedInetntop result \<longleftrightarrow> result = 0"

definition failedMmap :: "ptr \<Rightarrow> bool" where
  "failedMmap result \<longleftrightarrow> result = MAP_FAILED"

definition failedSemopen :: "ptr \<Rightarrow> bool" where
  "failedSemopen result \<longleftrightarrow> result = SEM_FAILED"

definition failedShmat :: "ptr \<Rightarrow> bool" where
  "failedShmat result \<longleftrightarrow> result = MAP_FAILED"

lemmas failed_defs =
  failedAccept_def failedBind_def failedFcntl_def failedFork_def failedGetaddrs_def
  failedGetpeername_def failedGetsockname_def failedGetsockopt_def failedInetpton_def
  failedListen_def failedMkfifo_def failedMqClose_def failedMqOpen_def failedMqSend_def
  failedMqUnlink_def failedOpen_def failedOptinfo_def failedPeeloff_def failedPipe_def
  failedPrctl_def failedReceive_def failedSelect_def failedSemgetvalue_def failedSeminit_def
  failedSempost_def failedSend_def failedSetsockopt_def failedShmdt_def failedShmget_def
  failedShmopen_def failedSocket_def failedSocketpair_def failedTruncate_def failedWrite_def
  failedWsaStartup_def failedConnect_def failedMqReceive_def failedRead_def failedRemove_def
  failedSemtrywait_def failedInetntop_def failedMmap_def failedSemopen_def failedShmat_def

section \<open>The checks the header generates\<close>

text \<open>
  \<open>SocketErrorChecks.hpp\<close> generates a check for each predicate: those on \<open>int\<close> results
  and those on pointers, in its order.
\<close>

definition int_checks :: "(string \<times> (int \<Rightarrow> int \<Rightarrow> bool)) list" where
  "int_checks = [
     (''Accept'', (\<lambda>r _. failedAccept r)),
     (''Bind'', (\<lambda>r _. failedBind r)),
     (''Connect'', failedConnect),
     (''Fcntl'', (\<lambda>r _. failedFcntl r)),
     (''Fork'', (\<lambda>r _. failedFork r)),
     (''Getaddrs'', (\<lambda>r _. failedGetaddrs r)),
     (''Getpeername'', (\<lambda>r _. failedGetpeername r)),
     (''Getsockname'', (\<lambda>r _. failedGetsockname r)),
     (''Getsockopt'', (\<lambda>r _. failedGetsockopt r)),
     (''Inetpton'', (\<lambda>r _. failedInetpton r)),
     (''Listen'', (\<lambda>r _. failedListen r)),
     (''Mkfifo'', (\<lambda>r _. failedMkfifo r)),
     (''MqClose'', (\<lambda>r _. failedMqClose r)),
     (''MqOpen'', (\<lambda>r _. failedMqOpen r)),
     (''MqReceive'', failedMqReceive),
     (''MqSend'', (\<lambda>r _. failedMqSend r)),
     (''MqUnlink'', (\<lambda>r _. failedMqUnlink r)),
     (''Open'', (\<lambda>r _. failedOpen r)),
     (''Optinfo'', (\<lambda>r _. failedOptinfo r)),
     (''Peeloff'', (\<lambda>r _. failedPeeloff r)),
     (''Pipe'', (\<lambda>r _. failedPipe r)),
     (''Prctl'', (\<lambda>r _. failedPrctl r)),
     (''Read'', failedRead),
     (''Receive'', (\<lambda>r _. failedReceive r)),
     (''Remove'', failedRemove),
     (''Select'', (\<lambda>r _. failedSelect r)),
     (''Semgetvalue'', (\<lambda>r _. failedSemgetvalue r)),
     (''Seminit'', (\<lambda>r _. failedSeminit r)),
     (''Sempost'', (\<lambda>r _. failedSempost r)),
     (''Semtrywait'', failedSemtrywait),
     (''Send'', (\<lambda>r _. failedSend r)),
     (''Setsockopt'', (\<lambda>r _. failedSetsockopt r)),
     (''Shmdt'', (\<lambda>r _. failedShmdt r)),
     (''Shmget'', (\<lambda>r _. failedShmget r)),
     (''Shmopen'', (\<lambda>r _. failedShmopen r)),
     (''Socket'', (\<lambda>r _. failedSocket r)),
     (''Socketpair'', (\<lambda>r _. failedSocketpair r)),
     (''Truncate'', (\<lambda>r _. failedTruncate r)),
     (''Write'', (\<lambda>r _. failedWrite r)),
     (''WsaStartup'', (\<lambda>r _. failedWsaStartup r))]"

definition ptr_checks :: "(string \<times> (ptr \<Rightarrow> bool)) list" where
  "ptr_checks = [
     (''Inetntop'', failedInetntop),
     (''Mmap'', failedMmap),
     (''Semopen'', failedSemopen),
     (''Shmat'', failedShmat)]"

text \<open>
  The checks of the calls that return a descriptor or an identifier: any non-negative value
  passes, any negative one fails.
\<close>

lemma failed_descriptor [simp]:
  "failedAccept r \<longleftrightarrow> r < 0" "failedSocket r \<longleftrightarrow> r < 0" "failedPeeloff r \<longleftrightarrow> r < 0"
  "failedMqOpen r \<longleftrightarrow> r < 0" "failedOpen r \<longleftrightarrow> r < 0" "failedShmopen r \<longleftrightarrow> r < 0"
  "failedShmget r \<longleftrightarrow> r < 0" "failedReceive r \<longleftrightarrow> r < 0" "failedSelect r \<longleftrightarrow> r < 0"
  by (simp_all add: failed_defs)

text \<open>
  The system's error value \<open>-1\<close> fails every check on an \<open>int\<close> result, whatever
  \<open>errno\<close> is, except for the five checks that tolerate an \<open>errno\<close>: \<open>Connect\<close>
  (EINPROGRESS, EINTR), \<open>MqReceive\<close>, \<open>Read\<close> and \<open>Semtrywait\<close> (EAGAIN), \<open>Remove\<close>
  (ENOENT). The success value 0 passes every check but \<open>Inetpton\<close>, which wants 1.
\<close>

theorem int_checks_classified:
  "\<forall>(name, failed) \<in> set int_checks. \<forall>errno.
     (\<not> failed (-1) errno \<longleftrightarrow>
        name = ''Connect'' \<and> errno \<in> {EINPROGRESS, EINTR} \<or>
        name \<in> {''MqReceive'', ''Read'', ''Semtrywait''} \<and> errno = EAGAIN \<or>
        name = ''Remove'' \<and> errno = ENOENT) \<and>
     (failed 0 errno \<longleftrightarrow> name = ''Inetpton'')"
  unfolding int_checks_def by (simp add: failed_defs)

theorem int_checks_classified_witness:
  "\<not> failedRead (-1) EAGAIN \<and> failedRead (-1) EINTR \<and> failedInetpton 0 \<and> \<not> failedSend 0"
proof -
  have "(''Read'', failedRead) \<in> set int_checks" and "(''Inetpton'', \<lambda>r _. failedInetpton r) \<in> set int_checks"
    and "(''Send'', \<lambda>r _. failedSend r) \<in> set int_checks"
    by (simp_all add: int_checks_def)
  note c = this [THEN int_checks_classified [THEN bspec]]
  show ?thesis
    using c(1) [simplified, THEN spec, of EINTR] c(1) [simplified, THEN spec, of EAGAIN]
      c(2) [simplified] c(3) [simplified] by (simp add: errno_defs)
qed

end
