(* ===== verification/IPSocket.thy ===== *)
theory IPSocket
  imports DemoEnv SocketErrorChecks
begin

unbundle bit_operations_syntax

text \<open>
  \<open>src/src/IPSocket.cpp\<close>: the address family of an address text, the conversions between
  an \<open>IPSocket\<close> and the socket address structures of the system, byte by byte, and the
  packed array of addresses the SCTP calls take.

  The layouts are those of Linux on a little-endian machine: \<open>sockaddr_in\<close> is family (2
  bytes), port (2), address (4), zeros (8); \<open>sockaddr_in6\<close> is family (2), port (2), flow
  information (4), address (16), scope (4).
\<close>

section \<open>Bytes of 16-bit values\<close>

definition le16 :: "16 word \<Rightarrow> bytes" where
  "le16 w = [ucast w, ucast (drop_bit 8 w)]"

definition of_le16 :: "bytes \<Rightarrow> 16 word" where
  "of_le16 b = (case b of x # y # _ \<Rightarrow> ucast x OR push_bit 8 (ucast y) | _ \<Rightarrow> 0)"

text \<open>\<open>htons\<close> and \<open>ntohs\<close> swap the two bytes of their argument.\<close>

definition htons :: "16 word \<Rightarrow> 16 word" where
  "htons w = push_bit 8 w OR drop_bit 8 w"

definition ntohs :: "16 word \<Rightarrow> 16 word" where
  "ntohs w = push_bit 8 w OR drop_bit 8 w"

lemma length_le16 [simp]: "length (le16 w) = 2"
  by (simp add: le16_def)

lemma of_le16_le16 [simp]: "of_le16 (le16 w @ r) = w"
  unfolding of_le16_def le16_def by simp (rule bit_word_eqI, auto simp: bit_simps)

lemma ntohs_htons [simp]: "ntohs (htons w) = w"
  unfolding ntohs_def htons_def by (rule bit_word_eqI) (auto simp: bit_simps)

lemma le16_htons: "le16 (htons w) = [ucast (drop_bit 8 w), ucast w]"
  unfolding le16_def htons_def by (auto intro!: bit_word_eqI simp: bit_simps)

section \<open>The family of an address text\<close>

definition isFamily :: "env \<Rightarrow> string \<Rightarrow> family \<Rightarrow> bool" where
  "isFamily E a f = succeeded E (failedInetpton (fst (inet_pton E f (c_str a))))"

definition detectFamily :: "env \<Rightarrow> string \<Rightarrow> family" where
  "detectFamily E a =
     (if isFamily E a AF_INET then AF_INET else if isFamily E a AF_INET6 then AF_INET6 else AF_UNIX)"

definition IPSocket_ctor :: "env \<Rightarrow> string \<Rightarrow> port \<Rightarrow> IPSocket" where
  "IPSocket_ctor E a p = IPSocket a p (detectFamily E a)"

section \<open>To a socket address\<close>

text \<open>
  \<open>RETURN_SOCKADDR_IN\<close>: the structure is zeroed, family and port are stored, the text is
  converted and the conversion checked.
\<close>

definition checked_sum :: "env \<Rightarrow> string \<Rightarrow> bool \<Rightarrow> 'a \<Rightarrow> error + 'a" where
  "checked_sum E name failed x =
     (case check_outcome E name failed of None \<Rightarrow> Inr x | Some e \<Rightarrow> Inl e)"

definition sockaddr_in6_of :: "env \<Rightarrow> IPSocket \<Rightarrow> error + bytes" where
  "sockaddr_in6_of E ip =
     (let (r, b) = inet_pton E (family ip) (c_str (addr ip))
      in checked_sum E ''Inetpton'' (failedInetpton r)
        (le16 (family ip) @ le16 (htons (port ip)) @ replicate 4 0 @ b @ replicate 4 0))"

definition sockaddr_in_of :: "env \<Rightarrow> IPSocket \<Rightarrow> error + bytes" where
  "sockaddr_in_of E ip =
     (let (r, b) = inet_pton E (family ip) (c_str (addr ip))
      in checked_sum E ''Inetpton'' (failedInetpton r)
        (le16 (family ip) @ le16 (htons (port ip)) @ b @ replicate 8 0))"

text \<open>
  \<open>RETURN_SOCKADDR_STORAGE\<close> copies \<open>sizeof(sockaddr_storage)\<close> = 128 bytes from the
  shorter structure, that is, the bytes of memory behind it too: the parameter \<open>garbage\<close>.
\<close>

definition to_sockaddr_storage :: "env \<Rightarrow> IPSocket \<Rightarrow> error + bytes" where
  "to_sockaddr_storage E ip =
     (case (if isIPv6 ip then sockaddr_in6_of E ip else sockaddr_in_of E ip) of
        Inl e \<Rightarrow> Inl e
      | Inr saddr \<Rightarrow> Inr (take 128 (saddr @ garbage E)))"

primrec toSockaddrs :: "env \<Rightarrow> IPSocket list \<Rightarrow> error + bytes" where
  "toSockaddrs E [] = Inr []"
| "toSockaddrs E (ip # ips) =
     (case to_sockaddr_storage E ip of
        Inl e \<Rightarrow> Inl e
      | Inr st \<Rightarrow> (case toSockaddrs E ips of
            Inl e \<Rightarrow> Inl e
          | Inr rest \<Rightarrow> Inr (take (sizeofSockaddr ip) st @ rest)))"

section \<open>From a socket address\<close>

text \<open>
  The constructor reads the family, then the port and the address at the offsets of the
  family's structure, and lets \<open>inet_ntop\<close> write into a text that was resized to
  \<open>INET_ADDRSTRLEN\<close> or \<open>INET6_ADDRSTRLEN\<close> characters before: the text keeps that length,
  filled up with NUL. Memory shorter than what is read is undefined behaviour. The
  address 1 stands for the non-null pointer \<open>inet_ntop\<close> returns.
\<close>

definition addrstrlen :: "family \<Rightarrow> nat" where
  "addrstrlen f = (if f = AF_INET6 then INET6_ADDRSTRLEN else INET_ADDRSTRLEN)"

definition pad_text :: "nat \<Rightarrow> string \<Rightarrow> string" where
  "pad_text n a = a @ replicate (n - length a) NUL"

definition IPSocket_of_sockaddr :: "env \<Rightarrow> bytes \<Rightarrow> error + IPSocket" where
  "IPSocket_of_sockaddr E bs =
     (if length bs < 2 then Inl (Undefined ''sockaddr read out of bounds'')
      else let family = of_le16 bs; v6 = (family = AF_INET6) in
        if length bs < (if v6 then 24 else 8) then Inl (Undefined ''sockaddr read out of bounds'')
        else let port = ntohs (of_le16 (drop 2 bs));
                 sin_addr = (if v6 then take 16 (drop 8 bs) else take 4 (drop 4 bs));
                 (p, text) = (case inet_ntop E family sin_addr of None \<Rightarrow> (0, []) | Some a \<Rightarrow> (1, a))
          in checked_sum E ''Inetntop'' (failedInetntop p)
               (IPSocket (pad_text (addrstrlen family) text) port family))"

section \<open>Round trip\<close>

text \<open>
  A socket can be encoded when its family is an IP family whose text syntax its address has.
  \<open>canonical\<close> is what an encoded socket is decoded to: the canonical text of the same binary
  address, filled up with NUL, and the same port and family.
\<close>

definition encodable :: "env \<Rightarrow> IPSocket \<Rightarrow> bool" where
  "encodable E ip \<longleftrightarrow> family ip \<in> {AF_INET, AF_INET6} \<and>
     fst (inet_pton E (family ip) (c_str (addr ip))) = 1"

definition canonical :: "env \<Rightarrow> IPSocket \<Rightarrow> IPSocket" where
  "canonical E ip =
     IPSocket
       (pad_text (addrstrlen (family ip))
         (case inet_ntop E (family ip) (snd (inet_pton E (family ip) (c_str (addr ip)))) of
            None \<Rightarrow> [] | Some a \<Rightarrow> a))
       (port ip) (family ip)"

lemma sizeofSockaddr_canonical [simp]: "sizeofSockaddr (canonical E ip) = sizeofSockaddr ip"
  by (simp add: sizeofSockaddr_def canonical_def isIPv6_def)

lemma canonical_sel [simp]:
  "port (canonical E ip) = port ip" "family (canonical E ip) = family ip"
  by (simp_all add: canonical_def)

text \<open>The text \<open>inet_ntop\<close> gives for an encodable socket.\<close>

lemma encodableE:
  assumes "encodable E ip" and "inet_ok E"
  obtains b a where
    "inet_pton E (family ip) (c_str (addr ip)) = (1, b)"
    "length b = (if family ip = AF_INET6 then 16 else 4)"
    "inet_ntop E (family ip) b = Some a"
    "length a < addrstrlen (family ip)" "NUL \<notin> set a"
    "inet_pton E (family ip) a = (1, b)"
    "family ip \<in> {AF_INET, AF_INET6}"
    "addr (canonical E ip) = pad_text (addrstrlen (family ip)) a"
proof -
  define b where "b = snd (inet_pton E (family ip) (c_str (addr ip)))"
  have p: "inet_pton E (family ip) (c_str (addr ip)) = (1, b)"
    using assms(1) by (simp add: encodable_def b_def prod_eq_iff)
  have f: "family ip \<in> {AF_INET, AF_INET6}"
    using assms(1) by (simp add: encodable_def)
  have l: "length b = (if family ip = AF_INET6 then 16 else 4)"
    using p f assms(2) by (auto simp: inet_ok_def)
  have "\<exists>a. inet_ntop E (family ip) b = Some a \<and> length a < addrstrlen (family ip) \<and>
      NUL \<notin> set a \<and> inet_pton E (family ip) a = (1, b)"
    using f l assms(2) by (auto simp: inet_ok_def addrstrlen_def)
  then obtain a where a: "inet_ntop E (family ip) b = Some a" "length a < addrstrlen (family ip)"
    "NUL \<notin> set a" "inet_pton E (family ip) a = (1, b)"
    by blast
  have "addr (canonical E ip) = pad_text (addrstrlen (family ip)) a"
    using p a(1) by (simp add: canonical_def)
  then show thesis using that p l a f by blast
qed

lemma c_str_pad_text [simp]: "c_str (pad_text n a) = c_str a"
  by (simp add: pad_text_def c_str_pad)

text \<open>The encoded bytes: family, port in network order, then the address.\<close>

lemma to_sockaddr_storage_bytes:
  assumes "encodable E ip" and "inet_ok E" and "checks_ok E"
  obtains b r where
    "inet_pton E (family ip) (c_str (addr ip)) = (1, b)"
    "to_sockaddr_storage E ip =
       Inr (le16 (family ip) @ le16 (htons (port ip)) @
         (if isIPv6 ip then replicate 4 0 else []) @ b @ r)"
    "length b = (if isIPv6 ip then 16 else 4)"
    "sizeofSockaddr ip \<le> 4 + (if isIPv6 ip then 4 else 0) + length b + length r"
proof -
  from assms obtain b where b: "inet_pton E (family ip) (c_str (addr ip)) = (1, b)"
    "length b = (if family ip = AF_INET6 then 16 else 4)"
    by (auto elim: encodableE)
  show thesis
  proof (cases "isIPv6 ip")
    case True
    have "to_sockaddr_storage E ip = Inr (le16 (family ip) @ le16 (htons (port ip)) @
        replicate 4 0 @ b @ replicate 4 0 @ take 100 (garbage E))"
      using True b assms(3) checks_okE(1)
      by (simp add: to_sockaddr_storage_def sockaddr_in6_of_def checked_sum_def failedInetpton_def
          isIPv6_def)
    then show ?thesis
      using that [of b "replicate 4 0 @ take 100 (garbage E)"] True b
      by (simp add: sizeofSockaddr_def isIPv6_def)
  next
    case False
    have "to_sockaddr_storage E ip = Inr (le16 (family ip) @ le16 (htons (port ip)) @
        b @ replicate 8 0 @ take 112 (garbage E))"
      using False b assms(3) checks_okE(1)
      by (simp add: to_sockaddr_storage_def sockaddr_in_of_def checked_sum_def failedInetpton_def
          isIPv6_def)
    then show ?thesis
      using that [of b "replicate 8 0 @ take 112 (garbage E)"] False b
      by (simp add: sizeofSockaddr_def isIPv6_def)
  qed
qed

text \<open>Decoding reads the first bytes of an encoded socket, whatever follows them.\<close>

lemma of_sockaddr_to_sockaddr:
  assumes "encodable E ip" and "inet_ok E" and "checks_ok E"
    and "to_sockaddr_storage E ip = Inr st"
  shows "IPSocket_of_sockaddr E (take (sizeofSockaddr ip) st @ rest) = Inr (canonical E ip)"
    and "IPSocket_of_sockaddr E st = Inr (canonical E ip)"
    and "sizeofSockaddr ip \<le> length st"
proof -
  from assms(1,2) obtain b a where a: "inet_pton E (family ip) (c_str (addr ip)) = (1, b)"
    "length b = (if family ip = AF_INET6 then 16 else 4)" "inet_ntop E (family ip) b = Some a"
    "addr (canonical E ip) = pad_text (addrstrlen (family ip)) a"
    by (auto elim: encodableE)
  from assms(1-3) obtain b' r where st: "inet_pton E (family ip) (c_str (addr ip)) = (1, b')"
    "to_sockaddr_storage E ip = Inr (le16 (family ip) @ le16 (htons (port ip)) @
         (if isIPv6 ip then replicate 4 0 else []) @ b' @ r)"
    "length b' = (if isIPv6 ip then 16 else 4)"
    "sizeofSockaddr ip \<le> 4 + (if isIPv6 ip then 4 else 0) + length b' + length r"
    by (rule to_sockaddr_storage_bytes)
  have [simp]: "b' = b" using st(1) a(1) by simp
  have eq: "st = le16 (family ip) @ le16 (htons (port ip)) @
      (if isIPv6 ip then replicate 4 0 else []) @ b @ r"
    using st(2) assms(4) by simp
  have can: "canonical E ip = IPSocket (pad_text (addrstrlen (family ip)) a) (port ip) (family ip)"
    using a(4) by (metis IPSocket.exhaust_sel canonical_sel)
  have dec: "IPSocket_of_sockaddr E (le16 (family ip) @ le16 (htons (port ip)) @
      (if isIPv6 ip then replicate 4 0 else []) @ b @ q) = Inr (canonical E ip)" for q
    using a(2,3) checks_okE(1) [OF assms(3)] can
    by (cases "isIPv6 ip")
      (simp_all add: IPSocket_of_sockaddr_def Let_def checked_sum_def failedInetntop_def isIPv6_def)
  show "IPSocket_of_sockaddr E st = Inr (canonical E ip)"
    unfolding eq by (rule dec)
  have "take (sizeofSockaddr ip) st @ rest = le16 (family ip) @ le16 (htons (port ip)) @
      (if isIPv6 ip then replicate 4 0 else []) @ b @
      (take (sizeofSockaddr ip - (4 + (if isIPv6 ip then 4 else 0) + length b)) r @ rest)"
    using st(3) by (simp add: eq sizeofSockaddr_def)
  then show "IPSocket_of_sockaddr E (take (sizeofSockaddr ip) st @ rest) = Inr (canonical E ip)"
    by (simp only: dec)
  show "sizeofSockaddr ip \<le> length st"
    using st(4) by (simp add: eq split: if_splits)
qed

text \<open>
  The canonical socket denotes the same address and is a fixed point; its text is as long as
  the buffer, so it is never the text the socket was made from.
\<close>

lemma canonical_same_address:
  assumes "encodable E ip" and "inet_ok E"
  shows "inet_pton E (family ip) (c_str (addr (canonical E ip))) =
      inet_pton E (family ip) (c_str (addr ip))"
  using assms by (auto elim!: encodableE)

lemma encodable_canonical:
  assumes "encodable E ip" and "inet_ok E"
  shows "encodable E (canonical E ip)"
  using assms canonical_same_address [OF assms] by (simp add: encodable_def)

lemma canonical_idem:
  assumes "encodable E ip" and "inet_ok E"
  shows "canonical E (canonical E ip) = canonical E ip"
  using canonical_same_address [OF assms]
  by (metis canonical_def canonical_sel)

lemma canonical_padded:
  assumes "encodable E ip" and "inet_ok E"
  shows "length (addr (canonical E ip)) = addrstrlen (family ip)" and "NUL \<in> set (addr (canonical E ip))"
  using assms by (auto elim!: encodableE simp: pad_text_def)

text \<open>
  C26. Encoding an IP socket as a \<open>sockaddr_storage\<close> and decoding the result gives a socket
  with the same port and family and with an address text that denotes, as a C string, the same
  binary address. The bytes of the encoding hold the port in network byte order.
\<close>

theorem sockaddr_round_trip:
  assumes "encodable E ip" and "inet_ok E" and "checks_ok E"
  shows "\<exists>st ip'. to_sockaddr_storage E ip = Inr st \<and>
     take 2 (drop 2 st) = [ucast (drop_bit 8 (port ip)), ucast (port ip)] \<and>
     IPSocket_of_sockaddr E st = Inr ip' \<and> port ip' = port ip \<and> family ip' = family ip \<and>
     inet_pton E (family ip) (c_str (addr ip')) = inet_pton E (family ip) (c_str (addr ip))"
proof -
  obtain b r where st: "to_sockaddr_storage E ip = Inr (le16 (family ip) @ le16 (htons (port ip)) @
      (if isIPv6 ip then replicate 4 0 else []) @ b @ r)"
    using assms by (blast elim: to_sockaddr_storage_bytes)
  show ?thesis
    using of_sockaddr_to_sockaddr(2) [OF assms st] canonical_same_address [OF assms(1,2)] st
    by (intro exI [of _ "canonical E ip"] exI conjI) (auto simp: le16_htons)
qed

theorem sockaddr_round_trip_witness:
  "let E = demo_env 16 [] []; ip = IPSocket ''HPAAAAAB'' 7 AF_INET in
   \<exists>st ip'. to_sockaddr_storage E ip = Inr st \<and> IPSocket_of_sockaddr E st = Inr ip' \<and> port ip' = 7 \<and>
     inet_pton E AF_INET (c_str (addr ip')) = (1, [127, 0, 0, 1])"
proof -
  let ?ip = "IPSocket ''HPAAAAAB'' 7 AF_INET"
  have "encodable (demo_env 16 [] []) ?ip"
    by (simp add: encodable_def demo_pton_def c_str_def)
  from sockaddr_round_trip [OF this]
  obtain st ip' where "to_sockaddr_storage (demo_env 16 [] []) ?ip = Inr st"
      "IPSocket_of_sockaddr (demo_env 16 [] []) st = Inr ip'" "port ip' = 7"
      "demo_pton AF_INET (c_str (addr ip')) = demo_pton AF_INET (c_str ''HPAAAAAB'')"
    by auto
  moreover have "demo_pton AF_INET (c_str ''HPAAAAAB'') = (1, [127, 0, 0, 1])"
    by (simp add: demo_pton_def c_str_def)
  ultimately show ?thesis by (simp add: Let_def)
qed


text \<open>
  Decoding never gives back the socket the bytes were made from: \<open>addr\<close> keeps the
  length of the buffer \<open>inet_ntop\<close> wrote into, so it differs, as a \<open>std::string\<close>, from
  every address text without NUL characters.
\<close>

theorem decoded_never_equal:
  assumes "encodable E ip" and "inet_ok E" and "checks_ok E" and "NUL \<notin> set (addr ip)"
    and "to_sockaddr_storage E ip = Inr st"
  shows "\<exists>ip'. IPSocket_of_sockaddr E st = Inr ip' \<and> ip' \<noteq> ip \<and>
    length (addr ip') = addrstrlen (family ip)"
  using of_sockaddr_to_sockaddr(2) [OF assms(1-3,5)] canonical_padded [OF assms(1,2)] assms(4)
  by auto

theorem decoded_never_equal_witness:
  "let E = demo_env 16 [] []; ip = IPSocket ''HPAAAAAB'' 7 AF_INET in
   \<exists>st ip'. to_sockaddr_storage E ip = Inr st \<and> IPSocket_of_sockaddr E st = Inr ip' \<and> ip' \<noteq> ip"
proof -
  let ?ip = "IPSocket ''HPAAAAAB'' 7 AF_INET"
  have e: "encodable (demo_env 16 [] []) ?ip"
    by (simp add: encodable_def demo_pton_def c_str_def)
  obtain st where st: "to_sockaddr_storage (demo_env 16 [] []) ?ip = Inr st"
    by (simp add: to_sockaddr_storage_def sockaddr_in_of_def checked_sum_def demo_check_def
        failedInetpton_def isIPv6_def c_str_def demo_pton_def)
  from decoded_never_equal [OF e _ _ _ st] show ?thesis
    using st by (auto simp: Let_def)
qed

end
