(* ===== verification/FileDescriptor.thy ===== *)
theory FileDescriptor
  imports DemoEnv
begin

text \<open>
  \<open>src/src/FileDescriptor.cpp\<close>: the owner of a file descriptor. Objects are values; an
  operation that changes an object returns it changed. \<open>owns d\<close> is what the destructor of
  \<open>d\<close> would close.
\<close>

definition invalid_fd :: FD where "invalid_fd = -1"

record FileDescriptor =
  raw_fd :: FD
  should_close :: bool

definition FileDescriptor_ctor :: "FD \<Rightarrow> FileDescriptor" where
  "FileDescriptor_ctor fd = \<lparr>raw_fd = fd, should_close = True\<rparr>"

definition fd_close :: "env \<Rightarrow> FileDescriptor \<Rightarrow> ('z world_scheme, FileDescriptor) io" where
  "fd_close E d =
     (if should_close d \<and> \<not> raw_fd d = invalid_fd
      then thenE (sys E (C_close (raw_fd d))) (return (d\<lparr>should_close := False\<rparr>))
      else return d)"

definition fd_dtor :: "env \<Rightarrow> FileDescriptor \<Rightarrow> ('z world_scheme, unit) io" where
  "fd_dtor E d = thenE (fd_close E d) (return ())"

text \<open>The move constructor: the new object and what is left of the one moved from.\<close>

definition fd_move :: "FileDescriptor \<Rightarrow> FileDescriptor \<times> FileDescriptor" where
  "fd_move other = (\<lparr>raw_fd = raw_fd other, should_close = True\<rparr>, other\<lparr>should_close := False\<rparr>)"

text \<open>
  Move assignment: \<open>same\<close> tells whether both sides are one object; the result is both
  objects after it.
\<close>

definition fd_move_assign ::
  "env \<Rightarrow> bool \<Rightarrow> FileDescriptor \<Rightarrow> FileDescriptor \<Rightarrow>
     ('z world_scheme, FileDescriptor \<times> FileDescriptor) io" where
  "fd_move_assign E same this other =
     (if \<not> same
      then bindE (fd_close E this) (\<lambda>this'.
        return (this'\<lparr>raw_fd := raw_fd other\<rparr>, other\<lparr>should_close := False\<rparr>))
      else return (this, other))"

section \<open>Ownership\<close>

definition owns :: "FileDescriptor \<Rightarrow> FD set" where
  "owns d = (if should_close d \<and> raw_fd d \<noteq> invalid_fd then {raw_fd d} else {})"

lemma FileDescriptor_ctor_sel [simp]:
  "raw_fd (FileDescriptor_ctor n) = n" "should_close (FileDescriptor_ctor n)"
  by (simp_all add: FileDescriptor_ctor_def)

lemma owns_ctor [simp]: "0 \<le> n \<Longrightarrow> owns (FileDescriptor_ctor n) = {n}"
  by (simp add: owns_def invalid_fd_def)

lemma owns_released [simp]: "owns (d\<lparr>should_close := False\<rparr>) = {}"
  by (simp add: owns_def)

lemma wp_fd_close:
  assumes "accounts (trace s) L" and "owns d \<subseteq> L"
    and "\<And>h. accounts h (L - owns d) \<Longrightarrow>
      Q (if owns d = {} then d else d\<lparr>should_close := False\<rparr>) (s\<lparr>trace := h\<rparr>)"
  shows "wp (fd_close E d) Q R s"
proof (cases "owns d = {}")
  case True
  then show ?thesis
    using assms(1) assms(3) [of "trace s"] by (auto simp: fd_close_def wp_simps owns_def split: if_splits)
next
  case False
  then show ?thesis
    using assms accounts_close [of "trace s" L "raw_fd d"]
    by (auto simp: fd_close_def wp_simps owns_def split: if_splits)
qed

lemma wp_fd_dtor:
  assumes "accounts (trace s) L" and "owns d \<subseteq> L"
    and "\<And>h. accounts h (L - owns d) \<Longrightarrow> Q () (s\<lparr>trace := h\<rparr>)"
  shows "wp (fd_dtor E d) Q R s"
  unfolding fd_dtor_def by (simp add: wp_simps, rule wp_fd_close) (use assms in auto)

lemma grows_fd [grows_intros]: "grows (fd_close E d)" "grows (fd_dtor E d)"
  by (simp_all add: fd_close_def fd_dtor_def grows_intros)

lemma fd_dtor_released [simp]: "fd_dtor E (d\<lparr>should_close := False\<rparr>) = return ()"
  by (simp add: fd_dtor_def fd_close_def fun_eq_iff io_defs)

lemma fd_move_ctor [simp]:
  "fst (fd_move (FileDescriptor_ctor n)) = FileDescriptor_ctor n"
  "snd (fd_move (FileDescriptor_ctor n)) = (FileDescriptor_ctor n)\<lparr>should_close := False\<rparr>"
  by (simp_all add: fd_move_def FileDescriptor_ctor_def)

text \<open>
  Whatever the kernel does, closing a descriptor object twice, or closing it and then
  destroying it, calls \<open>close\<close> at most once: the second call does nothing.
\<close>

theorem fd_close_idempotent: "bindE (fd_close E d) (fd_close E) = fd_close E d"
  by (auto simp: fun_eq_iff fd_close_def io_defs sys_def Let_def)

text \<open>
  The move constructor hands over exactly what a live owner owns: afterwards the new object
  owns it, the old one owns nothing, and destroying both, in either order, closes it once.
\<close>

theorem fd_move_transfers:
  assumes "owns d = {n}" and "fd_move d = (new, old)" and "accounts (trace s) (insert n L)" and "n \<notin> L"
  shows "owns new = {n} \<and> owns old = {} \<and>
    wp (thenE (fd_dtor E new) (fd_dtor E old)) (\<lambda>_ t. accounts (trace t) L) (\<lambda>_ _. False) s \<and>
    wp (thenE (fd_dtor E old) (fd_dtor E new)) (\<lambda>_ t. accounts (trace t) L) (\<lambda>_ _. False) s"
proof -
  have old: "old = d\<lparr>should_close := False\<rparr>" and own: "owns new = {n}"
    using assms(1,2) by (auto simp: fd_move_def owns_def split: if_splits)
  have "wp (fd_dtor E new) (\<lambda>_ t. accounts (trace t) L) (\<lambda>_ _. False) s"
    by (rule wp_fd_dtor [OF assms(3)]) (use own assms(4) in auto)
  then show ?thesis
    using own old by (simp add: wp_simps)
qed

theorem fd_move_transfers_witness:
  "owns \<lparr>raw_fd = 5, should_close = True\<rparr> = {5} \<and>
   owns (snd (fd_move \<lparr>raw_fd = 5, should_close = True\<rparr>)) = {}"
proof -
  let ?d = "\<lparr>raw_fd = 5, should_close = True\<rparr>"
  let ?h = "[(C_socket AF_INET SOCK_STREAM 0, reply 5)]"
  have o: "owns ?d = {5}" by (simp add: owns_def invalid_fd_def)
  have m: "fd_move ?d = (?d, ?d\<lparr>should_close := False\<rparr>)" by (simp add: fd_move_def)
  have a: "accounts (trace \<lparr>trace = ?h\<rparr>) (insert 5 {})" by (simp add: accounts_def)
  show ?thesis
    using fd_move_transfers [OF o m a, of "demo_env 1 [] []"] o m by simp
qed

text \<open>
  Move assignment into an object that owns a descriptor leaks the one moved in: the old
  descriptor is closed and clears \<open>should_close\<close>, which the assignment does not set again.
  Afterwards the new descriptor is open and neither object will ever close it.
\<close>

theorem fd_move_assign_leaks:
  assumes "owns this = {a}" and "owns other = {b}" and "a \<noteq> b" and "accounts (trace s) {a, b}"
  shows "wp (fd_move_assign E False this other)
     (\<lambda>(this', other') t. raw_fd this' = b \<and> owns this' = {} \<and> owns other' = {} \<and>
        live (trace t) = {b} \<and>
        wp (thenE (fd_dtor E this') (fd_dtor E other')) (\<lambda>_ u. live (trace u) = {b}) (\<lambda>_ _. False) t)
     (\<lambda>_ _. False) s"
  using assms
  by (auto simp: fd_move_assign_def fd_close_def fd_dtor_def owns_def wp_simps accounts_def
      split: if_splits)

theorem fd_move_assign_leaks_witness:
  "wp (fd_move_assign (demo_env 1 [] []) False (FileDescriptor_ctor 4) (FileDescriptor_ctor 5))
     (\<lambda>(this', other') t. owns this' = {} \<and> owns other' = {} \<and> live (trace t) = {5}) (\<lambda>_ _. False)
     \<lparr>trace = [(C_socket AF_INET SOCK_STREAM 0, reply 5), (C_socket AF_INET SOCK_STREAM 0, reply 4)]\<rparr>"
proof -
  let ?s = "\<lparr>trace = [(C_socket AF_INET SOCK_STREAM 0, reply 5), (C_socket AF_INET SOCK_STREAM 0, reply 4)]\<rparr>"
  have "accounts (trace ?s) {4, 5}" by (auto simp: accounts_def)
  then have "wp (fd_move_assign (demo_env 1 [] []) False (FileDescriptor_ctor 4) (FileDescriptor_ctor 5))
     (\<lambda>(this', other') t. raw_fd this' = 5 \<and> owns this' = {} \<and> owns other' = {} \<and> live (trace t) = {5} \<and>
        wp (thenE (fd_dtor (demo_env 1 [] []) this') (fd_dtor (demo_env 1 [] []) other'))
          (\<lambda>_ u. live (trace u) = {5}) (\<lambda>_ _. False) t) (\<lambda>_ _. False) ?s"
    by (intro fd_move_assign_leaks) auto
  then show ?thesis by (rule wp_mono) auto
qed

text \<open>Assignment into an object that owns nothing and may close (a default-constructed one).\<close>

lemma wp_fd_move_assign_empty:
  assumes "raw_fd this = invalid_fd" and "should_close this"
    and "Q (FileDescriptor_ctor n, (FileDescriptor_ctor n)\<lparr>should_close := False\<rparr>) s"
  shows "wp (fd_move_assign E False this (FileDescriptor_ctor n)) Q R s"
  using assms by (cases this) (simp add: FileDescriptor_ctor_def fd_move_assign_def fd_close_def wp_simps)

end
