(* ===== verification/FDSet.thy ===== *)
theory FDSet
  imports FileDescriptor SocketErrorChecks
begin

text \<open>
  \<open>src/src/FDSet.cpp\<close> and \<open>src/src/ToTimeval.hpp\<close>: the set of descriptors a socket waits
  on. Every socket has exactly one, so its members are a layer of the state record of sockets.
\<close>

definition FD_SETSIZE :: int where "FD_SETSIZE = 1024"

record FDSet = world +
  fds :: "FD set"
  fd_max :: int
  selected_fds :: "FD list"

text \<open>
  A duration in microseconds as seconds and the microseconds left; \<open>duration_cast\<close> to
  seconds rounds towards zero.
\<close>

definition whole_seconds :: "int \<Rightarrow> int" where
  "whole_seconds t = (if t < 0 then - (- t div 1000000) else t div 1000000)"

definition toTimeval :: "env \<Rightarrow> int \<Rightarrow> int \<times> int" where
  "toTimeval E time = (count_s E time, count_us E (time - 1000000 * whole_seconds time))"

definition FDSet_reset :: "('z FDSet_scheme, unit) io" where
  "FDSet_reset = modify (\<lambda>s. s\<lparr>fds := {}, fd_max := 1\<rparr>)"

text \<open>\<open>FD_SET\<close> on a value that is no index of the bit array is undefined behaviour.\<close>

definition FDSet_set :: "FD \<Rightarrow> ('z FDSet_scheme, unit) io" where
  "FDSet_set fd =
     (if 0 \<le> fd \<and> fd < FD_SETSIZE
      then modify (\<lambda>s. s\<lparr>fds := insert fd (fds s), fd_max := (if fd_max s \<le> fd then fd + 1 else fd_max s)\<rparr>)
      else throw (Undefined ''FD_SET out of range''))"

definition FDSet_selectImpl :: "env \<Rightarrow> int \<Rightarrow> ('z FDSet_scheme, int) io" where
  "FDSet_selectImpl E timeout =
     bindE (gets fd_max) (\<lambda>n.
     bindE (gets fds) (\<lambda>S.
     bindE (sys E (C_select n S (toTimeval E timeout))) (\<lambda>r.
     thenE (modify (\<lambda>s. s\<lparr>fds := ofds r\<rparr>))
       (checked E ''Select'' (failedSelect (rv r)) (rv r)))))"

definition FDSet_select :: "env \<Rightarrow> int \<Rightarrow> ('z FDSet_scheme, FD list) io" where
  "FDSet_select E timeout =
     thenE (modify (\<lambda>s. s\<lparr>selected_fds := []\<rparr>))
     (bindE (FDSet_selectImpl E timeout) (\<lambda>n.
      thenE (if n \<noteq> 0
             then modify (\<lambda>s. s\<lparr>selected_fds := filter (\<lambda>i. i \<in> fds s) (repeat_ix E (fd_max s))\<rparr>)
             else return ())
        (gets selected_fds)))"

text \<open>The default timeout, 100 ms, in microseconds.\<close>

definition select_timeout :: int where "select_timeout = 100000"

section \<open>Properties\<close>

text \<open>\<open>fd_max\<close> is above every member, and above 0.\<close>

definition fdset_ok :: "'z FDSet_scheme \<Rightarrow> bool" where
  "fdset_ok s \<longleftrightarrow> (\<forall>fd\<in>fds s. 0 \<le> fd \<and> fd < fd_max s) \<and> 1 \<le> fd_max s \<and> fd_max s \<le> FD_SETSIZE"

lemma fdset_ok_reset: "wp FDSet_reset (\<lambda>_ t. fdset_ok t \<and> fds t = {}) R s"
  by (simp add: FDSet_reset_def wp_simps fdset_ok_def FD_SETSIZE_def)

lemma fdset_ok_set:
  "fdset_ok s \<Longrightarrow> wp (FDSet_set fd) (\<lambda>_ t. fdset_ok t \<and> fds t = insert fd (fds s))
     (\<lambda>e _. e = Undefined ''FD_SET out of range'' \<and> \<not> (0 \<le> fd \<and> fd < FD_SETSIZE)) s"
  by (auto simp: FDSet_set_def wp_simps fdset_ok_def)

lemma FDSet_select_run:
  assumes "fdset_ok s" and "select_ok E" and "repeat_ok E" and "checks_ok E"
  shows "wp (FDSet_select E timeout)
     (\<lambda>sel t. sorted_wrt (<) sel \<and> set sel \<subseteq> fds s \<and>
        (\<exists>r. hd (trace t) = (C_select (fd_max s) (fds s) (toTimeval E timeout), r) \<and>
           set sel = (if rv r = 0 then {} else ofds r)))
     (\<lambda>e t. \<exists>w. e = Runtime_error w) s"
proof -
  define r where "r = os E (trace s) (C_select (fd_max s) (fds s) (toTimeval E timeout))"
  have sub: "ofds r \<subseteq> fds s"
    unfolding r_def using assms(2) unfolding select_ok_def by blast
  then have mem: "{i. 0 \<le> i \<and> i < fd_max s \<and> i \<in> ofds r} = ofds r"
    using assms(1) by (auto simp: fdset_ok_def)
  have upto: "sorted_wrt (<) [0..fd_max s - 1]"
    by (simp add: sorted_wrt_iff_nth_less)
  have ix: "repeat_ix E (fd_max s) = [0..fd_max s - 1]"
    using assms(3) by (simp add: repeat_ok_def)
  have set: "set (filter (\<lambda>i. i \<in> ofds r) [0..fd_max s - 1]) = ofds r"
    using mem by auto
  have sorted: "sorted_wrt (<) (filter (\<lambda>i. i \<in> ofds r) [0..fd_max s - 1])"
    using upto by (rule sorted_wrt_filter)
  show ?thesis
    using assms(4) sub set sorted
    by (simp add: FDSet_select_def FDSet_selectImpl_def wp_simps ix r_def [symmetric] checks_ok_eq
        del: set_filter)
qed

lemma wp_FDSet_set_all:
  assumes "fdset_ok s"
  shows "wp (for_each (\<lambda>x. FDSet_set (f x)) xs)
    (\<lambda>_ t. f ` set xs \<subseteq> {0..<FD_SETSIZE} \<and> fdset_ok t \<and>
       (\<exists>m. t = s\<lparr>fds := fds s \<union> f ` set xs, fd_max := m\<rparr>))
    (\<lambda>e _. e = Undefined ''FD_SET out of range'' \<and> \<not> f ` set xs \<subseteq> {0..<FD_SETSIZE}) s"
  using assms
proof (induction xs arbitrary: s)
  case Nil
  then show ?case by (auto simp: wp_simps intro!: exI [of _ "fd_max s"])
next
  case (Cons x xs)
  show ?case
  proof (cases "0 \<le> f x \<and> f x < FD_SETSIZE")
    case True
    let ?t = "s\<lparr>fds := insert (f x) (fds s), fd_max := (if fd_max s \<le> f x then f x + 1 else fd_max s)\<rparr>"
    have t: "fdset_ok ?t"
      using Cons.prems True by (auto simp: fdset_ok_def)
    have "wp (for_each (\<lambda>x. FDSet_set (f x)) (x # xs)) Q R s = wp (for_each (\<lambda>x. FDSet_set (f x)) xs) Q R ?t" for Q R
      using True by (simp add: wp_simps FDSet_set_def)
    then show ?thesis
      by (simp only:) (rule wp_mono [OF Cons.IH [OF t]], use True in auto)
  next
    case False
    then show ?thesis by (auto simp: wp_simps FDSet_set_def)
  qed
qed

text \<open>Waiting on the elements of the set and more: a set to wait on that is no \<open>fd_set\<close> is found when it is built.\<close>

lemma wp_FDSet_wait:
  assumes "fdset_ok s" and "select_ok E" and "repeat_ok E" and "checks_ok E" and "fds s \<union> f ` set xs = L"
  shows "wp (thenE (for_each (\<lambda>x. FDSet_set (f x)) xs) (FDSet_select E timeout))
    (\<lambda>sel t. L \<subseteq> {0..<FD_SETSIZE} \<and> sorted_wrt (<) sel \<and> set sel \<subseteq> L \<and>
       (\<exists>n. fst (hd (trace t)) = C_select n L (toTimeval E timeout)))
    (\<lambda>e t. is_exception e \<or> e = Undefined ''FD_SET out of range'' \<and> \<not> L \<subseteq> {0..<FD_SETSIZE}) s"
  unfolding wp_thenE
proof (rule wp_mono [OF wp_FDSet_set_all [OF assms(1)]], goal_cases)
  case (1 x u)
  then have u: "fdset_ok u" "fds u = L" using assms(5) by auto
  have "L \<subseteq> {0..<FD_SETSIZE}" using u by (auto simp: fdset_ok_def)
  then show ?case
    by (intro wp_mono [OF FDSet_select_run [OF u(1) assms(2-4)]]) (use u(2) in auto)
next
  case (2 e u)
  then show ?case using assms(5) by auto
qed

text \<open>
  C28. What \<open>select\<close> returns: with the set's invariant (every watched descriptor lies below
  \<open>fd_max\<close>, which \<open>reset\<close> establishes and \<open>set\<close> keeps), the returned vector is
  strictly ascending, holds only watched descriptors, and holds every descriptor the kernel
  left in the set. It is empty when the kernel reports none.
\<close>

theorem FDSet_select_correct:
  assumes "fdset_ok s" and "select_ok E" and "repeat_ok E" and "checks_ok E"
  shows "wp (FDSet_select E timeout)
     (\<lambda>sel t. sorted_wrt (<) sel \<and> set sel \<subseteq> fds s \<and>
        (\<exists>r. hd (trace t) = (C_select (fd_max s) (fds s) (toTimeval E timeout), r) \<and>
           set sel = (if rv r = 0 then {} else ofds r)))
     (\<lambda>e t. \<exists>w. e = Runtime_error w) s"
  by (rule FDSet_select_run [OF assms])

theorem FDSet_select_correct_witness:
  "wp (FDSet_select (demo_env 1 [] []) 100000) (\<lambda>sel t. sorted_wrt (<) sel \<and> set sel \<subseteq> {3, 5})
     (\<lambda>e t. \<exists>w. e = Runtime_error w) \<lparr>trace = [], fds = {3, 5}, fd_max = 6, selected_fds = []\<rparr>"
  by (rule wp_mono [OF FDSet_select_correct]) (auto simp: fdset_ok_def FD_SETSIZE_def)


text \<open>
  A duration that is not negative becomes a valid \<open>timeval\<close>: the two parts add up to the
  duration, and the microseconds stay below a million.
\<close>

definition count_ok :: "env \<Rightarrow> bool" where
  "count_ok E \<longleftrightarrow> (\<forall>t. count_s E t = whole_seconds t \<and> count_us E t = t)"

theorem toTimeval_correct:
  assumes "count_ok E" and "0 \<le> t"
  shows "case toTimeval E t of (sec, usec) \<Rightarrow> 1000000 * sec + usec = t \<and> 0 \<le> usec \<and> usec < 1000000 \<and> 0 \<le> sec"
  using assms by (auto simp: toTimeval_def count_ok_def whole_seconds_def minus_mult_div_eq_mod
      pos_imp_zdiv_nonneg_iff)

theorem toTimeval_correct_witness: "toTimeval (demo_env 1 [] []) 2500000 = (2, 500000)"
proof -
  have "count_ok (demo_env 1 [] [])"
    by (simp add: count_ok_def whole_seconds_def)
  from toTimeval_correct [OF this, of 2500000] show ?thesis
    by (simp add: toTimeval_def whole_seconds_def)
qed

end
