(* ===== verification/SocketConfiguration.thy ===== *)
theory SocketConfiguration
  imports FileDescriptor SocketErrorChecks
begin

unbundle bit_operations_syntax

text \<open>
  \<open>src/src/SocketConfiguration.cpp\<close>: the socket options the program sets. Each function
  fills the system's structure for its option and makes the \<open>setsockopt\<close> calls of the code in
  order, checking each. An \<open>int\<close> stored into a narrower unsigned field is reduced modulo
  the field's width.
\<close>

definition SETSOCKOPT ::
  "env \<Rightarrow> FD \<Rightarrow> sockopt_level \<Rightarrow> sockopt_name \<Rightarrow> optval \<Rightarrow> ('z world_scheme, unit) io" where
  "SETSOCKOPT E fd level name v =
     bindE (sys E (C_setsockopt fd level name v)) (\<lambda>r. check E ''Setsockopt'' (failedSetsockopt (rv r)))"

definition yes :: optval where "yes = Opt_int 1"

definition configureNoDelay :: "env \<Rightarrow> FD \<Rightarrow> ('z world_scheme, unit) io" where
  "configureNoDelay E fd = SETSOCKOPT E fd IPPROTO_SCTP SCTP_NODELAY yes"

definition configureReuseAddr :: "env \<Rightarrow> FD \<Rightarrow> ('z world_scheme, unit) io" where
  "configureReuseAddr E fd = SETSOCKOPT E fd SOL_SOCKET SO_REUSEADDR yes"

definition configureReceivingEvents :: "env \<Rightarrow> FD \<Rightarrow> ('z world_scheme, unit) io" where
  "configureReceivingEvents E fd =
     SETSOCKOPT E fd IPPROTO_SCTP SCTP_EVENTS (Opt_events
       \<lparr>sctp_data_io_event = True, sctp_association_event = True, sctp_address_event = True,
        sctp_send_failure_event = True, sctp_peer_error_event = True, sctp_shutdown_event = True,
        sctp_partial_delivery_event = True, sctp_adaptation_layer_event = True,
        sctp_authentication_event = False\<rparr>)"

definition configureInitParams :: "env \<Rightarrow> FD \<Rightarrow> int \<Rightarrow> int \<Rightarrow> ('z world_scheme, unit) io" where
  "configureInitParams E fd init_max_attempts init_max_timeout =
     SETSOCKOPT E fd IPPROTO_SCTP SCTP_INITMSG (Opt_initmsg
       \<lparr>sinit_num_ostreams = 0, sinit_max_instreams = 0,
        sinit_max_attempts = word_of_int init_max_attempts,
        sinit_max_init_timeo = word_of_int init_max_timeout\<rparr>)"

definition configureRto :: "env \<Rightarrow> FD \<Rightarrow> int \<Rightarrow> int \<Rightarrow> int \<Rightarrow> int \<Rightarrow> ('z world_scheme, unit) io" where
  "configureRto E fd initial min_ms max_ms assoc =
     SETSOCKOPT E fd IPPROTO_SCTP SCTP_RTOINFO (Opt_rtoinfo
       \<lparr>srto_assoc_id = assoc, srto_initial = word_of_int initial, srto_max = word_of_int max_ms,
        srto_min = word_of_int min_ms\<rparr>)"

definition configureSack :: "env \<Rightarrow> FD \<Rightarrow> int \<Rightarrow> int \<Rightarrow> int \<Rightarrow> ('z world_scheme, unit) io" where
  "configureSack E fd freq delay assoc =
     SETSOCKOPT E fd IPPROTO_SCTP SCTP_DELAYED_SACK (Opt_sack
       \<lparr>sack_assoc_id = assoc, sack_delay = word_of_int delay, sack_freq = word_of_int freq\<rparr>)"

definition configureMaxRetrans :: "env \<Rightarrow> FD \<Rightarrow> int \<Rightarrow> int \<Rightarrow> ('z world_scheme, unit) io" where
  "configureMaxRetrans E fd max_retrans assoc =
     SETSOCKOPT E fd IPPROTO_SCTP SCTP_ASSOCINFO (Opt_assocparams
       \<lparr>sasoc_assoc_id = assoc, sasoc_asocmaxrxt = word_of_int max_retrans,
        sasoc_number_peer_destinations = 0, sasoc_peer_rwnd = 0, sasoc_local_rwnd = 0,
        sasoc_cookie_life = 0\<rparr>)"

text \<open>The differentiated services code point is the upper 6 bits of the 8-bit field.\<close>

definition configureDscp :: "env \<Rightarrow> FD \<Rightarrow> byte \<Rightarrow> family \<Rightarrow> ('z world_scheme, unit) io" where
  "configureDscp E fd dscp fam =
     (let tos = Opt_int (push_bit 2 (uint dscp))
      in if fam = AF_INET then SETSOCKOPT E fd IPPROTO_IP IP_TOS tos
         else SETSOCKOPT E fd IPPROTO_IPV6 IPV6_TCLASS tos)"

definition configureIPv4AddressMapping :: "env \<Rightarrow> FD \<Rightarrow> ('z world_scheme, unit) io" where
  "configureIPv4AddressMapping E fd = SETSOCKOPT E fd SOL_SCTP SCTP_I_WANT_MAPPED_V4_ADDR yes"

definition configureTTL :: "env \<Rightarrow> FD \<Rightarrow> int \<Rightarrow> ('z world_scheme, unit) io" where
  "configureTTL E fd ttl = SETSOCKOPT E fd IPPROTO_IP IP_TTL (Opt_int ttl)"

text \<open>The flag values of \<open><netinet/sctp.h>\<close>.\<close>

definition SPP_HB_ENABLE :: "32 word" where "SPP_HB_ENABLE = 1"
definition SPP_HB_DISABLE :: "32 word" where "SPP_HB_DISABLE = 2"
definition SPP_PMTUD_ENABLE :: "32 word" where "SPP_PMTUD_ENABLE = 8"
definition SPP_PMTUD_DISABLE :: "32 word" where "SPP_PMTUD_DISABLE = 16"

lemmas SPP_defs = SPP_HB_ENABLE_def SPP_HB_DISABLE_def SPP_PMTUD_ENABLE_def SPP_PMTUD_DISABLE_def

definition peer_addr_params :: "int \<Rightarrow> int \<Rightarrow> int \<Rightarrow> int \<Rightarrow> sctp_paddrparams" where
  "peer_addr_params hb_interval path_max_retrans path_mtu assoc =
     \<lparr>spp_assoc_id = assoc, spp_hbinterval = word_of_int hb_interval,
      spp_pathmaxrxt = word_of_int path_max_retrans, spp_pathmtu = word_of_int path_mtu,
      spp_sackdelay = 0,
      spp_flags = (if path_mtu \<noteq> 0 then SPP_PMTUD_DISABLE else SPP_PMTUD_ENABLE) OR
        (if hb_interval \<noteq> 0 then SPP_HB_ENABLE else SPP_HB_DISABLE)\<rparr>"

definition configurePeerAddressParams ::
  "env \<Rightarrow> FD \<Rightarrow> int \<Rightarrow> int \<Rightarrow> int \<Rightarrow> int \<Rightarrow> ('z world_scheme, unit) io" where
  "configurePeerAddressParams E fd hb_interval path_max_retrans path_mtu assoc =
     SETSOCKOPT E fd IPPROTO_SCTP SCTP_PEER_ADDR_PARAMS
       (Opt_paddrparams (peer_addr_params hb_interval path_max_retrans path_mtu assoc))"

definition configureMaxSeg :: "env \<Rightarrow> FD \<Rightarrow> int \<Rightarrow> int \<Rightarrow> ('z world_scheme, unit) io" where
  "configureMaxSeg E fd max_seg assoc =
     SETSOCKOPT E fd IPPROTO_SCTP SCTP_MAXSEG (Opt_assoc_value
       \<lparr>av_assoc_id = assoc, av_assoc_value = word_of_int max_seg\<rparr>)"

definition O_NONBLOCK :: "32 word" where "O_NONBLOCK = 2048"

definition configureNonBlockingMode :: "env \<Rightarrow> FD \<Rightarrow> ('z world_scheme, unit) io" where
  "configureNonBlockingMode E fd =
     bindE (sys E (C_fcntl_getfl fd)) (\<lambda>r.
     bindE (checked E ''Fcntl'' (failedFcntl (rv r)) (word_of_int (rv r) OR O_NONBLOCK)) (\<lambda>flags.
     bindE (sys E (C_fcntl_setfl fd flags)) (\<lambda>r. check E ''Fcntl'' (failedFcntl (rv r)))))"

definition configureKeepAlive :: "env \<Rightarrow> FD \<Rightarrow> int \<Rightarrow> int \<Rightarrow> int \<Rightarrow> ('z world_scheme, unit) io" where
  "configureKeepAlive E fd time interval probes =
     thenE (SETSOCKOPT E fd SOL_TCP TCP_KEEPIDLE (Opt_int time))
     (thenE (SETSOCKOPT E fd SOL_TCP TCP_KEEPINTVL (Opt_int interval))
     (thenE (SETSOCKOPT E fd SOL_TCP TCP_KEEPCNT (Opt_int probes))
       (SETSOCKOPT E fd SOL_SOCKET SO_KEEPALIVE yes)))"

definition configurePassCred :: "env \<Rightarrow> FD \<Rightarrow> ('z world_scheme, unit) io" where
  "configurePassCred E fd = SETSOCKOPT E fd SOL_SOCKET SO_PASSCRED yes"

text \<open>The two query functions of the header: the reply carries the structure read.\<close>

definition optInfo :: "env \<Rightarrow> FD \<Rightarrow> sockopt_name \<Rightarrow> int \<Rightarrow> ('z world_scheme, ret) io" where
  "optInfo E fd option assoc_id =
     bindE (sys E (C_sctp_opt_info fd assoc_id option)) (\<lambda>r.
     checked E ''Optinfo'' (failedOptinfo (rv r)) r)"

definition getsockopt :: "env \<Rightarrow> FD \<Rightarrow> sockopt_level \<Rightarrow> sockopt_name \<Rightarrow> ('z world_scheme, ret) io" where
  "getsockopt E fd protocol option =
     bindE (sys E (C_getsockopt fd protocol option)) (\<lambda>r.
     checked E ''Getsockopt'' (failedGetsockopt (rv r)) r)"

section \<open>They open and close nothing\<close>

lemma quiet_SETSOCKOPT [quiet_intros]: "quiet (SETSOCKOPT E fd l n v)"
  unfolding SETSOCKOPT_def by (intro quiet_intros) simp_all

lemma quiet_configure [quiet_intros]:
  "quiet (configureNoDelay E fd)" "quiet (configureReuseAddr E fd)"
  "quiet (configureReceivingEvents E fd)" "quiet (configureInitParams E fd a b)"
  "quiet (configureRto E fd a b c d)" "quiet (configureSack E fd a b d)"
  "quiet (configureMaxRetrans E fd a d)" "quiet (configureDscp E fd dscp fam)"
  "quiet (configureIPv4AddressMapping E fd)" "quiet (configureTTL E fd a)"
  "quiet (configurePeerAddressParams E fd a b c d)" "quiet (configureMaxSeg E fd a d)"
  "quiet (configureKeepAlive E fd a b c)" "quiet (configurePassCred E fd)"
  by (simp_all add: configureNoDelay_def configureReuseAddr_def configureReceivingEvents_def
      configureInitParams_def configureRto_def configureSack_def configureMaxRetrans_def
      configureDscp_def configureIPv4AddressMapping_def configureTTL_def
      configurePeerAddressParams_def configureMaxSeg_def configureKeepAlive_def
      configurePassCred_def Let_def quiet_intros)

lemma quiet_configureNonBlockingMode [quiet_intros]: "quiet (configureNonBlockingMode E fd)"
  unfolding configureNonBlockingMode_def by (intro quiet_intros) simp_all

lemma quiet_optInfo [quiet_intros]: "quiet (optInfo E fd n a)"
  unfolding optInfo_def by (intro quiet_intros) simp_all

lemma quiet_getsockopt [quiet_intros]: "quiet (getsockopt E fd l n)"
  unfolding getsockopt_def by (intro quiet_intros) simp_all

section \<open>Properties\<close>

text \<open>
  Of each pair of contradictory flags of the peer address parameters exactly one is set:
  path MTU discovery is on exactly when no path MTU is given, heartbeats are on exactly when an
  interval is given; no other flag is set.
\<close>

theorem peer_addr_flags:
  "let flags = spp_flags (peer_addr_params hb retrans mtu assoc) in
     (flags AND SPP_PMTUD_ENABLE \<noteq> 0 \<longleftrightarrow> mtu = 0) \<and> (flags AND SPP_PMTUD_DISABLE \<noteq> 0 \<longleftrightarrow> mtu \<noteq> 0) \<and>
     (flags AND SPP_HB_ENABLE \<noteq> 0 \<longleftrightarrow> hb \<noteq> 0) \<and> (flags AND SPP_HB_DISABLE \<noteq> 0 \<longleftrightarrow> hb = 0) \<and>
     flags AND NOT (SPP_PMTUD_ENABLE OR SPP_PMTUD_DISABLE OR SPP_HB_ENABLE OR SPP_HB_DISABLE) = 0"
  by (cases "mtu = 0"; cases "hb = 0") (simp_all add: peer_addr_params_def SPP_defs Let_def)

text \<open>
  Setting the non-blocking mode keeps every flag the descriptor had and adds
  \<open>O_NONBLOCK\<close>; when the flags cannot be read, nothing is written.
\<close>

theorem configureNonBlockingMode_keeps_flags:
  assumes "checks_ok E"
  shows "wp (configureNonBlockingMode E fd)
     (\<lambda>_ t. \<exists>r r'. trace t = (C_fcntl_setfl fd (word_of_int (rv r) OR O_NONBLOCK), r') #
        (C_fcntl_getfl fd, r) # trace s \<and> rv r \<noteq> -1)
     (\<lambda>e t. (\<exists>w. e = Runtime_error w) \<and> (\<exists>r. rv r = -1 \<and> (trace t = (C_fcntl_getfl fd, r) # trace s \<or>
        (\<exists>c q. trace t = (c, r) # (C_fcntl_getfl fd, q) # trace s \<and> rv q \<noteq> -1)))) s"
  using assms by (auto simp: configureNonBlockingMode_def wp_simps checks_ok_eq failedFcntl_def)

theorem configureNonBlockingMode_keeps_flags_witness:
  "wp (configureNonBlockingMode (demo_env 1 [] []) 3)
     (\<lambda>_ t. fst (hd (trace t)) \<in> range (C_fcntl_setfl 3)) (\<lambda>e t. \<exists>w. e = Runtime_error w) \<lparr>trace = []\<rparr>"
  by (rule wp_mono [OF configureNonBlockingMode_keeps_flags]) auto


text \<open>
  The DSCP value goes into the upper 6 bits of the type-of-service byte and leaves the two
  ECN bits clear; a value below 64 stays within the byte. IPv4 sockets set it with
  \<open>IP_TOS\<close>, all others with \<open>IPV6_TCLASS\<close>.
\<close>

theorem configureDscp_value:
  assumes "unat dscp < 64"
  shows "wp (configureDscp E fd dscp fam)
     (\<lambda>_ t. \<exists>tos r. trace t = (C_setsockopt fd (if fam = AF_INET then IPPROTO_IP else IPPROTO_IPV6)
          (if fam = AF_INET then IP_TOS else IPV6_TCLASS) (Opt_int tos), r) # trace s \<and>
        tos div 4 = uint dscp \<and> tos mod 4 = 0 \<and> 0 \<le> tos \<and> tos < 256)
     (\<lambda>_ _. True) s"
proof -
  have "uint dscp = int (unat dscp)" by simp
  then have "uint dscp < 64" using assms by linarith
  then show ?thesis
    by (simp add: configureDscp_def SETSOCKOPT_def wp_simps Let_def push_bit_eq_mult split: option.split)
qed

theorem configureDscp_value_witness:
  "wp (configureDscp (demo_env 1 [] []) 3 63 AF_INET)
     (\<lambda>_ t. \<exists>tos r. trace t = [(C_setsockopt 3 IPPROTO_IP IP_TOS (Opt_int tos), r)] \<and> tos div 4 = 63)
     (\<lambda>_ _. True) \<lparr>trace = []\<rparr>"
  by (rule wp_mono [OF configureDscp_value]) auto

end
