(* ===== verification/SocketBase.thy ===== *)
theory SocketBase
  imports IPSocket FDSet SocketConfiguration
begin

text \<open>
  \<open>src/src/Socket.cpp\<close>, the base class of all sockets. Its members are a layer of the
  state record; a derived class adds its own members as a further layer, so a method of the base
  class runs on the state of every derived one. Methods that are virtual in the code are
  parameters of the base methods that call them.
\<close>

record Socket = FDSet +
  sk_fd :: FileDescriptor
  sk_family :: family
  sk_type :: socktype
  main_msg_buffer :: string

definition chooseSocketFamily :: "IPSocket list \<Rightarrow> family" where
  "chooseSocketFamily locals = (if list_ex isIPv6 locals then AF_INET6 else AF_INET)"

section \<open>Construction and destruction\<close>

text \<open>
  The members are initialised in their declaration order (\<open>fd\<close> to the invalid descriptor,
  family, type, an empty \<open>fd_set\<close>, a buffer from the pool), then the body makes the socket
  and moves it into \<open>fd\<close>.
\<close>

definition pool_buffer_size :: nat where "pool_buffer_size = 64 * 1024"

definition Socket_init ::
  "env \<Rightarrow> IPSocket list \<Rightarrow> socktype \<Rightarrow> family \<Rightarrow> ('z Socket_scheme, unit) io" where
  "Socket_init E locals type fam =
     modify (\<lambda>s. s\<lparr>sk_fd := FileDescriptor_ctor invalid_fd,
       sk_family := (if fam = AF_UNSPEC then chooseSocketFamily locals else fam),
       sk_type := type, fds := {}, fd_max := 1, selected_fds := [],
       main_msg_buffer := pool_get E (trace s) pool_buffer_size\<rparr>)"

definition Socket_create :: "env \<Rightarrow> socktype \<Rightarrow> int \<Rightarrow> ('z Socket_scheme, unit) io" where
  "Socket_create E type protocol =
     bindE (gets sk_family) (\<lambda>fam.
     bindE (sys E (C_socket fam type protocol)) (\<lambda>r.
     bindE (checked E ''Socket'' (failedSocket (rv r)) (rv r)) (\<lambda>n.
     bindE (gets sk_fd) (\<lambda>d.
     bindE (fd_move_assign E False d (FileDescriptor_ctor n)) (\<lambda>(d', tmp).
     thenE (modify (\<lambda>s. s\<lparr>sk_fd := d'\<rparr>)) (fd_dtor E tmp))))))"

definition Socket_ctor ::
  "env \<Rightarrow> IPSocket list \<Rightarrow> socktype \<Rightarrow> int \<Rightarrow> family \<Rightarrow> bool \<Rightarrow> ('z Socket_scheme, unit) io" where
  "Socket_ctor E locals type protocol fam defer_creation =
     thenE (Socket_init E locals type fam)
       (if \<not> defer_creation then Socket_create E type protocol else return ())"

text \<open>The destructor destroys the members; of these only \<open>fd\<close> has an effect.\<close>

definition Socket_dtor :: "env \<Rightarrow> ('z Socket_scheme, unit) io" where
  "Socket_dtor E =
     bindE (gets sk_fd) (\<lambda>d.
     bindE (fd_close E d) (\<lambda>d'. modify (\<lambda>s. s\<lparr>sk_fd := d'\<rparr>)))"

section \<open>Operations\<close>

definition shouldListen :: "'z Socket_scheme \<Rightarrow> bool" where
  "shouldListen s \<longleftrightarrow> sk_type s \<noteq> SOCK_DGRAM"

definition Socket_listen :: "env \<Rightarrow> int \<Rightarrow> ('z Socket_scheme, unit) io" where
  "Socket_listen E backlog_count =
     bindE (gets shouldListen) (\<lambda>b.
     if b then bindE (gets (\<lambda>s. raw_fd (sk_fd s))) (\<lambda>fd.
               bindE (sys E (C_listen fd backlog_count)) (\<lambda>r. check E ''Listen'' (failedListen (rv r))))
     else return ())"

text \<open>The defaults of the virtual \<open>connect\<close> and \<open>connectMultihomed\<close> do nothing but log.\<close>

definition Socket_connect :: "IPSocket list \<Rightarrow> ('z Socket_scheme, unit) io" where
  "Socket_connect remotes = return ()"

definition Socket_connectMultihomed :: "IPSocket list \<Rightarrow> ('z Socket_scheme, unit) io" where
  "Socket_connectMultihomed remotes = return ()"

text \<open>
  \<open>receive\<close>: one asynchronous task per ready descriptor, then a join. The tasks take effect
  one after the other, in the order of the parameter \<open>task_order\<close>; an exception that leaves
  a task is kept for \<open>join_tasks\<close>; a task that never returns, or runs into undefined
  behaviour, ends the whole.
\<close>

fun run_tasks :: "('x \<Rightarrow> ('s, unit) io) \<Rightarrow> 'x list \<Rightarrow> ('s, error option list) io" where
  "run_tasks h [] = return []"
| "run_tasks h (fd # ready) = (\<lambda>s. case h fd s of
     (Inr _, s') \<Rightarrow> bindE (run_tasks h ready) (\<lambda>es. return (None # es)) s'
   | (Inl e, s') \<Rightarrow>
       (if is_exception e then bindE (run_tasks h ready) (\<lambda>es. return (Some e # es)) s' else (Inl e, s')))"

definition Socket_receive ::
  "env \<Rightarrow> ('z Socket_scheme, FD list) io \<Rightarrow> (FD \<Rightarrow> ('z Socket_scheme, unit) io) \<Rightarrow>
     ('z Socket_scheme, unit) io" where
  "Socket_receive E selectFds handleMessage =
     bindE selectFds (\<lambda>ready.
     bindE (gets (\<lambda>s. task_order E (trace s) ready)) (\<lambda>order.
     bindE (run_tasks handleMessage order) (\<lambda>es.
       case join_tasks E es of None \<Rightarrow> return () | Some e \<Rightarrow> throw e)))"

definition Socket_configure :: "env \<Rightarrow> FD \<Rightarrow> ('z Socket_scheme, unit) io" where
  "Socket_configure E fd =
     thenE (configureReuseAddr E fd)
     (thenE (configureNonBlockingMode E fd)
     (bindE (gets sk_family) (\<lambda>family.
       if family \<noteq> AF_UNIX
       then thenE (configureDscp E fd 63 family) (configureTTL E fd 255)
       else return ())))"

text \<open>
  The address a call stores: the 128 bytes of a zeroed \<open>sockaddr_storage\<close>, of which the
  kernel overwrote the first.
\<close>

definition storage :: "ret \<Rightarrow> bytes" where
  "storage r = take 128 (oaddr r @ replicate (128 - length (oaddr r)) 0)"

definition getAddresses :: "env \<Rightarrow> call \<Rightarrow> ('z world_scheme, IPSocket list) io" where
  "getAddresses E func =
     bindE (sys E func) (\<lambda>r.
     thenE (check E ''Getsockname'' (failedGetsockname (rv r)))
       (bindE (lift_sum (IPSocket_of_sockaddr E (storage r))) (\<lambda>ip. return [ip])))"

definition Socket_getBoundAddresses :: "env \<Rightarrow> FD \<Rightarrow> ('z world_scheme, IPSocket list) io" where
  "Socket_getBoundAddresses E fd = getAddresses E (C_getsockname fd)"

definition Socket_getPeerAddresses :: "env \<Rightarrow> FD \<Rightarrow> ('z world_scheme, IPSocket list) io" where
  "Socket_getPeerAddresses E fd = getAddresses E (C_getpeername fd)"

text \<open>\<open>front()\<close> of an empty vector is undefined behaviour.\<close>

definition Socket_bind ::
  "env \<Rightarrow> (FD \<Rightarrow> ('z Socket_scheme, IPSocket list) io) \<Rightarrow> FD \<Rightarrow> IPSocket list \<Rightarrow>
     ('z Socket_scheme, unit) io" where
  "Socket_bind E getBoundAddresses fd locals =
     (case locals of
        [] \<Rightarrow> throw (Undefined ''front of an empty vector'')
      | local # _ \<Rightarrow>
          bindE (lift_sum (to_sockaddr_storage E local)) (\<lambda>saddr.
          bindE (sys E (C_bind fd (take (sizeofSockaddr local) saddr))) (\<lambda>r.
          thenE (check E ''Bind'' (failedBind (rv r)))
            (thenE (getBoundAddresses fd) (return ())))))"

definition Socket_selectFds :: "env \<Rightarrow> ('z Socket_scheme, FD list) io" where
  "Socket_selectFds E =
     thenE FDSet_reset
     (bindE (gets (\<lambda>s. raw_fd (sk_fd s))) (\<lambda>fd.
      thenE (FDSet_set fd) (FDSet_select E select_timeout)))"

definition Socket_getBuffer :: "FD \<Rightarrow> ('z Socket_scheme, string) io" where
  "Socket_getBuffer fd = gets main_msg_buffer"

definition Socket_connect_fd :: "env \<Rightarrow> FD \<Rightarrow> IPSocket \<Rightarrow> ('z world_scheme, unit) io" where
  "Socket_connect_fd E fd remote =
     bindE (lift_sum (to_sockaddr_storage E remote)) (\<lambda>saddr.
     bindE (sys E (C_connect fd (take (sizeofSockaddr remote) saddr))) (\<lambda>r.
       check E ''Connect'' (failedConnect (rv r) (err r))))"

text \<open>
  The accepted descriptor is owned before the peer's address is decoded: if that throws, the
  descriptor is closed. The result is moved out, what is left of it is destroyed.
\<close>

definition Socket_accept :: "env \<Rightarrow> ('z Socket_scheme, FileDescriptor \<times> IPSocket) io" where
  "Socket_accept E =
     bindE (gets (\<lambda>s. raw_fd (sk_fd s))) (\<lambda>fd.
     bindE (sys E (C_accept4 fd)) (\<lambda>r.
     bindE (checked E ''Accept'' (failedAccept (rv r)) (rv r)) (\<lambda>n.
     let accept_result = FileDescriptor_ctor n in
     bindE (on_unwind (lift_sum (IPSocket_of_sockaddr E (storage r))) (fd_dtor E accept_result)) (\<lambda>remote.
     let (result, moved) = fd_move accept_result in
     thenE (fd_dtor E moved) (return (result, remote))))))"

definition reestablish_delay :: int where "reestablish_delay = 5000"

definition scheduleReestablishment :: "env \<Rightarrow> IPSocket \<Rightarrow> ('z world_scheme, unit) io" where
  "scheduleReestablishment E remote =
     thenE (sys E (C_schedule (T_connect remote) reestablish_delay None)) (return ())"

text \<open>
  \<open>msg_buffer[checkedReceive(recv(...))] = 0\<close>: the received characters replace the
  beginning of the buffer, then NUL is stored behind them; an index that is the buffer's size is
  out of range.
\<close>

definition store_received :: "string \<Rightarrow> ret \<Rightarrow> error + string" where
  "store_received buf r =
     (let b = odata r @ drop (length (odata r)) buf in
      if nat (rv r) < length buf then Inr (b[nat (rv r) := NUL])
      else Inl (Undefined ''msg_buffer index out of range''))"

section \<open>Lemmas\<close>

lemma quiet_getAddresses [quiet_intros]: "neutral_call c \<Longrightarrow> quiet (getAddresses E c)"
  unfolding getAddresses_def by (intro quiet_intros) simp_all

lemma quiet_Socket_getAddresses [quiet_intros]:
  "quiet (Socket_getBoundAddresses E fd)" "quiet (Socket_getPeerAddresses E fd)"
  by (simp_all add: Socket_getBoundAddresses_def Socket_getPeerAddresses_def quiet_intros)

lemma quiet_Socket_listen [quiet_intros]: "quiet (Socket_listen E n)"
  unfolding Socket_listen_def by (intro quiet_intros) simp_all

lemma quiet_Socket_configure [quiet_intros]: "quiet (Socket_configure E fd)"
  unfolding Socket_configure_def by (intro quiet_intros)

lemma quiet_Socket_bind [quiet_intros]:
  "(\<And>fd. quiet (getBound fd)) \<Longrightarrow> quiet (Socket_bind E getBound fd locals)"
  unfolding Socket_bind_def by (intro quiet_intros) simp_all

lemma quiet_Socket_connect_fd [quiet_intros]: "quiet (Socket_connect_fd E fd remote)"
  unfolding Socket_connect_fd_def by (intro quiet_intros) simp_all

lemma quiet_scheduleReestablishment [quiet_intros]: "quiet (scheduleReestablishment E remote)"
  unfolding scheduleReestablishment_def by (intro quiet_intros) simp_all

lemma keeps_run_tasks:
  assumes "\<And>fd. keeps I (h fd)"
  shows "keeps I (run_tasks h xs)"
proof (induction xs)
  case Nil
  then show ?case by (simp add: keeps_intros)
next
  case (Cons fd xs)
  have rest: "keeps I (bindE (run_tasks h xs) (\<lambda>es. return (x # es)))" for x
    using Cons by (intro keeps_intros)
  show ?case
  proof (rule keepsI)
    fix s
    assume s: "I s"
    obtain r t where r: "h fd s = (r, t)" by force
    show "wp (run_tasks h (fd # xs)) (\<lambda>_. I) (safely I) s"
    proof (cases r)
      case (Inl e)
      then have "is_exception e \<Longrightarrow> I t" using keeps_raises [OF assms s] r by blast
      then show ?thesis
        using Inl r keepsD [OF rest, of t] by (auto simp: wp_def safely_def)
    next
      case (Inr x)
      then have "I t" using keeps_returns [OF assms s] r by blast
      then show ?thesis
        using Inr r keepsD [OF rest, of t] by (simp add: wp_def)
    qed
  qed
qed

lemma keeps_Socket_receive:
  assumes "keeps I selectFds" and "\<And>fd. keeps I (h fd)"
  shows "keeps I (Socket_receive E selectFds h)"
  unfolding Socket_receive_def
  by (intro keeps_intros assms keeps_run_tasks) (auto intro: keeps_intros split: option.split)

text \<open>The received text depends on the received characters only, not on the buffer's old content.\<close>

lemma store_received_ok:
  assumes "rv r = int (length (odata r))" and "length (odata r) < length buf"
  shows "\<exists>b. store_received buf r = Inr b \<and> length b = length buf \<and> c_str b = c_str (odata r)"
proof -
  have "drop (length (odata r)) buf \<noteq> []" using assms(2) by simp
  then obtain x xs where x: "drop (length (odata r)) buf = x # xs" by (cases "drop (length (odata r)) buf") auto
  have "length (x # xs) = length buf - length (odata r)" using x by (metis length_drop)
  then show ?thesis
    using assms x by (simp add: store_received_def)
qed



section \<open>Construction\<close>

text \<open>
  The base constructor on a fresh object: on success \<open>fd\<close> owns the one new descriptor; on
  failure nothing is open.
\<close>

lemma wp_Socket_create:
  assumes "fresh_fds E" and "checks_ok E" and "accounts (trace s) L"
    and "raw_fd (sk_fd s) = invalid_fd" and "should_close (sk_fd s)"
    and "\<And>h n. 0 \<le> n \<Longrightarrow> n \<notin> L \<Longrightarrow> accounts h (insert n L) \<Longrightarrow>
      Q () (s\<lparr>trace := h, sk_fd := FileDescriptor_ctor n\<rparr>)"
    and "\<And>h w. accounts h L \<Longrightarrow> R (Runtime_error w) (s\<lparr>trace := h\<rparr>)"
  shows "wp (Socket_create E type protocol) Q R s"
proof -
  let ?c = "C_socket (sk_family s) type protocol"
  let ?r = "os E (trace s) ?c"
  let ?h = "(?c, ?r) # trace s"
  have fresh: "0 \<le> rv ?r \<Longrightarrow> rv ?r \<notin> L"
    using assms(1,3) by (auto simp: fresh_fds_def accounts_def dest!: spec [of _ "trace s"] spec [of _ ?c])
  have ok: "0 \<le> rv ?r \<Longrightarrow> accounts ?h (insert (rv ?r) L)"
    using assms(3) by (intro accounts_open) auto
  have bad: "rv ?r < 0 \<Longrightarrow> accounts ?h L"
    using assms(3) by (simp add: accounts_def)
  show ?thesis
    unfolding Socket_create_def
    apply (simp add: wp_simps checks_ok_eq [OF assms(2)])
    apply (intro conjI impI)
     apply (rule assms(7)) using bad apply simp
    apply (rule wp_fd_move_assign_empty)
      apply (simp add: assms)
     apply (simp add: assms)
    using ok fresh assms(6) by (simp add: wp_simps not_less)
qed

lemma grows_Socket_dtor [grows_intros]: "grows (Socket_dtor E)"
  unfolding Socket_dtor_def by (intro grows_intros grows_modify) simp

lemma wp_Socket_dtor:
  assumes "accounts (trace s) L" and "owns (sk_fd s) \<subseteq> L"
    and "\<And>h d. accounts h (L - owns (sk_fd s)) \<Longrightarrow> owns d = {} \<Longrightarrow> Q () (s\<lparr>trace := h, sk_fd := d\<rparr>)"
  shows "wp (Socket_dtor E) Q R s"
  unfolding Socket_dtor_def wp_simps
  by (rule wp_fd_close [OF assms(1,2)]) (use assms(3) in \<open>auto simp: wp_simps split: if_splits\<close>)

lemma wp_Socket_accept:
  assumes "fresh_fds E" and "checks_ok E" and "accounts (trace s) L"
    and "\<And>h n remote. 0 \<le> n \<Longrightarrow> n \<notin> L \<Longrightarrow> accounts h (insert n L) \<Longrightarrow>
      Q (FileDescriptor_ctor n, remote) (s\<lparr>trace := h\<rparr>)"
    and "\<And>h e. accounts h L \<or> \<not> is_exception e \<Longrightarrow> R e (s\<lparr>trace := h\<rparr>)"
  shows "wp (Socket_accept E) Q R s"
proof -
  let ?c = "C_accept4 (raw_fd (sk_fd s))"
  let ?r = "os E (trace s) ?c"
  let ?h = "(?c, ?r) # trace s"
  have fresh: "0 \<le> rv ?r \<Longrightarrow> rv ?r \<notin> L"
    using assms(1,3) by (auto simp: fresh_fds_def accounts_def dest!: spec [of _ "trace s"] spec [of _ ?c])
  have ok: "0 \<le> rv ?r \<Longrightarrow> accounts ?h (insert (rv ?r) L)"
    using assms(3) by (intro accounts_open) auto
  have bad: "rv ?r < 0 \<Longrightarrow> accounts ?h L"
    using assms(3) by (simp add: accounts_def)
  have undo: "wp (fd_dtor E (FileDescriptor_ctor (rv ?r))) (\<lambda>_. R e) (\<lambda>_. R Terminate) (s\<lparr>trace := ?h\<rparr>)"
    if "0 \<le> rv ?r" for e
    by (rule wp_fd_dtor [of _ "insert (rv ?r) L"])
      (use that ok fresh assms(5) in \<open>auto simp: insert_Diff_if\<close>)
  show ?thesis
    unfolding Socket_accept_def
    using assms(4) [of "rv ?r" ?h] assms(5) [of ?h] undo ok fresh bad
    by (auto simp: wp_simps checks_ok_eq [OF assms(2)] Let_def split_beta split: sum.split)
qed

end
