(* ===== verification/DemoRuns.thy ===== *)
theory DemoRuns
  imports SocketBase
begin

text \<open>
  Facts that evaluate the base operations in the concrete environment of \<open>DemoEnv\<close>, shared
  by the examples that apply theorems: one address, its encoding, its decoding, and the
  collection \<open>demo_eval\<close> of definitions that reduce a configuration of a fresh descriptor to the
  replies of that environment.
\<close>

definition demo_from :: bytes where
  "demo_from = [2, 0, 0, 7, 127, 0, 0, 1, 0, 0, 0, 0, 0, 0, 0, 0]"

definition demo_addr :: IPSocket where
  "demo_addr = IPSocket ''HPAAAAAB'' 7 AF_INET"

lemma demo_addr_sel [simp]:
  "addr demo_addr = ''HPAAAAAB''" "port demo_addr = 7" "family demo_addr = AF_INET"
  by (simp_all add: demo_addr_def)

lemma isIPv6_demo_addr [simp]: "\<not> isIPv6 demo_addr"
  by (simp add: isIPv6_def)

lemma demo_parse_addr [simp]: "demo_pton AF_INET ''HPAAAAAB'' = (1, [127, 0, 0, 1])"
  by (simp add: demo_pton_def)

lemma demo_encode [simp]: "to_sockaddr_storage (demo_env bsize msg from) demo_addr = Inr demo_from"
  by (simp add: to_sockaddr_storage_def sockaddr_in_of_def checked_sum_def demo_check_def
      failedInetpton_def demo_from_def le16_def htons_def family_defs c_str_def, code_simp)

lemma demo_encode_port [simp]:
  "to_sockaddr_storage (demo_env bsize msg from) (IPSocket ''HPAAAAAB'' p AF_INET) =
     Inr (le16 AF_INET @ le16 (htons p) @ [127, 0, 0, 1] @ replicate 8 0)"
  by (simp add: to_sockaddr_storage_def sockaddr_in_of_def checked_sum_def demo_check_def
      failedInetpton_def isIPv6_def c_str_def)

lemma demo_ctor [simp]:
  "IPSocket_ctor (demo_env bsize msg from) ''HPAAAAAB'' p = IPSocket ''HPAAAAAB'' p AF_INET"
  by (simp add: IPSocket_ctor_def detectFamily_def isFamily_def c_str_def demo_pton_def failedInetpton_def)

lemma demo_decode [simp]:
  "IPSocket_of_sockaddr (demo_env bsize msg from) (storage ((reply v)\<lparr>oaddr := demo_from\<rparr>)) =
     Inr (IPSocket (pad_text 16 ''HPAAAAAB'') 7 AF_INET)"
proof -
  have f: "of_le16 (2 # 0 # r) = AF_INET" for r by (simp add: of_le16_def AF_INET_def)
  have p: "ntohs (of_le16 (0 # 7 # r)) = 7" for r by (simp add: of_le16_def ntohs_def)
  have t: "demo_text [127, 0, 0, 1] = ''HPAAAAAB''" by code_simp
  show ?thesis
    by (simp add: IPSocket_of_sockaddr_def storage_def demo_from_def f p t Let_def demo_ntop_def
        checked_sum_def demo_check_def failedInetntop_def addrstrlen_def INET_ADDRSTRLEN_def del: demo_text.simps)
qed

text \<open>\<open>demo_sender\<close> is what the address of the concrete environment's datagrams is decoded to.\<close>

definition demo_sender :: IPSocket where
  "demo_sender = IPSocket (pad_text 16 ''HPAAAAAB'') 7 AF_INET"

lemma storage_demo_from [simp]:
  "storage ((reply v)\<lparr>odata := msg, oaddr := demo_from\<rparr>) = storage ((reply v)\<lparr>oaddr := demo_from\<rparr>)"
  by (simp add: storage_def)

text \<open>The conversions of addresses do not depend on the kernel, nor on uninitialised members.\<close>

lemma addresses_other [simp]:
  "to_sockaddr_storage (E\<lparr>os := f\<rparr>) ip = to_sockaddr_storage E ip"
  "to_sockaddr_storage (E\<lparr>indeterminate := i\<rparr>) ip = to_sockaddr_storage E ip"
  "IPSocket_of_sockaddr (E\<lparr>os := f\<rparr>) b = IPSocket_of_sockaddr E b"
  "IPSocket_of_sockaddr (E\<lparr>indeterminate := i\<rparr>) b = IPSocket_of_sockaddr E b"
  by (simp_all add: to_sockaddr_storage_def sockaddr_in_of_def sockaddr_in6_of_def checked_sum_def
      IPSocket_of_sockaddr_def Let_def split: sum.split prod.split option.split)

lemmas demo_eval = wp_simps demo_check_def Socket_configure_def configureReuseAddr_def
  configureNonBlockingMode_def configureDscp_def configureTTL_def configureKeepAlive_def
  SETSOCKOPT_def yes_def failed_defs

end
