(* ===== verification/SocketClass.thy ===== *)
theory SocketClass
  imports DemoRuns
begin

text \<open>
  What the classes of sockets share beyond the base class: the mutex \<open>peers_mtx\<close> of those
  that guard their peers by one, and the contract \<open>socket_class\<close> every class of sockets
  fulfils towards the network task that owns a socket: its constructor, its operations and its
  destructor keep account of the descriptors. Also the constants and the report of received messages.
\<close>

definition quit_msg :: string where "quit_msg = ''q''"

definition default_protocol :: int where "default_protocol = 0"

text \<open>The line by which a socket reports what it received.\<close>

definition log_received :: "env \<Rightarrow> string \<Rightarrow> ('z world_scheme, unit) io" where
  "log_received E msg = thenE (sys E (C_log_received msg)) (return ())"

lemma quiet_log_received [quiet_intros]: "quiet (log_received E msg)"
  unfolding log_received_def by (intro quiet_intros) simp_all

lemma recv_okD:
  assumes "recv_ok E" and "c \<in> {C_recv fd n, C_recvfrom fd n, C_sctp_recvmsg fd n}" and "0 \<le> rv (os E h c)"
  shows "rv (os E h c) = int (length (odata (os E h c)))" and "length (odata (os E h c)) \<le> n"
  using assms unfolding recv_ok_def by blast+

text \<open>
  What a message means for the set of peers of a datagram socket: \<open>q\<close> takes its sender away, any
  other message adds its sender.
\<close>

definition known_after :: "'k \<Rightarrow> string \<Rightarrow> 'k set \<Rightarrow> 'k set" where
  "known_after remote msg K = (if msg = ''q'' then K - {remote} else insert remote K)"

text \<open>A stored message reads as the received characters up to the first NUL.\<close>

lemma received_text:
  assumes "recv_ok E" and "r = os E h (C_recvfrom fd n)" and "0 \<le> rv r"
    and "store_received buf r = Inr b"
  shows "c_str b = c_str (odata r)"
proof -
  have r: "rv r = int (length (odata r))"
    using recv_okD(1) [OF assms(1), of "C_recvfrom fd n" fd n h] assms(2,3) by simp
  then have "length (odata r) < length buf"
    using assms(4) by (auto simp: store_received_def Let_def split: if_splits)
  from store_received_ok [OF r this] assms(4) show ?thesis by auto
qed

section \<open>The mutex of the peers\<close>

text \<open>
  \<open>peers_mtx\<close> counts how often the current thread holds the mutex. \<open>with_lock E m\<close> is a
  scope that starts with \<open>LOCK_MTX(peers_mtx)\<close>: the mutex is released when the scope is left.
\<close>

record GuardedSocket = Socket +
  peers_mtx :: nat

definition lock_peers :: "env \<Rightarrow> ('z GuardedSocket_scheme, unit) io" where
  "lock_peers E =
     bindE (gets peers_mtx) (\<lambda>n.
       case LOCK_MTX E n of None \<Rightarrow> throw Deadlock | Some k \<Rightarrow> modify (\<lambda>s. s\<lparr>peers_mtx := k\<rparr>))"

definition unlock_peers :: "('z GuardedSocket_scheme, unit) io" where
  "unlock_peers = modify (\<lambda>s. s\<lparr>peers_mtx := peers_mtx s - 1\<rparr>)"

definition with_lock :: "env \<Rightarrow> ('z GuardedSocket_scheme, 'a) io \<Rightarrow> ('z GuardedSocket_scheme, 'a) io" where
  "with_lock E m = thenE (lock_peers E) (scoped m unlock_peers)"

lemma keeps_with_lock:
  assumes "\<And>s n. I s \<Longrightarrow> I (s\<lparr>peers_mtx := n\<rparr>)" and "keeps I m"
  shows "keeps I (with_lock E m)"
proof -
  have "keeps I (lock_peers E)"
    unfolding lock_peers_def
    by (rule keeps_bindE [OF keeps_gets])
      (auto intro: keeps_intros keeps_modify assms(1) split: option.split)
  moreover have "keeps I unlock_peers"
    unfolding unlock_peers_def by (rule keeps_modify) (rule assms(1))
  ultimately show ?thesis
    unfolding with_lock_def by (intro keeps_intros assms(2))
qed

text \<open>With a free \<open>std::mutex\<close> the scope runs; with one the thread holds, it never returns.\<close>

lemma wp_with_lock_free:
  assumes "std_mutex E" and "peers_mtx s = 0"
  shows "wp (with_lock E m) Q R s =
    wp m (\<lambda>x t. Q x (t\<lparr>peers_mtx := peers_mtx t - 1\<rparr>))
      (\<lambda>e t. R e (if is_exception e then t\<lparr>peers_mtx := peers_mtx t - 1\<rparr> else t))
      (s\<lparr>peers_mtx := 1\<rparr>)"
  using assms
  by (simp add: with_lock_def lock_peers_def unlock_peers_def std_mutex_def wp_simps)
    (auto simp: wp_def modify_def split: prod.splits sum.splits)

lemma peers_mtx_same [simp]: "peers_mtx s = n \<Longrightarrow> s\<lparr>peers_mtx := n\<rparr> = s"
  by (cases s) simp

lemma with_lock_free_run:
  assumes "std_mutex E" and "peers_mtx s = 0" and "m (s\<lparr>peers_mtx := 1\<rparr>) = (Inl e, t)"
    and "\<not> is_exception e"
  shows "with_lock E m s = (Inl e, t)"
  using assms
  by (simp add: with_lock_def lock_peers_def unlock_peers_def std_mutex_def io_defs)

lemma with_lock_held:
  assumes "std_mutex E" and "0 < peers_mtx s"
  shows "with_lock E m s = (Inl Deadlock, s)"
  using assms by (cases "peers_mtx s") (simp_all add: with_lock_def lock_peers_def std_mutex_def io_defs)

lemma wp_with_lock_held:
  "std_mutex E \<Longrightarrow> 0 < peers_mtx s \<Longrightarrow> wp (with_lock E m) Q R s = R Deadlock s"
  by (simp add: wp_def with_lock_held)

section \<open>The contract of a class of sockets\<close>

text \<open>
  \<open>good\<close> is what the class relies on; a constructor run on an object that owns nothing
  establishes the invariant or, when it throws, leaves nothing open; every operation keeps the
  invariant however it ends; the destructor closes all that is open.
\<close>

locale socket_class =
  fixes good :: "env \<Rightarrow> bool"
    and ctor :: "env \<Rightarrow> 'a \<Rightarrow> ('s, unit) io"
    and ops :: "env \<Rightarrow> ('s, unit) io set"
    and dtor :: "env \<Rightarrow> ('s, unit) io"
    and hist :: "'s \<Rightarrow> history"
    and inv :: "'s \<Rightarrow> bool"
  assumes ctor_inv: "good E \<Longrightarrow> accounts (hist s) {} \<Longrightarrow>
      wp (ctor E a) (\<lambda>_. inv) (\<lambda>e t. is_exception e \<longrightarrow> accounts (hist t) {}) s"
    and ops_inv: "good E \<Longrightarrow> m \<in> ops E \<Longrightarrow> keeps inv m"
    and dtor_closes: "good E \<Longrightarrow> inv s \<Longrightarrow>
      wp (dtor E) (\<lambda>_ t. accounts (hist t) {}) (\<lambda>e _. \<not> is_exception e) s"
begin

lemma reachable_inv:
  assumes "good E" and "accounts (hist s0) {}"
    and "reachable (\<lambda>s. ctor E a s0 = (Inr (), s)) (ops E) s"
  shows "inv s"
proof (rule reachable_invariant [OF assms(3)])
  fix t
  assume "ctor E a s0 = (Inr (), t)"
  then show "inv t"
    using wp_returnsD [OF ctor_inv [OF assms(1,2)]] by blast
next
  fix m
  assume "m \<in> ops E"
  then show "keeps inv m" by (rule ops_inv [OF assms(1)])
qed

lemma life_cycle:
  assumes "good E" and "accounts (hist s0) {}"
    and "reachable (\<lambda>s. ctor E a s0 = (Inr (), s)) (ops E) s"
  shows "wp (dtor E) (\<lambda>_ t. live (hist t) = {} \<and> sound_closes (hist t)) (\<lambda>e _. \<not> is_exception e) s"
  using dtor_closes [OF assms(1) reachable_inv [OF assms]]
  by (simp add: accounts_def)

end

text \<open>The contracts every class relies on: fresh descriptors, and checks that throw.\<close>

definition descriptors_ok :: "env \<Rightarrow> bool" where
  "descriptors_ok E \<longleftrightarrow> fresh_fds E \<and> checks_ok E"

lemma demo_descriptors_ok [simp]: "descriptors_ok (demo_env bsize msg from)"
  by (simp add: descriptors_ok_def)

text \<open>
  The constructors: the base class makes the descriptor, then the derived class's part \<open>m\<close>
  runs; when that throws, the base class is destroyed and nothing stays open.
\<close>

lemma wp_construct:
  assumes "descriptors_ok E" and "accounts (trace s) {}"
    and m: "\<And>t n. 0 \<le> n \<Longrightarrow> sk_fd t = FileDescriptor_ctor n \<Longrightarrow> accounts (trace t) {n} \<Longrightarrow>
      wp m Q (\<lambda>e u. is_exception e \<longrightarrow> sk_fd u = FileDescriptor_ctor n \<and> accounts (trace u) {n}) t"
    and R: "\<And>e t. is_exception e \<longrightarrow> accounts (trace t) {} \<Longrightarrow> R e t"
  shows "wp (thenE (Socket_ctor E locals type protocol fam False) (on_unwind m (Socket_dtor E))) Q R s"
proof -
  have undo: "(if is_exception e then wp (Socket_dtor E) (\<lambda>_. R e) (\<lambda>_. R Terminate) else R e) u"
    if "is_exception e \<longrightarrow> sk_fd u = FileDescriptor_ctor n \<and> accounts (trace u) {n}" "0 \<le> n" for e u n
  proof (cases "is_exception e")
    case True
    have "wp (Socket_dtor E) (\<lambda>_. R e) (\<lambda>_. R Terminate) u"
      by (rule wp_Socket_dtor [of _ "{n}"]) (use that True R in auto)
    then show ?thesis using True by simp
  qed (use R in simp)
  have body: "wp (on_unwind m (Socket_dtor E)) Q R t"
    if "0 \<le> n" "sk_fd t = FileDescriptor_ctor n" "accounts (trace t) {n}" for t n
    unfolding wp_on_unwind by (rule wp_mono [OF m [OF that]], assumption, rule undo [OF _ that(1)])
  show ?thesis
    unfolding Socket_ctor_def Socket_init_def
    apply (simp only: wp_thenE wp_modify if_True not_False_eq_True)
    apply (rule wp_Socket_create [of _ _ "{}"])
    using assms(1,2) body R by (auto simp: descriptors_ok_def FileDescriptor_ctor_def invalid_fd_def)
qed

text \<open>
  Sockets whose only descriptor is their own: the destructor says goodbye, in a function that must not
  throw, and closes it.
\<close>

abbreviation sole_fd :: "'z Socket_scheme \<Rightarrow> bool" where
  "sole_fd s \<equiv> \<exists>n. 0 \<le> n \<and> sk_fd s = FileDescriptor_ctor n \<and> accounts (trace s) {n}"

lemma wp_goodbye:
  assumes "sole_fd s" and "quiet m"
  shows "wp (thenE (no_throw m) (Socket_dtor E)) (\<lambda>_ t. accounts (trace t) {}) (\<lambda>e _. \<not> is_exception e) s"
  unfolding wp_thenE wp_no_throw
proof (rule quiet_wp [OF assms(2)])
  fix t
  assume "neutral t"
  with assms(1) obtain n where "0 \<le> n" "sk_fd s = FileDescriptor_ctor n" "accounts (t @ trace s) {n}"
    by auto
  then show "wp (Socket_dtor E) (\<lambda>_ t. accounts (trace t) {}) (\<lambda>e _. \<not> is_exception e) (s\<lparr>trace := t @ trace s\<rparr>)"
    by (intro wp_Socket_dtor [of _ "{n}"]) auto
qed simp

end
