(* ===== verification/CallScripts.thy ===== *)
theory CallScripts
  imports Platform
begin

text \<open>
  Which calls a computation makes. \<open>script s C m\<close>: run from \<open>s\<close>, whatever the history, \<open>m\<close>
  changes nothing but the history, and makes the calls of one of the lists in \<open>C\<close>, in order; when it
  does not return, those of a prefix. \<open>only P m\<close>: every call of \<open>m\<close> satisfies \<open>P\<close>, however it
  ends. Both compose along the structure of a method.
\<close>

section \<open>Scripts\<close>

definition script :: "'z world_scheme \<Rightarrow> call list set \<Rightarrow> ('z world_scheme, 'a) io \<Rightarrow> bool" where
  "script s C m \<longleftrightarrow> (\<forall>h. wp m
     (\<lambda>_ t. \<exists>cs\<in>C. \<exists>h'. t = s\<lparr>trace := h'\<rparr> \<and> map fst h' = rev cs @ map fst h)
     (\<lambda>_ t. \<exists>cs\<in>C. \<exists>k h'. t = s\<lparr>trace := h'\<rparr> \<and> map fst h' = rev (take k cs) @ map fst h) (s\<lparr>trace := h\<rparr>))"

named_theorems script_intros "the calls of computations"

lemma scriptD:
  assumes "script s C m"
  shows "wp m (\<lambda>_ t. \<exists>cs\<in>C. \<exists>h'. t = s\<lparr>trace := h'\<rparr> \<and> map fst h' = rev cs @ map fst (trace s))
    (\<lambda>_ t. \<exists>cs\<in>C. \<exists>k h'. t = s\<lparr>trace := h'\<rparr> \<and> map fst h' = rev (take k cs) @ map fst (trace s)) s"
  using assms [unfolded script_def, rule_format, of "trace s"] by simp

text \<open>For a computation that only adds to the history, the calls of a script are what it added.\<close>

lemma script_added:
  assumes "script s C m" and "grows m"
  shows "wp m (\<lambda>_ t. \<exists>cs\<in>C. \<exists>u. t = s\<lparr>trace := u @ trace s\<rparr> \<and> map fst u = rev cs)
    (\<lambda>_ t. \<exists>cs\<in>C. \<exists>k u. t = s\<lparr>trace := u @ trace s\<rparr> \<and> map fst u = rev (take k cs)) s"
proof (rule wp_mono [OF wp_conj [OF scriptD [OF assms(1)] grows_wp [OF assms(2)]]])
  fix x t
  assume "(\<exists>cs\<in>C. \<exists>h'. t = s\<lparr>trace := h'\<rparr> \<and> map fst h' = rev cs @ map fst (trace s)) \<and> (\<exists>u. trace t = u @ trace s)"
  then show "\<exists>cs\<in>C. \<exists>u. t = s\<lparr>trace := u @ trace s\<rparr> \<and> map fst u = rev cs"
    by (elim bexE exE conjE) (simp, blast)
next
  fix e t
  assume "(\<exists>cs\<in>C. \<exists>k h'. t = s\<lparr>trace := h'\<rparr> \<and> map fst h' = rev (take k cs) @ map fst (trace s)) \<and>
    (\<exists>u. trace t = u @ trace s)"
  then show "\<exists>cs\<in>C. \<exists>k u. t = s\<lparr>trace := u @ trace s\<rparr> \<and> map fst u = rev (take k cs)"
    by (elim bexE exE conjE) (simp, blast)
qed

lemma script_nonempty:
  assumes "script s C m"
  shows "C \<noteq> {}"
proof
  assume "C = {}"
  with assms have "wp m (\<lambda>_ _. False) (\<lambda>_ _. False) s"
    by (auto intro: wp_mono [OF scriptD])
  then show False by (auto dest: wp_run)
qed

lemma script_mono: "script s C m \<Longrightarrow> C \<subseteq> D \<Longrightarrow> script s D m"
  unfolding script_def by (blast intro: wp_mono)

lemma script_silent: "(\<And>t. snd (m t) = t) \<Longrightarrow> script s {[]} m"
  unfolding script_def wp_def by (auto split: prod.split sum.split) (metis snd_conv)+

lemma script_return [script_intros]: "script s {[]} (return x)"
  by (rule script_silent) (simp add: return_def)

lemma script_check [script_intros]: "script s {[]} (check E name f)"
  by (rule script_silent) (simp add: check_def return_def throw_def split: option.split)

lemma script_checked [script_intros]: "script s {[]} (checked E name f x)"
  by (rule script_silent) (simp add: checked_def check_def io_defs split: option.split)

lemma script_eq: "script s C m \<Longrightarrow> C = D \<Longrightarrow> script s D m"
  by simp

lemma script_bind_gets:
  "(\<And>h. script s C (f (g (s\<lparr>trace := h\<rparr>)))) \<Longrightarrow> script s C (bindE (gets g) f)"
  by (simp add: script_def wp_bindE wp_gets)

lemma script_member [script_intros]:
  "(\<And>h. g (s\<lparr>trace := h\<rparr>) = g s) \<Longrightarrow> script s C (f (g s)) \<Longrightarrow> script s C (bindE (gets g) f)"
  by (rule script_bind_gets) simp

lemma script_bindE:
  assumes "script s C m" and "\<And>x. script s D (f x)"
  shows "script s {c @ d |c d. c \<in> C \<and> d \<in> D} (bindE m f)"
  unfolding script_def wp_bindE
proof
  fix h
  obtain d where d: "d \<in> D" using script_nonempty [OF assms(2)] by blast
  show "wp m (\<lambda>x. wp (f x)
      (\<lambda>_ t. \<exists>cs\<in>{c @ d |c d. c \<in> C \<and> d \<in> D}. \<exists>h'. t = s\<lparr>trace := h'\<rparr> \<and> map fst h' = rev cs @ map fst h)
      (\<lambda>_ t. \<exists>cs\<in>{c @ d |c d. c \<in> C \<and> d \<in> D}. \<exists>k h'. t = s\<lparr>trace := h'\<rparr> \<and> map fst h' = rev (take k cs) @ map fst h))
    (\<lambda>_ t. \<exists>cs\<in>{c @ d |c d. c \<in> C \<and> d \<in> D}. \<exists>k h'. t = s\<lparr>trace := h'\<rparr> \<and> map fst h' = rev (take k cs) @ map fst h)
    (s\<lparr>trace := h\<rparr>)"
  proof (rule wp_mono [OF assms(1) [unfolded script_def, rule_format]], goal_cases)
    case (1 x t)
    then obtain c h1 where c: "c \<in> C" "t = s\<lparr>trace := h1\<rparr>" "map fst h1 = rev c @ map fst h" by blast
    show ?case
      unfolding c(2)
    proof (rule wp_mono [OF assms(2) [unfolded script_def, rule_format]], goal_cases)
      case (1 y u)
      then show ?case using c by fastforce
    next
      case (2 e u)
      then obtain d k h2 where u: "d \<in> D" "u = s\<lparr>trace := h2\<rparr>" "map fst h2 = rev (take k d) @ map fst h1"
        by blast
      then have "map fst h2 = rev (take (length c + k) (c @ d)) @ map fst h" using c(3) by simp
      then show ?case using u c(1) by blast
    qed
  next
    case (2 e t)
    then obtain c k h1 where c: "c \<in> C" "t = s\<lparr>trace := h1\<rparr>" "map fst h1 = rev (take k c) @ map fst h"
      by blast
    then have "map fst h1 = rev (take (min k (length c)) (c @ d)) @ map fst h" by (simp add: min_def)
    then show ?case using c d by blast
  qed
qed

lemma script_thenE: "script s C m \<Longrightarrow> script s D n \<Longrightarrow> script s {c @ d |c d. c \<in> C \<and> d \<in> D} (thenE m n)"
  unfolding thenE_def by (rule script_bindE)

lemma script_sys: "script s {[c]} (sys E c)"
  by (auto simp: script_def wp_sys)

text \<open>One call, and what is done with its reply.\<close>

lemma script_call [script_intros]: "(\<And>r. script s {[]} (f r)) \<Longrightarrow> script s {[c]} (bindE (sys E c) f)"
  using script_bindE [OF script_sys, of s "{[]}" f c E] by simp

lemma script_for_each: "(\<And>x. script s {[c x]} (f x)) \<Longrightarrow> script s {map c xs} (for_each f xs)"
proof (induction xs)
  case Nil
  then show ?case by (simp add: script_return)
next
  case (Cons x xs)
  then show ?case using script_thenE [of s "{[c x]}" "f x" "{map c xs}" "for_each f xs"] by simp
qed

text \<open>Steps that make one list of calls each.\<close>

lemma script_then_one [script_intros]: "script s {c} m \<Longrightarrow> script s {d} n \<Longrightarrow> script s {c @ d} (thenE m n)"
  using script_thenE [of s "{c}" m "{d}" n] by simp

section \<open>Only certain calls\<close>

definition only :: "(call \<Rightarrow> bool) \<Rightarrow> ('z world_scheme, 'a) io \<Rightarrow> bool" where
  "only P m \<longleftrightarrow> (\<forall>s. \<exists>u. trace (snd (m s)) = u @ trace s \<and> (\<forall>e\<in>set u. P (fst e)))"

named_theorems only_intros "computations that make certain calls only"

lemma only_wp:
  assumes "only P m"
  shows "wp m (\<lambda>_ t. \<forall>e\<in>set (trace t) - set (trace s). P (fst e)) (\<lambda>_ t. \<forall>e\<in>set (trace t) - set (trace s). P (fst e)) s"
proof -
  obtain u where "trace (snd (m s)) = u @ trace s" "\<forall>e\<in>set u. P (fst e)"
    using assms unfolding only_def by blast
  then show ?thesis unfolding wp_snd by auto
qed

lemma only_same: "(\<And>s. trace (snd (m s)) = trace s) \<Longrightarrow> only P m"
  by (simp add: only_def)

lemma only_basic [only_intros]:
  "only P (return x)" "only P (throw e)" "only P (gets f)" "only P (lift_sum r)" "only P (check E name b)"
  by (rule only_same, simp add: io_defs check_def split: option.split)+

lemma only_modify: "(\<And>s. trace (f s) = trace s) \<Longrightarrow> only P (modify f)"
  by (rule only_same) (simp add: io_defs)

lemma only_sys [only_intros]: "P c \<Longrightarrow> only P (sys E c)"
  by (simp add: only_def sys_def Let_def)

lemma only_bindE [only_intros]:
  assumes "only P m" and "\<And>x. only P (f x)"
  shows "only P (bindE m f)"
  unfolding only_def
proof
  fix s :: "'a world_scheme"
  obtain r t where r: "m s = (r, t)" by force
  obtain u where u: "trace t = u @ trace s" "\<forall>e\<in>set u. P (fst e)"
    using assms(1) [unfolded only_def, rule_format, of s] r by auto
  show "\<exists>u. trace (snd (bindE m f s)) = u @ trace s \<and> (\<forall>e\<in>set u. P (fst e))"
  proof (cases r)
    case (Inl e)
    then show ?thesis using r u by (simp add: bindE_def)
  next
    case (Inr x)
    obtain v where "trace (snd (f x t)) = v @ trace t" "\<forall>e\<in>set v. P (fst e)"
      using assms(2) unfolding only_def by blast
    then show ?thesis using Inr r u by (intro exI [of _ "v @ u"]) (auto simp: bindE_def)
  qed
qed

lemma only_bind_gets: "(\<And>s. only P (f (g s))) \<Longrightarrow> only P (bindE (gets g) f)"
  by (simp add: only_def bindE_def gets_def)

lemma only_thenE [only_intros]: "only P m \<Longrightarrow> only P n \<Longrightarrow> only P (thenE m n)"
  by (simp add: thenE_def only_intros)

lemma only_checked [only_intros]: "only P (checked E name f r)"
  by (simp add: checked_def only_intros)

lemma only_for_each [only_intros]: "(\<And>x. only P (f x)) \<Longrightarrow> only P (for_each f xs)"
  by (induction xs) (simp_all add: only_intros)

lemma only_if [only_intros]: "only P m \<Longrightarrow> only P n \<Longrightarrow> only P (if b then m else n)"
  by simp

lemma only_on_unwind [only_intros]:
  assumes "only P m" and "only P c"
  shows "only P (on_unwind m c)"
  unfolding only_def
proof
  fix s :: "'a world_scheme"
  obtain r t where r: "m s = (r, t)" by force
  obtain u where u: "trace t = u @ trace s" "\<forall>e\<in>set u. P (fst e)"
    using assms(1) [unfolded only_def, rule_format, of s] r by auto
  obtain v where v: "trace (snd (c t)) = v @ trace t" "\<forall>e\<in>set v. P (fst e)"
    using assms(2) unfolding only_def by blast
  have "trace (snd (on_unwind m c s)) \<in> {u @ trace s, v @ u @ trace s}"
    using r u v by (auto simp: on_unwind_def split: sum.split prod.split)
  moreover have "\<forall>e\<in>set (v @ u). P (fst e)" using u v by auto
  ultimately show "\<exists>u. trace (snd (on_unwind m c s)) = u @ trace s \<and> (\<forall>e\<in>set u. P (fst e))"
    using u by (metis append_assoc insertE singletonD)
qed

lemma only_scoped [only_intros]: "only P m \<Longrightarrow> only P c \<Longrightarrow> only P (scoped m c)"
  by (simp add: scoped_def only_intros)

end
