(* ===== verification/SocketUnixForked.thy ===== *)
theory SocketUnixForked
  imports SocketClass CallScripts
begin

text \<open>
  \<open>src/src/SocketUnixForked.cpp\<close>: a socket whose constructor forks the process. Parent and child
  talk over a socket pair, a pipe, a named pipe, two message queues, and two segments of shared memory
  guarded by semaphores. The model is of one process: the reply of \<open>fork\<close> says which of the two it is,
  and the history up to it, descriptors included, is what the child inherits.
\<close>

record SocketUnixForked = Socket +
  fk_parent :: int
  fk_pipe :: FileDescriptor
  fk_named_pipe :: FileDescriptor
  fk_mq :: int
  fk_peer_mq :: int
  fk_shm :: FileDescriptor
  fk_shm_id :: int
  fk_shm_mmap :: ptr
  fk_shm_shmat :: ptr
  fk_sem_named :: ptr
  fk_sem_unnamed :: ptr

definition parent_mq_name :: string where "parent_mq_name = ''/parent''"
definition child_mq_name :: string where "child_mq_name = ''/child''"
definition pipe_name :: string where "pipe_name = ''/tmp/named_pipe''"
definition shm_name :: string where "shm_name = ''/shm''"
definition sem_name :: string where "sem_name = ''/sem''"

text \<open>
  \<open>SharedMemory\<close> is an \<open>int\<close> and, at the next multiple of 8, a \<open>sem_t\<close> of 32 bytes.
\<close>

definition shm_size :: nat where "shm_size = 40"
definition sem_offset :: ptr where "sem_offset = 8"

section \<open>Calls\<close>

text \<open>\<open>ipc E c\<close> makes a call and drops its result; the others check it under the given name.\<close>

definition ipc :: "env \<Rightarrow> ipc \<Rightarrow> ('z world_scheme, unit) io" where
  "ipc E c = thenE (sys E (C_ipc c)) (return ())"

definition ipc_checked :: "env \<Rightarrow> ipc \<Rightarrow> string \<Rightarrow> (int \<Rightarrow> int \<Rightarrow> bool) \<Rightarrow> ('z world_scheme, int) io" where
  "ipc_checked E c name failed =
     bindE (sys E (C_ipc c)) (\<lambda>r. checked E name (failed (rv r) (err r)) (rv r))"

definition ipc_check :: "env \<Rightarrow> ipc \<Rightarrow> string \<Rightarrow> (int \<Rightarrow> bool) \<Rightarrow> ('z world_scheme, unit) io" where
  "ipc_check E c name failed = thenE (ipc_checked E c name (\<lambda>r _. failed r)) (return ())"

definition destroy_fds :: "env \<Rightarrow> FileDescriptor list \<Rightarrow> ('z world_scheme, unit) io" where
  "destroy_fds E ds = for_each (fd_dtor E) ds"

section \<open>Construction\<close>

text \<open>
  The members that are no objects of a class have indeterminate values until they are assigned:
  \<open>parent\<close> is not in the parent process.
\<close>

definition forked_init_members :: "env \<Rightarrow> ('z SocketUnixForked_scheme, unit) io" where
  "forked_init_members E =
     modify (\<lambda>s. s\<lparr>fk_parent := indeterminate E, fk_pipe := FileDescriptor_ctor invalid_fd,
       fk_named_pipe := FileDescriptor_ctor invalid_fd, fk_shm := FileDescriptor_ctor invalid_fd\<rparr>)"

definition createMessageQueues :: "env \<Rightarrow> ('z SocketUnixForked_scheme, unit) io" where
  "createMessageQueues E =
     thenE (ipc E (I_mq_unlink parent_mq_name))
     (thenE (ipc E (I_mq_unlink child_mq_name))
     (bindE (ipc_checked E (I_mq_open parent_mq_name) ''MqOpen'' (\<lambda>r _. failedMqOpen r)) (\<lambda>q.
      thenE (modify (\<lambda>s. s\<lparr>fk_mq := q\<rparr>))
      (bindE (ipc_checked E (I_mq_open child_mq_name) ''MqOpen'' (\<lambda>r _. failedMqOpen r)) (\<lambda>q'.
        modify (\<lambda>s. s\<lparr>fk_peer_mq := q'\<rparr>))))))"

definition createPosixSharedMemory :: "env \<Rightarrow> ('z SocketUnixForked_scheme, unit) io" where
  "createPosixSharedMemory E =
     bindE (sys E (C_shm_open shm_name)) (\<lambda>r.
     bindE (checked E ''Shmopen'' (failedShmopen (rv r)) (rv r)) (\<lambda>n.
     bindE (gets fk_shm) (\<lambda>this.
     bindE (fd_move_assign E False this (FileDescriptor_ctor n)) (\<lambda>(this', tmp).
     thenE (modify (\<lambda>s. s\<lparr>fk_shm := this'\<rparr>))
     (thenE (fd_dtor E tmp)
     (bindE (gets (\<lambda>s. raw_fd (fk_shm s))) (\<lambda>shm.
      thenE (ipc_check E (I_ftruncate shm shm_size) ''Truncate'' failedTruncate)
      (bindE (ipc_checked E (I_mmap shm shm_size) ''Mmap'' (\<lambda>r _. failedMmap (word_of_int r))) (\<lambda>p.
        modify (\<lambda>s. s\<lparr>fk_shm_mmap := word_of_int p\<rparr>))))))))))"

definition createSysVSharedMemory :: "env \<Rightarrow> ('z SocketUnixForked_scheme, unit) io" where
  "createSysVSharedMemory E =
     bindE (ipc_checked E (I_shmget shm_size) ''Shmget'' (\<lambda>r _. failedShmget r)) (\<lambda>i.
     thenE (modify (\<lambda>s. s\<lparr>fk_shm_id := i\<rparr>))
     (bindE (ipc_checked E (I_shmat i) ''Shmat'' (\<lambda>r _. failedShmat (word_of_int r))) (\<lambda>p.
       modify (\<lambda>s. s\<lparr>fk_shm_shmat := word_of_int p\<rparr>))))"

definition createNamedSemaphore :: "env \<Rightarrow> ('z SocketUnixForked_scheme, unit) io" where
  "createNamedSemaphore E =
     bindE (ipc_checked E (I_sem_open sem_name) ''Semopen'' (\<lambda>r _. failedSemopen (word_of_int r))) (\<lambda>p.
       modify (\<lambda>s. s\<lparr>fk_sem_named := word_of_int p\<rparr>))"

definition createUnnamedSemaphore :: "env \<Rightarrow> ('z SocketUnixForked_scheme, unit) io" where
  "createUnnamedSemaphore E =
     thenE (modify (\<lambda>s. s\<lparr>fk_sem_unnamed := fk_shm_mmap s + sem_offset\<rparr>))
     (bindE (gets fk_sem_unnamed) (\<lambda>sem.
       ipc_check E (I_sem_init sem) ''Seminit'' failedSeminit))"

definition createSocketPair :: "env \<Rightarrow> ('z SocketUnixForked_scheme, FileDescriptor \<times> FileDescriptor) io" where
  "createSocketPair E =
     bindE (gets (\<lambda>s. C_socketpair (sk_family s) (sk_type s) default_protocol)) (\<lambda>c.
     bindE (sys E c) (\<lambda>r.
     thenE (check E ''Socketpair'' (failedSocketpair (rv r)))
       (return (FileDescriptor_ctor (fst (opair r)), FileDescriptor_ctor (snd (opair r))))))"

definition createPipe :: "env \<Rightarrow> ('z SocketUnixForked_scheme, FileDescriptor \<times> FileDescriptor) io" where
  "createPipe E =
     bindE (sys E C_pipe2) (\<lambda>r.
     thenE (check E ''Pipe'' (failedPipe (rv r)))
       (return (FileDescriptor_ctor (fst (opair r)), FileDescriptor_ctor (snd (opair r)))))"

text \<open>
  Both ends of the named pipe are opened before the pair of owners is made: when the second cannot be
  opened, nobody owns the first.
\<close>

definition createNamedPipe :: "env \<Rightarrow> ('z SocketUnixForked_scheme, FileDescriptor \<times> FileDescriptor) io" where
  "createNamedPipe E =
     thenE (thenE (ipc_checked E (I_remove pipe_name) ''Remove'' failedRemove) (return ()))
     (thenE (ipc_check E (I_mkfifo pipe_name) ''Mkfifo'' failedMkfifo)
     (bindE (sys E (C_open pipe_name False)) (\<lambda>r.
      bindE (checked E ''Open'' (failedOpen (rv r)) (rv r)) (\<lambda>n.
      bindE (sys E (C_open pipe_name True)) (\<lambda>w.
      bindE (checked E ''Open'' (failedOpen (rv w)) (rv w)) (\<lambda>m.
        return (FileDescriptor_ctor n, FileDescriptor_ctor m)))))))"

text \<open>
  The three owners that the process keeps are moved into the members; what is left of the parameters
  owns nothing.
\<close>

definition forked_take ::
  "env \<Rightarrow> FileDescriptor \<Rightarrow> FileDescriptor \<Rightarrow> FileDescriptor \<Rightarrow> ('z SocketUnixForked_scheme, unit) io" where
  "forked_take E fd pipe named_pipe =
     bindE (gets sk_fd) (\<lambda>d.
     bindE (fd_move_assign E False d fd) (\<lambda>(d', fd').
     thenE (modify (\<lambda>s. s\<lparr>sk_fd := d'\<rparr>))
     (bindE (gets fk_pipe) (\<lambda>p.
      bindE (fd_move_assign E False p pipe) (\<lambda>(p', pipe').
      thenE (modify (\<lambda>s. s\<lparr>fk_pipe := p'\<rparr>))
      (bindE (gets fk_named_pipe) (\<lambda>np.
       bindE (fd_move_assign E False np named_pipe) (\<lambda>(np', named_pipe').
       thenE (modify (\<lambda>s. s\<lparr>fk_named_pipe := np'\<rparr>))
         (destroy_fds E [named_pipe', pipe', fd'])))))))))"

definition forkParent ::
  "env \<Rightarrow> FileDescriptor \<Rightarrow> FileDescriptor \<Rightarrow> FileDescriptor \<Rightarrow> ('z SocketUnixForked_scheme, unit) io" where
  "forkParent E fd pipe named_pipe =
     thenE (ipc E (I_sigaction ''SIGCHLD'')) (forked_take E fd pipe named_pipe)"

definition checkParentAlive :: "env \<Rightarrow> ('z SocketUnixForked_scheme, unit) io" where
  "checkParentAlive E =
     bindE (sys E (C_ipc I_getppid)) (\<lambda>r.
     bindE (gets fk_parent) (\<lambda>parent.
       if rv r \<noteq> parent then throw (Runtime_error ''Parent died during child creation :( '') else return ()))"

definition killChildOnParentDeath :: "env \<Rightarrow> ('z SocketUnixForked_scheme, unit) io" where
  "killChildOnParentDeath E =
     thenE (ipc E (I_sigaction ''SIGTERM''))
     (thenE (ipc_check E I_prctl_pdeathsig ''Prctl'' failedPrctl) (checkParentAlive E))"

definition forkChild ::
  "env \<Rightarrow> FileDescriptor \<Rightarrow> FileDescriptor \<Rightarrow> FileDescriptor \<Rightarrow> ('z SocketUnixForked_scheme, unit) io" where
  "forkChild E fd pipe named_pipe =
     thenE (on_unwind (killChildOnParentDeath E) (destroy_fds E [named_pipe, pipe, fd]))
     (thenE (forked_take E fd pipe named_pipe)
       (modify (\<lambda>s. s\<lparr>fk_mq := fk_peer_mq s, fk_peer_mq := fk_mq s\<rparr>)))"

text \<open>
  \<open>fork\<close> owns both ends of the three channels; the ends the process does not keep are closed when it
  is left.
\<close>

definition forked_fork ::
  "env \<Rightarrow> FileDescriptor \<times> FileDescriptor \<Rightarrow> FileDescriptor \<times> FileDescriptor \<Rightarrow>
     FileDescriptor \<times> FileDescriptor \<Rightarrow> ('z SocketUnixForked_scheme, unit) io" where
  "forked_fork E sp pp np =
     bindE (sys E (C_ipc I_getpid)) (\<lambda>pid.
     bindE (sys E (C_ipc I_fork)) (\<lambda>r.
     if rv r \<noteq> 0 then
       thenE (on_unwind (check E ''Fork'' (failedFork (rv r)))
           (destroy_fds E [snd np, fst np, snd pp, fst pp, snd sp, fst sp]))
         (let (fd, sp') = fd_move (snd sp); (pipe, pp') = fd_move (snd pp); (named_pipe, np') = fd_move (snd np) in
          scoped (forkParent E fd pipe named_pipe) (destroy_fds E [np', fst np, pp', fst pp, sp', fst sp]))
     else
       thenE (modify (\<lambda>s. s\<lparr>fk_parent := rv pid\<rparr>))
         (let (fd, sp') = fd_move (fst sp); (pipe, pp') = fd_move (fst pp); (named_pipe, np') = fd_move (fst np) in
          scoped (forkChild E fd pipe named_pipe) (destroy_fds E [snd np, np', snd pp, pp', snd sp, sp']))))"

text \<open>
  \<open>fork(createSocketPair(), createPipe(), createNamedPipe())\<close>, the arguments evaluated from left to
  right, one of the orders the language allows.
\<close>

definition forked_start :: "env \<Rightarrow> ('z SocketUnixForked_scheme, unit) io" where
  "forked_start E =
     bindE (createSocketPair E) (\<lambda>sp.
     bindE (on_unwind (createPipe E) (destroy_fds E [snd sp, fst sp])) (\<lambda>pp.
     bindE (on_unwind (createNamedPipe E) (destroy_fds E [snd pp, fst pp, snd sp, fst sp])) (\<lambda>np.
       forked_fork E sp pp np)))"

definition forked_destroy_members :: "env \<Rightarrow> ('z SocketUnixForked_scheme, unit) io" where
  "forked_destroy_members E =
     bindE (gets (\<lambda>s. [fk_shm s, fk_named_pipe s, fk_pipe s])) (\<lambda>ds. thenE (destroy_fds E ds) (Socket_dtor E))"

definition forked_ctor :: "env \<Rightarrow> unit \<Rightarrow> ('z SocketUnixForked_scheme, unit) io" where
  "forked_ctor E = (\<lambda>_.
     thenE (Socket_ctor E [] SOCK_DGRAM default_protocol AF_UNIX True)
     (thenE (forked_init_members E)
       (on_unwind
         (thenE (createMessageQueues E)
         (thenE (createPosixSharedMemory E)
         (thenE (createSysVSharedMemory E)
         (thenE (createNamedSemaphore E)
         (thenE (createUnnamedSemaphore E)
         (thenE (forked_start E)
           (bindE (gets (\<lambda>s. raw_fd (sk_fd s))) (Socket_configure E))))))))
         (forked_destroy_members E))))"

section \<open>Destruction\<close>

definition isChild :: "'z SocketUnixForked_scheme \<Rightarrow> bool" where
  "isChild s \<longleftrightarrow> fk_parent s \<noteq> 0"

definition cleanUpMessageQueues :: "env \<Rightarrow> ('z SocketUnixForked_scheme, unit) io" where
  "cleanUpMessageQueues E =
     bindE (gets fk_mq) (\<lambda>q. thenE (ipc E (I_mq_close q))
     (bindE (gets fk_peer_mq) (\<lambda>q'. thenE (ipc E (I_mq_close q'))
     (thenE (ipc E (I_mq_unlink parent_mq_name)) (ipc E (I_mq_unlink child_mq_name))))))"

definition cleanUpSemaphores :: "env \<Rightarrow> ('z SocketUnixForked_scheme, unit) io" where
  "cleanUpSemaphores E =
     bindE (gets fk_sem_named) (\<lambda>named. thenE (ipc E (I_sem_close named))
     (thenE (ipc E (I_sem_unlink sem_name))
     (bindE (gets fk_sem_unnamed) (\<lambda>unnamed. thenE (ipc E (I_sem_close unnamed)) (ipc E (I_sem_destroy unnamed))))))"

definition cleanUpSharedMemory :: "env \<Rightarrow> ('z SocketUnixForked_scheme, unit) io" where
  "cleanUpSharedMemory E =
     bindE (gets fk_shm_mmap) (\<lambda>m. thenE (ipc E (I_munmap m shm_size))
     (thenE (ipc E (I_shm_unlink shm_name))
     (bindE (gets fk_shm_shmat) (\<lambda>a. ipc E (I_shmdt a)))))"

definition forked_dtor :: "env \<Rightarrow> ('z SocketUnixForked_scheme, unit) io" where
  "forked_dtor E =
     thenE (cleanUpMessageQueues E)
     (thenE (cleanUpSemaphores E)
     (thenE (cleanUpSharedMemory E)
     (thenE (bindE (gets isChild) (\<lambda>child.
          if child then bindE (gets fk_parent) (\<lambda>parent. ipc E (I_kill parent)) else return ()))
       (forked_destroy_members E))))"

section \<open>Sending\<close>

definition sendOnSocketPair :: "env \<Rightarrow> string \<Rightarrow> ('z SocketUnixForked_scheme, unit) io" where
  "sendOnSocketPair E msg =
     bindE (gets (\<lambda>s. raw_fd (sk_fd s))) (\<lambda>fd.
     bindE (sys E (C_send fd msg)) (\<lambda>r. check E ''Send'' (failedSend (rv r))))"

definition sendOnPipe :: "env \<Rightarrow> string \<Rightarrow> ('z SocketUnixForked_scheme, unit) io" where
  "sendOnPipe E msg =
     bindE (gets (\<lambda>s. raw_fd (fk_pipe s))) (\<lambda>fd. ipc_check E (I_write fd msg) ''Write'' failedWrite)"

definition sendOnNamedPipe :: "env \<Rightarrow> string \<Rightarrow> ('z SocketUnixForked_scheme, unit) io" where
  "sendOnNamedPipe E msg =
     bindE (gets (\<lambda>s. raw_fd (fk_named_pipe s))) (\<lambda>fd. ipc_check E (I_write fd msg) ''Write'' failedWrite)"

definition sendOnMessageQueue :: "env \<Rightarrow> string \<Rightarrow> ('z SocketUnixForked_scheme, unit) io" where
  "sendOnMessageQueue E msg =
     bindE (gets (\<lambda>s. shuffled_ix E (trace s) 5)) (for_each (\<lambda>prio.
       bindE (gets fk_peer_mq) (\<lambda>q. ipc_check E (I_mq_send q msg prio) ''MqSend'' failedMqSend)))"

text \<open>A size passed as an \<open>int\<close> keeps its lower 32 bits.\<close>

definition size_as_int :: "nat \<Rightarrow> int" where
  "size_as_int n = sint (word_of_nat n :: 32 word)"

definition setPosixSharedMemory :: "env \<Rightarrow> int \<Rightarrow> ('z SocketUnixForked_scheme, unit) io" where
  "setPosixSharedMemory E v = bindE (gets fk_shm_mmap) (\<lambda>p. ipc E (I_store p v))"

definition setSysVSharedMemory :: "env \<Rightarrow> int \<Rightarrow> ('z SocketUnixForked_scheme, unit) io" where
  "setSysVSharedMemory E v = bindE (gets fk_shm_shmat) (\<lambda>p. ipc E (I_store p v))"

definition printSemaphoreValues :: "env \<Rightarrow> ('z SocketUnixForked_scheme, unit) io" where
  "printSemaphoreValues E =
     thenE (bindE (gets fk_sem_named) (\<lambda>p. ipc_check E (I_sem_getvalue p) ''Semgetvalue'' failedSemgetvalue))
       (bindE (gets fk_sem_unnamed) (\<lambda>p. ipc_check E (I_sem_getvalue p) ''Semgetvalue'' failedSemgetvalue))"

definition postNamedSemaphore :: "env \<Rightarrow> ('z SocketUnixForked_scheme, unit) io" where
  "postNamedSemaphore E =
     thenE (bindE (gets fk_sem_named) (\<lambda>p. ipc_check E (I_sem_post p) ''Sempost'' failedSempost))
       (printSemaphoreValues E)"

definition postUnnamedSemaphore :: "env \<Rightarrow> ('z SocketUnixForked_scheme, unit) io" where
  "postUnnamedSemaphore E =
     thenE (bindE (gets fk_sem_unnamed) (\<lambda>p. ipc_check E (I_sem_post p) ''Sempost'' failedSempost))
       (printSemaphoreValues E)"

definition forked_send :: "env \<Rightarrow> string \<Rightarrow> ('z SocketUnixForked_scheme, unit) io" where
  "forked_send E msg =
     thenE (sendOnSocketPair E msg)
     (thenE (sendOnPipe E msg)
     (thenE (sendOnNamedPipe E msg)
     (thenE (sendOnMessageQueue E msg)
     (thenE (setPosixSharedMemory E (size_as_int (length msg)))
     (thenE (postNamedSemaphore E)
     (thenE (setSysVSharedMemory E (size_as_int (length msg)))
       (postUnnamedSemaphore E)))))))"

section \<open>Receiving\<close>

definition forked_handleMessage :: "env \<Rightarrow> FD \<Rightarrow> ('z SocketUnixForked_scheme, unit) io" where
  "forked_handleMessage E fd =
     bindE (Socket_getBuffer fd) (\<lambda>msg_buffer.
     bindE (sys E (C_recv fd (length msg_buffer))) (\<lambda>r.
     thenE (check E ''Receive'' (failedReceive (rv r)))
     (bindE (lift_sum (store_received msg_buffer r)) (\<lambda>b.
     thenE (modify (\<lambda>s. s\<lparr>main_msg_buffer := b\<rparr>))
     (thenE (log_received E (c_str b))
       (if c_str b = quit_msg then throw (Runtime_error ''Unwinding stack'') else return ()))))))"

definition isSemaphoreReady :: "env \<Rightarrow> ptr \<Rightarrow> ('z world_scheme, bool) io" where
  "isSemaphoreReady E sem =
     bindE (ipc_checked E (I_sem_trywait sem) ''Semtrywait'' failedSemtrywait) (\<lambda>r. return (r = 0))"

definition readPosixSharedMemory :: "env \<Rightarrow> ('z SocketUnixForked_scheme, unit) io" where
  "readPosixSharedMemory E =
     bindE (gets fk_sem_named) (\<lambda>sem.
     bindE (isSemaphoreReady E sem) (\<lambda>ready.
     if ready then thenE (bindE (gets fk_shm_mmap) (\<lambda>p. ipc E (I_load p))) (printSemaphoreValues E)
     else return ()))"

definition readSysVSharedMemory :: "env \<Rightarrow> ('z SocketUnixForked_scheme, unit) io" where
  "readSysVSharedMemory E =
     bindE (gets fk_sem_unnamed) (\<lambda>sem.
     bindE (isSemaphoreReady E sem) (\<lambda>ready.
     if ready then thenE (bindE (gets fk_shm_shmat) (\<lambda>p. ipc E (I_load p))) (printSemaphoreValues E)
     else return ()))"

text \<open>
  The three other channels share the socket's buffer; only a positive result is a message.
\<close>

definition take_message :: "env \<Rightarrow> string \<Rightarrow> ret \<Rightarrow> ('z SocketUnixForked_scheme, unit) io" where
  "take_message E msg_buffer r =
     (if 0 < rv r then
        bindE (lift_sum (store_received msg_buffer r)) (\<lambda>b.
        thenE (modify (\<lambda>s. s\<lparr>main_msg_buffer := b\<rparr>)) (log_received E (c_str b)))
      else return ())"

definition receiveFromPipe :: "env \<Rightarrow> ('z SocketUnixForked_scheme, unit) io" where
  "receiveFromPipe E =
     bindE (gets main_msg_buffer) (\<lambda>msg_buffer.
     bindE (gets (\<lambda>s. raw_fd (fk_pipe s))) (\<lambda>fd.
     bindE (sys E (C_ipc (I_read fd (length msg_buffer)))) (\<lambda>r.
     thenE (check E ''Read'' (failedRead (rv r) (err r))) (take_message E msg_buffer r))))"

definition receiveFromNamedPipe :: "env \<Rightarrow> ('z SocketUnixForked_scheme, unit) io" where
  "receiveFromNamedPipe E =
     bindE (gets main_msg_buffer) (\<lambda>msg_buffer.
     bindE (gets (\<lambda>s. raw_fd (fk_named_pipe s))) (\<lambda>fd.
     bindE (sys E (C_ipc (I_read fd (length msg_buffer)))) (\<lambda>r.
     thenE (check E ''Read'' (failedRead (rv r) (err r))) (take_message E msg_buffer r))))"

definition receiveFromMessageQueue :: "env \<Rightarrow> ('z SocketUnixForked_scheme, unit) io" where
  "receiveFromMessageQueue E =
     thenE (ipc E (I_sleep_ms 10))
     (bindE (gets main_msg_buffer) (\<lambda>msg_buffer.
     bindE (gets fk_mq) (\<lambda>q.
     bindE (sys E (C_ipc (I_mq_receive q (length msg_buffer)))) (\<lambda>r.
     thenE (check E ''MqReceive'' (failedMqReceive (rv r) (err r))) (take_message E msg_buffer r)))))"

definition forked_receive :: "env \<Rightarrow> ('z SocketUnixForked_scheme, unit) io" where
  "forked_receive E =
     thenE (Socket_receive E (Socket_selectFds E) (forked_handleMessage E))
     (thenE (readPosixSharedMemory E)
     (thenE (readSysVSharedMemory E)
     (thenE (bindE (gets isChild) (\<lambda>child.
          if child then thenE (receiveFromPipe E) (receiveFromNamedPipe E) else return ()))
       (receiveFromMessageQueue E))))"

text \<open>
  The signal handlers throw out of whatever the process is doing; the model lets them run between the
  operations.
\<close>

definition childDied :: "('z SocketUnixForked_scheme, unit) io" where
  "childDied = throw (Runtime_error ''Oh no, my child is dead ;('')"

definition parentDied :: "('z SocketUnixForked_scheme, unit) io" where
  "parentDied = throw (Runtime_error ''Oh no, my parent is dead ;('')"

definition forked_ops :: "env \<Rightarrow> ('z SocketUnixForked_scheme, unit) io set" where
  "forked_ops E = range (Socket_listen E) \<union> range (\<lambda>remotes. Socket_connect remotes) \<union> range (forked_send E) \<union>
     {forked_receive E, childDied, parentDied}"

section \<open>Rules for the calls its parts make\<close>

lemma only_ipc [only_intros]:
  "P (C_ipc c) \<Longrightarrow> only P (ipc E c)" "P (C_ipc c) \<Longrightarrow> only P (ipc_checked E c name f)"
  "P (C_ipc c) \<Longrightarrow> only P (ipc_check E c name g)"
  unfolding ipc_def ipc_checked_def ipc_check_def by (intro only_intros; simp)+

lemma only_close:
  "(\<And>n. P (C_close n)) \<Longrightarrow> only P (fd_close E d)" "(\<And>n. P (C_close n)) \<Longrightarrow> only P (fd_dtor E d)"
  "(\<And>n. P (C_close n)) \<Longrightarrow> only P (fd_move_assign E same d d')" "(\<And>n. P (C_close n)) \<Longrightarrow> only P (destroy_fds E ds)"
  "(\<And>n. P (C_close n)) \<Longrightarrow> only P (forked_destroy_members E)"
  unfolding fd_dtor_def fd_move_assign_def destroy_fds_def forked_destroy_members_def Socket_dtor_def fd_close_def
  by (intro only_intros only_modify; simp)+

end
