(* ===== verification/ForkedDescriptors.thy ===== *)
theory ForkedDescriptors
  imports SocketUnixForked
begin

text \<open>
  The descriptors of a forked UNIX socket: the invariant, which members own which descriptors at every
  point of the constructor, the destructor and the operations, the interpretation of \<open>socket_class\<close>, and
  the environment of the examples, in which \<open>fork\<close> replies a given process.
\<close>

section \<open>Invariant\<close>

text \<open>The process has four descriptors open, each owned by one member.\<close>

definition forked_owns :: "'z SocketUnixForked_scheme \<Rightarrow> FD list" where
  "forked_owns s = [raw_fd (sk_fd s), raw_fd (fk_pipe s), raw_fd (fk_named_pipe s), raw_fd (fk_shm s)]"

definition forked_inv :: "'z SocketUnixForked_scheme \<Rightarrow> bool" where
  "forked_inv s \<longleftrightarrow> (\<forall>n\<in>set (forked_owns s). 0 \<le> n) \<and> distinct (forked_owns s) \<and>
     (\<forall>d\<in>{sk_fd s, fk_pipe s, fk_named_pipe s, fk_shm s}. should_close d) \<and>
     accounts (trace s) (set (forked_owns s))"

lemma forked_owns_other [simp]:
  "forked_owns (s\<lparr>trace := h\<rparr>) = forked_owns s" "forked_owns (s\<lparr>main_msg_buffer := b\<rparr>) = forked_owns s"
  "forked_owns (s\<lparr>fds := F\<rparr>) = forked_owns s" "forked_owns (s\<lparr>fd_max := m\<rparr>) = forked_owns s"
  "forked_owns (s\<lparr>selected_fds := l\<rparr>) = forked_owns s"
  by (simp_all add: forked_owns_def)

lemma forked_inv_other [simp]:
  "forked_inv (s\<lparr>main_msg_buffer := b\<rparr>) = forked_inv s" "forked_inv (s\<lparr>fds := F\<rparr>) = forked_inv s"
  "forked_inv (s\<lparr>fd_max := m\<rparr>) = forked_inv s" "forked_inv (s\<lparr>selected_fds := l\<rparr>) = forked_inv s"
  by (simp_all add: forked_inv_def)

lemma forked_inv_neutral [simp]: "neutral t \<Longrightarrow> forked_inv (s\<lparr>trace := t @ trace s\<rparr>) = forked_inv s"
  by (simp add: forked_inv_def)

lemma keeps_forked_quiet: "quiet m \<Longrightarrow> keeps forked_inv m"
  by (rule quiet_keeps) (auto simp: stable_def)

lemma keeps_forked_set [keeps_intros]:
  "keeps forked_inv FDSet_reset" "keeps forked_inv (FDSet_set fd)" "keeps forked_inv (FDSet_select E t)"
  unfolding FDSet_reset_def FDSet_set_def FDSet_select_def FDSet_selectImpl_def
  by (intro keeps_intros keeps_modify keeps_forked_quiet quiet_intros; simp)+

lemma quiet_ipc [quiet_intros]:
  "quiet (ipc E c)" "quiet (ipc_checked E c name f)" "quiet (ipc_check E c name g)"
  unfolding ipc_def ipc_checked_def ipc_check_def by (intro quiet_intros; simp)+

lemma quiet_forked [quiet_intros]:
  "quiet (printSemaphoreValues E)" "quiet (forked_send E msg)" "quiet (readPosixSharedMemory E)"
  "quiet (readSysVSharedMemory E)" "quiet (checkParentAlive E)" "quiet (killChildOnParentDeath E)"
  "quiet (cleanUpMessageQueues E)" "quiet (cleanUpSemaphores E)" "quiet (cleanUpSharedMemory E)"
  unfolding printSemaphoreValues_def forked_send_def sendOnSocketPair_def sendOnPipe_def sendOnNamedPipe_def
    sendOnMessageQueue_def setPosixSharedMemory_def setSysVSharedMemory_def postNamedSemaphore_def
    postUnnamedSemaphore_def readPosixSharedMemory_def readSysVSharedMemory_def isSemaphoreReady_def
    checkParentAlive_def killChildOnParentDeath_def cleanUpMessageQueues_def cleanUpSemaphores_def
    cleanUpSharedMemory_def
  by (intro quiet_intros; simp)+

lemma keeps_take_message [keeps_intros]: "keeps forked_inv (take_message E b r)"
  unfolding take_message_def
  by (intro keeps_intros keeps_modify) (simp_all add: keeps_forked_quiet quiet_intros)

lemma keeps_forked_channels [keeps_intros]:
  "keeps forked_inv (receiveFromPipe E)" "keeps forked_inv (receiveFromNamedPipe E)"
  "keeps forked_inv (receiveFromMessageQueue E)" "keeps forked_inv (forked_handleMessage E fd)"
  unfolding receiveFromPipe_def receiveFromNamedPipe_def receiveFromMessageQueue_def forked_handleMessage_def
    Socket_getBuffer_def
  by (intro keeps_intros keeps_modify; simp add: keeps_forked_quiet quiet_intros)+

lemma keeps_forked_ops: "m \<in> forked_ops E \<Longrightarrow> keeps forked_inv m"
proof -
  have "keeps forked_inv (forked_receive E)"
    unfolding forked_receive_def Socket_selectFds_def
    by (intro keeps_intros keeps_Socket_receive) (simp_all add: keeps_forked_quiet quiet_intros)
  moreover have "keeps forked_inv (Socket_connect remotes)" for remotes
    unfolding Socket_connect_def by (intro keeps_intros)
  moreover have "keeps forked_inv childDied" "keeps forked_inv parentDied"
    unfolding childDied_def parentDied_def by (intro keeps_intros)+
  ultimately show "m \<in> forked_ops E \<Longrightarrow> keeps forked_inv m"
    unfolding forked_ops_def
    using keeps_forked_quiet [OF quiet_Socket_listen] keeps_forked_quiet [OF quiet_forked(2)] by fastforce
qed

section \<open>Who owns what\<close>

lemma thenE_assoc: "thenE (thenE a b) c = thenE a (thenE b c)"
  by (auto simp: fun_eq_iff thenE_def bindE_def split: prod.split sum.split)

text \<open>The descriptors a list of owners would close.\<close>

definition owned :: "FileDescriptor list \<Rightarrow> FD list" where
  "owned ds = map raw_fd (filter (\<lambda>d. should_close d \<and> raw_fd d \<noteq> invalid_fd) ds)"

lemma owned_simps [simp]:
  "owned [] = []" "0 \<le> n \<Longrightarrow> owned (FileDescriptor_ctor n # ds) = n # owned ds"
  "owned (FileDescriptor_ctor invalid_fd # ds) = owned ds" "owned (d\<lparr>should_close := False\<rparr> # ds) = owned ds"
  by (simp_all add: owned_def invalid_fd_def)

lemma owned_Cons: "set (owned (d # ds)) = owns d \<union> set (owned ds)"
  by (simp add: owned_def owns_def)

lemma wp_destroy_fds:
  assumes "accounts (trace s) M" and "distinct (owned ds)" and "set (owned ds) \<subseteq> M"
    and "\<And>h. accounts h (M - set (owned ds)) \<Longrightarrow> Q () (s\<lparr>trace := h\<rparr>)"
  shows "wp (destroy_fds E ds) Q R s"
  unfolding destroy_fds_def using assms
proof (induction ds arbitrary: s M)
  case Nil
  then show ?case using Nil(4) [of "trace s"] by (simp add: wp_simps)
next
  case (Cons d ds)
  have d: "owns d \<subseteq> M" "distinct (owned ds)" "set (owned ds) \<inter> owns d = {}" "set (owned ds) \<subseteq> M"
    using Cons.prems(2,3) by (auto simp: owned_def owns_def split: if_splits)
  show ?case
    unfolding for_each.simps wp_thenE
  proof (rule wp_fd_dtor [OF Cons.prems(1) d(1)])
    fix h
    assume h: "accounts h (M - owns d)"
    have "M - owns d - set (owned ds) = M - set (owned (d # ds))" by (auto simp: owned_Cons)
    then show "wp (for_each (fd_dtor E) ds) Q R (s\<lparr>trace := h\<rparr>)"
      by (intro Cons.IH [of _ "M - owns d"]) (use h d Cons.prems(4) in auto)
  qed
qed

text \<open>The owners of the process, in the order they are destroyed in.\<close>

definition members :: "'z SocketUnixForked_scheme \<Rightarrow> FileDescriptor list" where
  "members s = [fk_shm s, fk_named_pipe s, fk_pipe s, sk_fd s]"

lemma members_other [simp]:
  "members (s\<lparr>trace := h\<rparr>) = members s" "members (s\<lparr>fk_mq := q\<rparr>) = members s"
  "members (s\<lparr>fk_peer_mq := q\<rparr>) = members s" "members (s\<lparr>fk_shm_mmap := p\<rparr>) = members s"
  "members (s\<lparr>fk_shm_shmat := p\<rparr>) = members s" "members (s\<lparr>fk_shm_id := i\<rparr>) = members s"
  "members (s\<lparr>fk_sem_named := p\<rparr>) = members s" "members (s\<lparr>fk_sem_unnamed := p\<rparr>) = members s"
  "members (s\<lparr>fk_parent := i\<rparr>) = members s"
  by (simp_all add: members_def)

definition holds :: "FileDescriptor list \<Rightarrow> 'z SocketUnixForked_scheme \<Rightarrow> bool" where
  "holds M s \<longleftrightarrow> members s = M \<and> accounts (trace s) (set (owned M))"

lemma holds_other [simp]:
  "holds M (s\<lparr>fk_mq := q\<rparr>) = holds M s"
  "holds M (s\<lparr>fk_peer_mq := q\<rparr>) = holds M s" "holds M (s\<lparr>fk_shm_mmap := p\<rparr>) = holds M s"
  "holds M (s\<lparr>fk_shm_shmat := p\<rparr>) = holds M s" "holds M (s\<lparr>fk_shm_id := i\<rparr>) = holds M s"
  "holds M (s\<lparr>fk_sem_named := p\<rparr>) = holds M s" "holds M (s\<lparr>fk_sem_unnamed := p\<rparr>) = holds M s"
  "holds M (s\<lparr>fk_parent := i\<rparr>) = holds M s"
  by (simp_all add: holds_def)

lemma keeps_holds_quiet: "quiet m \<Longrightarrow> keeps (holds M) m"
  by (rule quiet_keeps) (auto simp: stable_def holds_def)

lemma wp_forked_destroy_members:
  assumes "holds M s" and "distinct (owned M)"
  shows "wp (forked_destroy_members E) (\<lambda>_ t. accounts (trace t) {}) (\<lambda>_ _. False) s"
proof -
  let ?ds = "[fk_shm s, fk_named_pipe s, fk_pipe s]"
  have M: "M = ?ds @ [sk_fd s]" and acc: "accounts (trace s) (set (owned M))"
    using assms(1) by (simp_all add: holds_def members_def)
  have o: "set (owned M) = set (owned ?ds) \<union> owns (sk_fd s)" "set (owned ?ds) \<inter> owns (sk_fd s) = {}"
      "distinct (owned ?ds)"
    using assms(2) unfolding M by (auto simp: owned_def owns_def)
  then have rest: "set (owned M) - set (owned ?ds) = owns (sk_fd s)" by blast
  show ?thesis
    unfolding forked_destroy_members_def wp_bindE wp_gets wp_thenE
  proof (rule wp_destroy_fds [OF acc o(3)])
    show "set (owned ?ds) \<subseteq> set (owned M)" unfolding o(1) by blast
    fix h
    assume "accounts h (set (owned M) - set (owned ?ds))"
    then show "wp (Socket_dtor E) (\<lambda>_ t. accounts (trace t) {}) (\<lambda>_ _. False) (s\<lparr>trace := h\<rparr>)"
      unfolding rest by (intro wp_Socket_dtor [of _ "owns (sk_fd s)"]) auto
  qed
qed

lemma forked_inv_holds:
  assumes "holds [FileDescriptor_ctor d, FileDescriptor_ctor c, FileDescriptor_ctor b, FileDescriptor_ctor a] s"
    and "0 \<le> a" "0 \<le> b" "0 \<le> c" "0 \<le> d" and "distinct [a, b, c, d]"
  shows "forked_inv s"
proof -
  have m: "fk_shm s = FileDescriptor_ctor d" "fk_named_pipe s = FileDescriptor_ctor c"
      "fk_pipe s = FileDescriptor_ctor b" "sk_fd s = FileDescriptor_ctor a"
    using assms(1) by (simp_all add: holds_def members_def)
  have "accounts (trace s) {a, b, c, d}"
    using assms by (simp add: holds_def insert_commute)
  then show ?thesis
    using assms(2-) by (auto simp: forked_inv_def forked_owns_def m)
qed

lemma holds_forked_inv:
  assumes "forked_inv s"
  shows "holds (members s) s" and "distinct (owned (members s))"
proof -
  have o: "owned (members s) = rev (forked_owns s)"
    using assms by (simp add: forked_inv_def forked_owns_def members_def owned_def invalid_fd_def)
  show "holds (members s) s"
    using assms by (simp add: holds_def o) (simp add: forked_inv_def)
  show "distinct (owned (members s))"
    using assms by (simp add: o) (simp add: forked_inv_def)
qed

text \<open>Calls whose results nobody looks at neither fail nor change what is owned.\<close>

definition undisturbed :: "FileDescriptor list \<Rightarrow> ('z SocketUnixForked_scheme, 'a) io \<Rightarrow> bool" where
  "undisturbed M m \<longleftrightarrow> (\<forall>s. holds M s \<longrightarrow> wp m (\<lambda>_. holds M) (\<lambda>_ _. False) s)"

lemma undisturbed_bindE:
  assumes "undisturbed M m" and "\<And>x. undisturbed M (f x)"
  shows "undisturbed M (bindE m f)"
  unfolding undisturbed_def wp_bindE
proof (intro allI impI)
  fix s :: "'a SocketUnixForked_scheme"
  assume "holds M s"
  then show "wp m (\<lambda>x. wp (f x) (\<lambda>_. holds M) (\<lambda>_ _. False)) (\<lambda>_ _. False) s"
    using assms unfolding undisturbed_def by (blast intro: wp_mono)
qed

lemma undisturbed_intros:
  "undisturbed M (return x)" "undisturbed M (gets g)" "undisturbed M (ipc E c)"
  "undisturbed M m \<Longrightarrow> (\<And>x. undisturbed M (f x)) \<Longrightarrow> undisturbed M (bindE m f)"
  "undisturbed M m \<Longrightarrow> undisturbed M n \<Longrightarrow> undisturbed M (thenE m n)"
  "undisturbed M m \<Longrightarrow> undisturbed M n \<Longrightarrow> undisturbed M (if b then m else n)"
  by (simp_all add: undisturbed_bindE thenE_def)
    (simp_all add: undisturbed_def ipc_def wp_simps holds_def)

lemma script_ipc [script_intros]:
  "script s {[C_ipc c]} (ipc E c)" "script s {[C_ipc c]} (ipc_check E c name f)"
  unfolding ipc_def ipc_check_def ipc_checked_def
  by (rule script_eq, (rule script_intros script_sys)+, simp)+

text \<open>The calls by which the destructor releases what is no descriptor, and tells the parent.\<close>

definition cleanup_calls :: "'z SocketUnixForked_scheme \<Rightarrow> call list" where
  "cleanup_calls s = map C_ipc ([I_mq_close (fk_mq s), I_mq_close (fk_peer_mq s), I_mq_unlink parent_mq_name,
     I_mq_unlink child_mq_name, I_sem_close (fk_sem_named s), I_sem_unlink sem_name, I_sem_close (fk_sem_unnamed s),
     I_sem_destroy (fk_sem_unnamed s), I_munmap (fk_shm_mmap s) shm_size, I_shm_unlink shm_name, I_shmdt (fk_shm_shmat s)] @
     (if isChild s then [I_kill (fk_parent s)] else []))"

lemma wp_forked_dtor:
  fixes s :: "'a SocketUnixForked_scheme"
  assumes "forked_inv s"
  shows "wp (forked_dtor E) (\<lambda>_ t. accounts (trace t) {} \<and>
    (\<exists>u h. trace t = u @ h \<and> map fst h = rev (cleanup_calls s) @ map fst (trace s))) (\<lambda>_ _. False) s"
proof -
  let ?clean = "thenE (cleanUpMessageQueues E) (thenE (cleanUpSemaphores E) (thenE (cleanUpSharedMemory E)
      (bindE (gets isChild) (\<lambda>child.
         if child then bindE (gets fk_parent) (\<lambda>parent. ipc E (I_kill parent)) else return ()))))"
  have eq: "forked_dtor E = thenE ?clean (forked_destroy_members E)"
    by (simp only: forked_dtor_def thenE_assoc)
  have tell: "script s {if isChild s then [C_ipc (I_kill (fk_parent s))] else []} (bindE (gets isChild) (\<lambda>child.
         if child then bindE (gets fk_parent) (\<lambda>parent. ipc E (I_kill parent)) else return ()))"
    by (rule script_member, simp add: isChild_def) (auto intro: script_intros)
  have script: "script s {cleanup_calls s} ?clean"
    unfolding cleanUpMessageQueues_def cleanUpSemaphores_def cleanUpSharedMemory_def
    by (rule script_eq, (rule tell script_intros | simp; fail)+) (simp add: cleanup_calls_def)
  have "undisturbed (members s) (?clean :: ('a SocketUnixForked_scheme, unit) io)"
    unfolding cleanUpMessageQueues_def cleanUpSemaphores_def cleanUpSharedMemory_def
    by (intro undisturbed_intros)
  from this [unfolded undisturbed_def, rule_format, OF holds_forked_inv(1) [OF assms]]
  have "wp ?clean (\<lambda>_. holds (members s)) (\<lambda>_ _. False) s" .
  note clean = wp_conj [OF this scriptD [OF script]]
  have grow: "grows (forked_destroy_members E :: ('a SocketUnixForked_scheme, unit) io)"
    unfolding forked_destroy_members_def destroy_fds_def by (intro grows_intros)
  show ?thesis
    unfolding eq wp_thenE [of ?clean]
  proof (rule wp_mono [OF clean], elim conjE)
    fix x :: unit and t :: "'a SocketUnixForked_scheme"
    assume t: "holds (members s) t"
    assume "\<exists>cs\<in>{cleanup_calls s}. \<exists>h'. t = s\<lparr>trace := h'\<rparr> \<and> map fst h' = rev cs @ map fst (trace s)"
    then have c: "map fst (trace t) = rev (cleanup_calls s) @ map fst (trace s)" by auto
    from wp_conj [OF wp_forked_destroy_members [OF t holds_forked_inv(2) [OF assms]] grows_wp [OF grow]]
    show "wp (forked_destroy_members E) (\<lambda>_ t. accounts (trace t) {} \<and>
       (\<exists>u h. trace t = u @ h \<and> map fst h = rev (cleanup_calls s) @ map fst (trace s))) (\<lambda>_ _. False) t"
      by (rule wp_mono) (use c in auto)
  qed simp
qed

section \<open>The constructor keeps account\<close>

text \<open>
  What the constructor relies on beyond fresh descriptors and checks that throw: the two descriptors
  of a pair differ and are none the program uses otherwise, and the writing end of the named pipe,
  whose reading end is open already, can be opened.
\<close>

definition pairs_ok :: "env \<Rightarrow> bool" where
  "pairs_ok E \<longleftrightarrow> (\<forall>h c. (\<exists>f t p. c = C_socketpair f t p) \<or> c = C_pipe2 \<longrightarrow> rv (os E h c) = 0 \<longrightarrow>
     0 \<le> fst (opair (os E h c)) \<and> 0 \<le> snd (opair (os E h c)) \<and> fst (opair (os E h c)) \<noteq> snd (opair (os E h c)))"

definition forked_good :: "env \<Rightarrow> bool" where
  "forked_good E \<longleftrightarrow> descriptors_ok E \<and> pairs_ok E \<and> (\<forall>h. 0 \<le> rv (os E h (C_open pipe_name True)))"

lemma forked_goodD:
  assumes "forked_good E"
  shows "checks_ok E" "fresh_fds E" "pairs_ok E" "descriptors_ok E"
    and "\<And>h. 0 \<le> rv (os E h (C_open pipe_name True))"
  using assms by (simp_all add: forked_good_def descriptors_ok_def)

lemma fresh_fdsD: "fresh_fds E \<Longrightarrow> accounts h L \<Longrightarrow> opened (c, os E h c) \<inter> L = {}"
  by (auto simp: fresh_fds_def accounts_def)

lemma accounts_opened:
  "accounts h L \<Longrightarrow> closed (c, r) = {} \<Longrightarrow> accounts ((c, r) # h) (opened (c, r) \<union> L)"
  by (auto simp: accounts_def)

lemma wp_opened_pair:
  fixes E s c
  defines "r \<equiv> os E (trace s) c"
  assumes "forked_good E" and "accounts (trace s) L" and "(\<exists>f t p. c = C_socketpair f t p) \<or> c = C_pipe2"
    and "\<And>h a b. 0 \<le> a \<Longrightarrow> 0 \<le> b \<Longrightarrow> a \<noteq> b \<Longrightarrow> {a, b} \<inter> L = {} \<Longrightarrow> accounts h ({a, b} \<union> L) \<Longrightarrow>
      Q (FileDescriptor_ctor a, FileDescriptor_ctor b) (s\<lparr>trace := h\<rparr>)"
    and "\<And>h w. accounts h L \<Longrightarrow> R (Runtime_error w) (s\<lparr>trace := h\<rparr>)"
  shows "wp (thenE (check E name (rv r \<noteq> 0))
      (return (FileDescriptor_ctor (fst (opair r)), FileDescriptor_ctor (snd (opair r))))) Q R
    (s\<lparr>trace := (c, r) # trace s\<rparr>)"
proof -
  note g = forked_goodD [OF assms(2)]
  have o: "opened (c, r) = (if rv r = 0 then {fst (opair r), snd (opair r)} else {})" and c: "closed (c, r) = {}"
    using assms(4) by auto
  have acc: "accounts ((c, r) # trace s) (opened (c, r) \<union> L)" by (rule accounts_opened [OF assms(3) c])
  have fr: "opened (c, r) \<inter> L = {}" unfolding r_def by (rule fresh_fdsD [OF g(2) assms(3)])
  show ?thesis
  proof (cases "rv r = 0")
    case True
    then have "0 \<le> fst (opair r)" "0 \<le> snd (opair r)" "fst (opair r) \<noteq> snd (opair r)"
      using g(3) assms(4) by (auto simp: pairs_ok_def r_def)
    then show ?thesis
      using True o acc fr assms(5) by (simp add: wp_simps checks_ok_eq [OF g(1)])
  next
    case False
    then show ?thesis
      using o acc assms(6) by (simp add: wp_simps checks_ok_eq [OF g(1)])
  qed
qed

lemma wp_createSocketPair:
  assumes "forked_good E" and "accounts (trace s) L"
    and "\<And>h a b. 0 \<le> a \<Longrightarrow> 0 \<le> b \<Longrightarrow> a \<noteq> b \<Longrightarrow> {a, b} \<inter> L = {} \<Longrightarrow> accounts h ({a, b} \<union> L) \<Longrightarrow>
      Q (FileDescriptor_ctor a, FileDescriptor_ctor b) (s\<lparr>trace := h\<rparr>)"
    and "\<And>h w. accounts h L \<Longrightarrow> R (Runtime_error w) (s\<lparr>trace := h\<rparr>)"
  shows "wp (createSocketPair E) Q R s"
  unfolding createSocketPair_def wp_bindE wp_gets wp_sys failedSocketpair_def
  by (rule wp_opened_pair [OF assms(1,2)]) (use assms(3,4) in auto)

lemma wp_createPipe:
  assumes "forked_good E" and "accounts (trace s) L"
    and "\<And>h a b. 0 \<le> a \<Longrightarrow> 0 \<le> b \<Longrightarrow> a \<noteq> b \<Longrightarrow> {a, b} \<inter> L = {} \<Longrightarrow> accounts h ({a, b} \<union> L) \<Longrightarrow>
      Q (FileDescriptor_ctor a, FileDescriptor_ctor b) (s\<lparr>trace := h\<rparr>)"
    and "\<And>h w. accounts h L \<Longrightarrow> R (Runtime_error w) (s\<lparr>trace := h\<rparr>)"
  shows "wp (createPipe E) Q R s"
  unfolding createPipe_def wp_bindE wp_gets wp_sys failedPipe_def
  by (rule wp_opened_pair [OF assms(1,2)]) (use assms(3,4) in auto)

lemma wp_createNamedPipe:
  assumes "forked_good E" and "accounts (trace s) L"
    and "\<And>h a b. 0 \<le> a \<Longrightarrow> 0 \<le> b \<Longrightarrow> a \<noteq> b \<Longrightarrow> {a, b} \<inter> L = {} \<Longrightarrow> accounts h ({a, b} \<union> L) \<Longrightarrow>
      Q (FileDescriptor_ctor a, FileDescriptor_ctor b) (s\<lparr>trace := h\<rparr>)"
    and "\<And>h e. accounts h L \<Longrightarrow> R e (s\<lparr>trace := h\<rparr>)"
  shows "wp (createNamedPipe E) Q R s"
proof -
  note g = forked_goodD [OF assms(1)]
  have opn: "wp (bindE (sys E (C_open pipe_name False)) (\<lambda>r.
      bindE (checked E ''Open'' (failedOpen (rv r)) (rv r)) (\<lambda>n.
      bindE (sys E (C_open pipe_name True)) (\<lambda>w.
      bindE (checked E ''Open'' (failedOpen (rv w)) (rv w)) (\<lambda>m.
        return (FileDescriptor_ctor n, FileDescriptor_ctor m)))))) Q R (s\<lparr>trace := t\<rparr>)"
    if t: "accounts t L" for t
  proof -
    let ?c = "C_open pipe_name False" and ?c' = "C_open pipe_name True"
    let ?r = "os E t ?c" and ?h = "(C_open pipe_name False, os E t (C_open pipe_name False)) # t"
    let ?r' = "os E ?h ?c'"
    have acc: "accounts ?h (opened (?c, ?r) \<union> L)" by (rule accounts_opened [OF t]) simp
    have acc': "accounts ((?c', ?r') # ?h) (opened (?c', ?r') \<union> (opened (?c, ?r) \<union> L))"
      by (rule accounts_opened [OF acc]) simp
    have ge: "0 \<le> rv ?r'" by (rule g(5))
    show ?thesis
      using acc acc' ge fresh_fdsD [OF g(2) t, of ?c] fresh_fdsD [OF g(2) acc, of ?c'] assms(3) [of "rv ?r" "rv ?r'"] assms(4)
      by (auto simp: wp_simps checks_ok_eq [OF g(1)] failedOpen_def insert_commute)
  qed
  have q: "quiet (thenE (ipc_checked E (I_remove pipe_name) ''Remove'' failedRemove) (return ()))"
    "quiet (ipc_check E (I_mkfifo pipe_name) ''Mkfifo'' failedMkfifo)"
    by (intro quiet_intros)+
  show ?thesis
    unfolding createNamedPipe_def wp_thenE [of "thenE m (return ())" for m] wp_thenE [of "ipc_check E c n f" for c n f]
  proof (rule quiet_wp [OF q(1)])
    fix t
    assume t: "neutral t"
    show "wp (ipc_check E (I_mkfifo pipe_name) ''Mkfifo'' failedMkfifo)
        (\<lambda>_. wp (bindE (sys E (C_open pipe_name False)) (\<lambda>r.
          bindE (checked E ''Open'' (failedOpen (rv r)) (rv r)) (\<lambda>n.
          bindE (sys E (C_open pipe_name True)) (\<lambda>w.
          bindE (checked E ''Open'' (failedOpen (rv w)) (rv w)) (\<lambda>m.
            return (FileDescriptor_ctor n, FileDescriptor_ctor m)))))) Q R) R (s\<lparr>trace := t @ trace s\<rparr>)"
      by (rule quiet_wp [OF q(2)]) (use t opn assms(2,4) in simp_all)
  qed (use assms(2,4) in simp)
qed

text \<open>Taking the kept ends over, into members that own nothing.\<close>

lemma wp_forked_take:
  assumes "members s = [shm, FileDescriptor_ctor invalid_fd, FileDescriptor_ctor invalid_fd, FileDescriptor_ctor invalid_fd]"
    and "Q () (s\<lparr>sk_fd := FileDescriptor_ctor a, fk_pipe := FileDescriptor_ctor b, fk_named_pipe := FileDescriptor_ctor c\<rparr>)"
  shows "wp (forked_take E (FileDescriptor_ctor a) (FileDescriptor_ctor b) (FileDescriptor_ctor c)) Q R s"
proof -
  have m: "sk_fd s = FileDescriptor_ctor invalid_fd" "fk_pipe s = FileDescriptor_ctor invalid_fd"
      "fk_named_pipe s = FileDescriptor_ctor invalid_fd"
    using assms(1) by (simp_all add: members_def)
  have mv: "fd_move_assign E False (FileDescriptor_ctor invalid_fd) (FileDescriptor_ctor n) =
      return (FileDescriptor_ctor n, (FileDescriptor_ctor n)\<lparr>should_close := False\<rparr>)" for n
    by (simp add: fun_eq_iff fd_move_assign_def fd_close_def io_defs FileDescriptor_ctor_def)
  show ?thesis
    using assms(2) by (simp add: forked_take_def destroy_fds_def m mv wp_simps)
qed

text \<open>Closing the ends the process does not keep.\<close>

lemma wp_close_others:
  assumes "members s = [FileDescriptor_ctor d, FileDescriptor_ctor c, FileDescriptor_ctor b, FileDescriptor_ctor a]"
    and "0 \<le> a" "0 \<le> b" "0 \<le> c" "0 \<le> d" and "distinct ([a, b, c, d] @ owned ds)"
    and "accounts (trace s) (set (owned ds) \<union> {a, b, c, d})"
    and "\<And>h. forked_inv (s\<lparr>trace := h\<rparr>) \<Longrightarrow> Q () (s\<lparr>trace := h\<rparr>)"
  shows "wp (destroy_fds E ds) Q R s"
proof (rule wp_destroy_fds [OF assms(7)])
  fix h
  have "set (owned ds) \<union> {a, b, c, d} - set (owned ds) = {a, b, c, d}" using assms(6) by auto
  moreover assume "accounts h (set (owned ds) \<union> {a, b, c, d} - set (owned ds))"
  ultimately have "accounts h {d, c, b, a}" by (simp add: insert_commute)
  then have "forked_inv (s\<lparr>trace := h\<rparr>)"
    by (intro forked_inv_holds [of d c b a]) (use assms(1-6) in \<open>simp_all add: holds_def\<close>)
  then show "Q () (s\<lparr>trace := h\<rparr>)" by (rule assms(8))
qed (use assms(6) in auto)

text \<open>Closing all of the ends when an exception leaves the function.\<close>

lemma wp_close_all:
  assumes "members s = M" and "set (owned M) \<inter> set (owned ds) = {}" and "distinct (owned ds)"
    and "accounts (trace s) (set (owned ds) \<union> set (owned M))"
    and "\<And>h. holds M (s\<lparr>trace := h\<rparr>) \<Longrightarrow> Q () (s\<lparr>trace := h\<rparr>)"
  shows "wp (destroy_fds E ds) Q R s"
proof (rule wp_destroy_fds [OF assms(4,3)])
  fix h
  have "set (owned ds) \<union> set (owned M) - set (owned ds) = set (owned M)" using assms(2) by auto
  moreover assume "accounts h (set (owned ds) \<union> set (owned M) - set (owned ds))"
  ultimately show "Q () (s\<lparr>trace := h\<rparr>)" using assms(1) by (intro assms(5)) (simp add: holds_def)
qed simp

text \<open>
  Taking over the kept ends, changing members that are no descriptors (\<open>f\<close>), and closing what the
  function still owns.
\<close>

lemma wp_take_over:
  fixes f :: "'a SocketUnixForked_scheme \<Rightarrow> 'a SocketUnixForked_scheme"
  assumes "members s = [FileDescriptor_ctor d, FileDescriptor_ctor invalid_fd, FileDescriptor_ctor invalid_fd, FileDescriptor_ctor invalid_fd]"
    and "0 \<le> a" "0 \<le> b" "0 \<le> c" "0 \<le> d" and "distinct ([a, b, c, d] @ owned ds)"
    and "accounts (trace s) (set (owned ds) \<union> {a, b, c, d})"
    and f: "\<And>t. members (f t) = members t" "\<And>t. trace (f t) = trace t"
    and "\<And>h. forked_inv ((f (s\<lparr>sk_fd := FileDescriptor_ctor a, fk_pipe := FileDescriptor_ctor b,
        fk_named_pipe := FileDescriptor_ctor c\<rparr>))\<lparr>trace := h\<rparr>) \<Longrightarrow>
      Q () ((f (s\<lparr>sk_fd := FileDescriptor_ctor a, fk_pipe := FileDescriptor_ctor b,
        fk_named_pipe := FileDescriptor_ctor c\<rparr>))\<lparr>trace := h\<rparr>)"
  shows "wp (forked_take E (FileDescriptor_ctor a) (FileDescriptor_ctor b) (FileDescriptor_ctor c))
    (\<lambda>_ t. wp (destroy_fds E ds) (\<lambda>_. Q ()) R (f t)) R' s"
proof (rule wp_forked_take)
  let ?t = "f (s\<lparr>sk_fd := FileDescriptor_ctor a, fk_pipe := FileDescriptor_ctor b, fk_named_pipe := FileDescriptor_ctor c\<rparr>)"
  show "wp (destroy_fds E ds) (\<lambda>_. Q ()) R ?t"
  proof (rule wp_close_others [of ?t d c b a])
    show "members ?t = [FileDescriptor_ctor d, FileDescriptor_ctor c, FileDescriptor_ctor b, FileDescriptor_ctor a]"
      using assms(1) unfolding f(1) by (simp add: members_def)
  qed (use assms(2-7,10) in \<open>simp_all add: f(2)\<close>)
qed (use assms(1) in simp)

lemma wp_forked_parent:
  assumes "members s = [FileDescriptor_ctor d, FileDescriptor_ctor invalid_fd, FileDescriptor_ctor invalid_fd, FileDescriptor_ctor invalid_fd]"
    and "0 \<le> a" "0 \<le> b" "0 \<le> c" "0 \<le> d" and "distinct ([a, b, c, d] @ owned ds)"
    and "accounts (trace s) (set (owned ds) \<union> {a, b, c, d})"
    and "\<And>h. forked_inv (s\<lparr>sk_fd := FileDescriptor_ctor a, fk_pipe := FileDescriptor_ctor b,
        fk_named_pipe := FileDescriptor_ctor c, trace := h\<rparr>) \<Longrightarrow>
      Q () (s\<lparr>sk_fd := FileDescriptor_ctor a, fk_pipe := FileDescriptor_ctor b,
        fk_named_pipe := FileDescriptor_ctor c, trace := h\<rparr>)"
  shows "wp (scoped (forkParent E (FileDescriptor_ctor a) (FileDescriptor_ctor b) (FileDescriptor_ctor c)) (destroy_fds E ds)) Q R s"
proof -
  let ?h = "(C_ipc (I_sigaction ''SIGCHLD''), os E (trace s) (C_ipc (I_sigaction ''SIGCHLD''))) # trace s"
  have "wp (forked_take E (FileDescriptor_ctor a) (FileDescriptor_ctor b) (FileDescriptor_ctor c))
     (\<lambda>_ t. wp (destroy_fds E ds) (\<lambda>_. Q ()) R t) R' (s\<lparr>trace := ?h\<rparr>)" for R'
    by (rule wp_take_over [of _ d]) (use assms in \<open>simp_all add: members_def\<close>)
  then show ?thesis
    unfolding forkParent_def wp_scoped wp_thenE [of "ipc E x" for x] by (simp add: ipc_def wp_simps)
qed

lemma wp_forked_child:
  assumes "members s = [FileDescriptor_ctor d, FileDescriptor_ctor invalid_fd, FileDescriptor_ctor invalid_fd, FileDescriptor_ctor invalid_fd]"
    and "0 \<le> a" "0 \<le> b" "0 \<le> c" "0 \<le> d" and "distinct ([a, b, c, d] @ owned ds)"
    and "accounts (trace s) (set (owned ds) \<union> {a, b, c, d})"
    and "\<And>h. forked_inv (s\<lparr>sk_fd := FileDescriptor_ctor a, fk_pipe := FileDescriptor_ctor b,
        fk_named_pipe := FileDescriptor_ctor c, fk_mq := fk_peer_mq s, fk_peer_mq := fk_mq s, trace := h\<rparr>) \<Longrightarrow>
      Q () (s\<lparr>sk_fd := FileDescriptor_ctor a, fk_pipe := FileDescriptor_ctor b,
        fk_named_pipe := FileDescriptor_ctor c, fk_mq := fk_peer_mq s, fk_peer_mq := fk_mq s, trace := h\<rparr>)"
    and "\<And>e h. is_exception e \<longrightarrow> holds (members s) (s\<lparr>trace := h\<rparr>) \<Longrightarrow> R e (s\<lparr>trace := h\<rparr>)"
  shows "wp (scoped (forkChild E (FileDescriptor_ctor a) (FileDescriptor_ctor b) (FileDescriptor_ctor c)) (destroy_fds E ds)) Q R s"
proof -
  let ?take = "thenE (forked_take E (FileDescriptor_ctor a) (FileDescriptor_ctor b) (FileDescriptor_ctor c))
      (modify (\<lambda>s. s\<lparr>fk_mq := fk_peer_mq s, fk_peer_mq := fk_mq s\<rparr>))"
  let ?mine = "[FileDescriptor_ctor c, FileDescriptor_ctor b, FileDescriptor_ctor a]"
  let ?R = "\<lambda>e. if is_exception e then wp (destroy_fds E ds) (\<lambda>_. R e) (\<lambda>_. R Terminate) else R e"
  have take: "wp ?take (\<lambda>x. wp (destroy_fds E ds) (\<lambda>_. Q x) R) R' (s\<lparr>trace := h\<rparr>)"
    if h: "accounts h (set (owned ds) \<union> {a, b, c, d})" for R' h
    unfolding wp_thenE wp_modify
    by (rule wp_take_over [of _ d]) (use assms(1-6,8) h in \<open>simp_all add: members_def\<close>)
  have undo: "wp (destroy_fds E ?mine) (\<lambda>_. ?R e) (\<lambda>_. ?R Terminate) (s\<lparr>trace := h\<rparr>)"
    if h: "accounts h (set (owned ds) \<union> {a, b, c, d})" and e: "is_exception e" for h e
  proof (rule wp_destroy_fds [of "s\<lparr>trace := h\<rparr>" "set (owned ds) \<union> {a, b, c, d}"])
    fix h'
    have mine: "set (owned ds) \<union> {a, b, c, d} - set (owned ?mine) = set (owned ds) \<union> set (owned (members s))"
      using assms(1-6) by (auto simp: owned_def invalid_fd_def)
    assume "accounts h' (set (owned ds) \<union> {a, b, c, d} - set (owned ?mine))"
    then have h': "accounts h' (set (owned ds) \<union> set (owned (members s)))" unfolding mine .
    have d: "owned (members s) = [d]" using assms(1,5) by simp
    have "wp (destroy_fds E ds) (\<lambda>_. R e) (\<lambda>_. R Terminate) (s\<lparr>trace := h'\<rparr>)"
      by (rule wp_close_all [of _ "members s"]) (use h' assms(6,9) d in auto)
    then show "?R e (s\<lparr>trace := h, trace := h'\<rparr>)" using e by simp
  qed (use h assms(2-6) in auto)
  have q: "quiet (killChildOnParentDeath E :: ('a SocketUnixForked_scheme, unit) io)" by (rule quiet_intros)
  show ?thesis
    unfolding forkChild_def wp_scoped wp_thenE [of "on_unwind m n" for m n] wp_on_unwind
  proof (rule quiet_wp [OF q])
    fix t
    assume "neutral t"
    then show "wp ?take (\<lambda>x. wp (destroy_fds E ds) (\<lambda>_. Q x) R) ?R (s\<lparr>trace := t @ trace s\<rparr>)"
      using assms(7) by (intro take) simp
  next
    fix t e
    assume t: "neutral t"
    then have acc: "accounts (t @ trace s) (set (owned ds) \<union> {a, b, c, d})" using assms(7) by simp
    show "(if is_exception e then wp (destroy_fds E ?mine) (\<lambda>_. ?R e) (\<lambda>_. ?R Terminate) else ?R e)
        (s\<lparr>trace := t @ trace s\<rparr>)"
      using undo [OF acc, of e] assms(9) by (cases "is_exception e") simp_all
  qed
qed

text \<open>
  The fork: the parent keeps the second end of every channel, the child the first and the other's queue.
\<close>

abbreviation fresh_members :: "FD \<Rightarrow> FileDescriptor list" where
  "fresh_members d \<equiv> [FileDescriptor_ctor d, FileDescriptor_ctor invalid_fd, FileDescriptor_ctor invalid_fd,
     FileDescriptor_ctor invalid_fd]"

lemma wp_forked_fork:
  fixes E s
  defines "h0 \<equiv> (C_ipc I_getpid, os E (trace s) (C_ipc I_getpid)) # trace s"
  defines "fork_result \<equiv> rv (os E h0 (C_ipc I_fork))"
  assumes "checks_ok E" and m: "members s = fresh_members d"
    and n: "\<forall>x\<in>{a1, a2, b1, b2, c1, c2, d}. 0 \<le> x" and dist: "distinct [d, a1, a2, b1, b2, c1, c2]"
    and acc: "accounts (trace s) {a1, a2, b1, b2, c1, c2, d}"
    and parent: "\<And>h. fork_result \<noteq> 0 \<Longrightarrow> forked_inv (s\<lparr>sk_fd := FileDescriptor_ctor a2,
        fk_pipe := FileDescriptor_ctor b2, fk_named_pipe := FileDescriptor_ctor c2, trace := h\<rparr>) \<Longrightarrow>
      Q () (s\<lparr>sk_fd := FileDescriptor_ctor a2, fk_pipe := FileDescriptor_ctor b2,
        fk_named_pipe := FileDescriptor_ctor c2, trace := h\<rparr>)"
    and child: "\<And>h p. fork_result = 0 \<Longrightarrow> p = rv (os E (trace s) (C_ipc I_getpid)) \<Longrightarrow>
      forked_inv (s\<lparr>fk_parent := p, sk_fd := FileDescriptor_ctor a1, fk_pipe := FileDescriptor_ctor b1,
        fk_named_pipe := FileDescriptor_ctor c1, fk_mq := fk_peer_mq s, fk_peer_mq := fk_mq s, trace := h\<rparr>) \<Longrightarrow>
      Q () (s\<lparr>fk_parent := p, sk_fd := FileDescriptor_ctor a1, fk_pipe := FileDescriptor_ctor b1,
        fk_named_pipe := FileDescriptor_ctor c1, fk_mq := fk_peer_mq s, fk_peer_mq := fk_mq s, trace := h\<rparr>)"
    and R: "\<And>e t. is_exception e \<longrightarrow> holds (fresh_members d) t \<Longrightarrow> R e t"
  shows "wp (forked_fork E (FileDescriptor_ctor a1, FileDescriptor_ctor a2)
      (FileDescriptor_ctor b1, FileDescriptor_ctor b2) (FileDescriptor_ctor c1, FileDescriptor_ctor c2)) Q R s"
proof -
  let ?h = "(C_ipc I_fork, os E h0 (C_ipc I_fork)) # h0"
  have acc': "accounts ?h {a1, a2, b1, b2, c1, c2, d}" using acc by (simp add: h0_def)
  have om: "owned (fresh_members d) = [d]" using n by simp
  have failed: "wp (destroy_fds E [FileDescriptor_ctor c2, FileDescriptor_ctor c1, FileDescriptor_ctor b2,
        FileDescriptor_ctor b1, FileDescriptor_ctor a2, FileDescriptor_ctor a1]) (\<lambda>_. R e) (\<lambda>_. R Terminate) (s\<lparr>trace := ?h\<rparr>)" for e
    by (rule wp_close_all [of _ "fresh_members d"])
      (use m n dist acc' om R in \<open>auto simp: insert_commute\<close>)
  have par: "wp (scoped (forkParent E (FileDescriptor_ctor a2) (FileDescriptor_ctor b2) (FileDescriptor_ctor c2))
      (destroy_fds E [(FileDescriptor_ctor c2)\<lparr>should_close := False\<rparr>, FileDescriptor_ctor c1,
        (FileDescriptor_ctor b2)\<lparr>should_close := False\<rparr>, FileDescriptor_ctor b1,
        (FileDescriptor_ctor a2)\<lparr>should_close := False\<rparr>, FileDescriptor_ctor a1])) Q R (s\<lparr>trace := ?h\<rparr>)"
    if "fork_result \<noteq> 0"
    by (rule wp_forked_parent [of _ d]) (use m n dist acc' parent [OF that] in \<open>auto simp: insert_commute\<close>)
  have ch: "wp (scoped (forkChild E (FileDescriptor_ctor a1) (FileDescriptor_ctor b1) (FileDescriptor_ctor c1))
      (destroy_fds E [FileDescriptor_ctor c2, (FileDescriptor_ctor c1)\<lparr>should_close := False\<rparr>,
        FileDescriptor_ctor b2, (FileDescriptor_ctor b1)\<lparr>should_close := False\<rparr>,
        FileDescriptor_ctor a2, (FileDescriptor_ctor a1)\<lparr>should_close := False\<rparr>])) Q R
      (s\<lparr>trace := ?h, fk_parent := rv (os E (trace s) (C_ipc I_getpid))\<rparr>)"
    if "fork_result = 0"
    by (rule wp_forked_child [of _ d])
      (use m n dist acc' child [OF that refl] R in \<open>auto simp: insert_commute\<close>)
  show ?thesis
    using failed par ch R
    by (auto simp: forked_fork_def wp_bindE wp_sys h0_def [symmetric] fork_result_def wp_thenE [of "on_unwind p q" for p q]
        wp_thenE [of "modify f" for f] wp_modify wp_on_unwind wp_check checks_ok_eq [OF assms(3)] Let_def split_beta)
qed

lemma wp_forked_start:
  assumes "forked_good E" and "holds (fresh_members d) s" and "0 \<le> d"
    and "\<And>t. forked_inv t \<Longrightarrow> Q () t"
    and "\<And>e t. is_exception e \<longrightarrow> holds (fresh_members d) t \<Longrightarrow> R e t"
  shows "wp (forked_start E) Q R s"
proof -
  note g = forked_goodD [OF assms(1)]
  have m: "members s = fresh_members d" and acc: "accounts (trace s) {d}"
    using assms(2,3) by (simp_all add: holds_def)
  have om: "owned (fresh_members d) = [d]" using assms(3) by simp
  have step3: "wp (forked_fork E (FileDescriptor_ctor a1, FileDescriptor_ctor a2) (FileDescriptor_ctor b1, FileDescriptor_ctor b2)
      (FileDescriptor_ctor c1, FileDescriptor_ctor c2)) Q R (s\<lparr>trace := h\<rparr>)"
    if "\<forall>x\<in>{a1, a2, b1, b2, c1, c2}. 0 \<le> x" "distinct [d, a1, a2, b1, b2, c1, c2]"
      "accounts h {a1, a2, b1, b2, c1, c2, d}" for a1 a2 b1 b2 c1 c2 h
    by (rule wp_forked_fork [OF g(1)]) (use that m assms(3-5) in simp_all)
  have step2: "wp (bindE (on_unwind (createNamedPipe E) (destroy_fds E [FileDescriptor_ctor b2, FileDescriptor_ctor b1,
        FileDescriptor_ctor a2, FileDescriptor_ctor a1]))
      (forked_fork E (FileDescriptor_ctor a1, FileDescriptor_ctor a2) (FileDescriptor_ctor b1, FileDescriptor_ctor b2))) Q R (s\<lparr>trace := h\<rparr>)"
    if x: "\<forall>x\<in>{a1, a2, b1, b2}. 0 \<le> x" "distinct [d, a1, a2, b1, b2]" "accounts h {a1, a2, b1, b2, d}" for a1 a2 b1 b2 h
  proof -
    have undo: "wp (destroy_fds E [FileDescriptor_ctor b2, FileDescriptor_ctor b1, FileDescriptor_ctor a2,
        FileDescriptor_ctor a1]) (\<lambda>_. R e) (\<lambda>_. R Terminate) (s\<lparr>trace := h'\<rparr>)"
      if "accounts h' {a1, a2, b1, b2, d}" for e h'
      by (rule wp_close_all [of _ "fresh_members d"]) (use m om x that assms(5) in \<open>auto simp: insert_commute\<close>)
    show ?thesis
      unfolding wp_bindE wp_on_unwind
      by (rule wp_createNamedPipe [OF assms(1), of _ "{a1, a2, b1, b2, d}"])
        (use x step3 undo assms(5) in \<open>auto simp: insert_commute\<close>)
  qed
  have step1: "wp (bindE (on_unwind (createPipe E) (destroy_fds E [FileDescriptor_ctor a2, FileDescriptor_ctor a1])) (\<lambda>pp.
      bindE (on_unwind (createNamedPipe E) (destroy_fds E [snd pp, fst pp, FileDescriptor_ctor a2, FileDescriptor_ctor a1]))
        (forked_fork E (FileDescriptor_ctor a1, FileDescriptor_ctor a2) pp))) Q R (s\<lparr>trace := h\<rparr>)"
    if x: "\<forall>x\<in>{a1, a2}. 0 \<le> x" "distinct [d, a1, a2]" "accounts h {a1, a2, d}" for a1 a2 h
  proof -
    have undo: "wp (destroy_fds E [FileDescriptor_ctor a2, FileDescriptor_ctor a1]) (\<lambda>_. R e) (\<lambda>_. R Terminate)
        (s\<lparr>trace := h'\<rparr>)" if "accounts h' {a1, a2, d}" for e h'
      by (rule wp_close_all [of _ "fresh_members d"]) (use m om x that assms(5) in \<open>auto simp: insert_commute\<close>)
    show ?thesis
      unfolding wp_bindE [of "on_unwind (createPipe E) c" for c] wp_on_unwind
      by (rule wp_createPipe [OF assms(1), of _ "{a1, a2, d}"])
        (use x step2 undo assms(5) in \<open>auto simp: insert_commute\<close>)
  qed
  show ?thesis
    unfolding forked_start_def wp_bindE [of "createSocketPair E"]
    by (rule wp_createSocketPair [OF assms(1) acc])
      (use step1 assms(5) m om in \<open>auto simp: insert_commute holds_def\<close>)
qed


text \<open>
  \<open>settled\<close>: what the members own is what is open, so destroying them closes everything.
\<close>

definition settled :: "'z SocketUnixForked_scheme \<Rightarrow> bool" where
  "settled s \<longleftrightarrow> (\<exists>M. holds M s \<and> distinct (owned M))"

lemma settled_fresh: "holds (fresh_members d) s \<Longrightarrow> settled s"
  by (auto simp: settled_def owned_def invalid_fd_def intro!: exI [of _ "fresh_members d"])

lemma settled_inv: "forked_inv s \<Longrightarrow> settled s"
  using holds_forked_inv unfolding settled_def by blast

lemma wp_destroy_settled:
  "settled s \<Longrightarrow> wp (forked_destroy_members E) (\<lambda>_ t. accounts (trace t) {}) (\<lambda>_ _. False) s"
  unfolding settled_def using wp_forked_destroy_members by blast

lemma keeps_creation:
  "keeps (holds M) (createMessageQueues E)" "keeps (holds M) (createSysVSharedMemory E)"
  "keeps (holds M) (createNamedSemaphore E)" "keeps (holds M) (createUnnamedSemaphore E)"
  unfolding createMessageQueues_def createSysVSharedMemory_def createNamedSemaphore_def createUnnamedSemaphore_def
  by (intro keeps_intros keeps_modify; simp add: keeps_holds_quiet quiet_intros)+

lemma wp_createPosixSharedMemory:
  assumes "forked_good E" and "holds (fresh_members invalid_fd) s"
    and "\<And>t d. 0 \<le> d \<Longrightarrow> holds (fresh_members d) t \<Longrightarrow> Q () t"
    and "\<And>e t. is_exception e \<longrightarrow> settled t \<Longrightarrow> R e t"
  shows "wp (createPosixSharedMemory E) Q R s"
proof -
  note g = forked_goodD [OF assms(1)]
  let ?c = "C_shm_open shm_name"
  let ?d = "rv (os E (trace s) ?c)"
  let ?s = "s\<lparr>trace := (?c, os E (trace s) ?c) # trace s\<rparr>"
  have m: "members s = fresh_members invalid_fd" and acc: "accounts (trace s) {}"
    using assms(2) by (simp_all add: holds_def)
  let ?rest = "bindE (gets (\<lambda>s. raw_fd (fk_shm s))) (\<lambda>shm.
      thenE (ipc_check E (I_ftruncate shm shm_size) ''Truncate'' failedTruncate)
      (bindE (ipc_checked E (I_mmap shm shm_size) ''Mmap'' (\<lambda>r _. failedMmap (word_of_int r))) (\<lambda>p.
        modify (\<lambda>s. s\<lparr>fk_shm_mmap := word_of_int p\<rparr>))))"
  have rest: "wp ?rest Q R t" if "holds (fresh_members ?d) t" "0 \<le> ?d" for t
  proof -
    have k: "keeps (holds (fresh_members ?d)) ?rest"
      by (intro keeps_intros keeps_modify; simp add: keeps_holds_quiet quiet_intros)
    show ?thesis
      by (rule wp_mono [OF keepsD [OF k that(1)]])
        (use assms(3,4) that(2) in \<open>auto simp: safely_def settled_fresh\<close>)
  qed
  have none: "fk_shm s = FileDescriptor_ctor invalid_fd" using m by (simp add: members_def)
  show ?thesis
  proof (cases "0 \<le> ?d")
    case True
    have "accounts (trace ?s) {?d}" using accounts_opened [OF acc, of ?c "os E (trace s) ?c"] True by simp
    then have h: "holds (fresh_members ?d) (?s\<lparr>fk_shm := FileDescriptor_ctor ?d\<rparr>)"
      using m True by (simp add: holds_def members_def)
    show ?thesis
      unfolding createPosixSharedMemory_def wp_bindE wp_sys wp_checked
      using True none rest [OF h True]
      by (simp add: checks_ok_eq [OF g(1)] failedShmopen_def wp_bindE wp_gets wp_thenE wp_modify wp_return fd_move_assign_def fd_close_def
          FileDescriptor_ctor_def fd_dtor_def)
  next
    case False
    have "settled ?s"
      using assms(2) False accounts_opened [OF acc, of ?c "os E (trace s) ?c"]
      by (intro settled_fresh [of invalid_fd]) (simp add: holds_def)
    then show ?thesis
      unfolding createPosixSharedMemory_def wp_bindE wp_sys wp_checked
      using False assms(4) by (simp add: checks_ok_eq [OF g(1)] failedShmopen_def)
  qed
qed

text \<open>
  The constructor: on success four descriptors are open, each owned by one member; an exception leaves
  none open.
\<close>

lemma wp_forked_ctor:
  assumes "forked_good E" and "accounts (trace s) {}"
  shows "wp (forked_ctor E a) (\<lambda>_. forked_inv) (\<lambda>e t. is_exception e \<longrightarrow> accounts (trace t) {}) s"
proof -
  let ?R = "\<lambda>e t. is_exception e \<longrightarrow> settled t"
  let ?none = "fresh_members invalid_fd"
  have keep: "wp m Q ?R t" if "keeps (holds (fresh_members d)) m" "holds (fresh_members d) t"
      "\<And>x u. holds (fresh_members d) u \<Longrightarrow> Q x u" for m :: "('a SocketUnixForked_scheme, unit) io" and d Q t
    by (rule wp_mono [OF keepsD [OF that(1,2)]]) (use that(3) in \<open>auto simp: safely_def settled_fresh\<close>)
  have conf: "wp (bindE (gets (\<lambda>s. raw_fd (sk_fd s))) (Socket_configure E)) (\<lambda>_. forked_inv) ?R t"
    if "forked_inv t" for t :: "'a SocketUnixForked_scheme"
    unfolding wp_bindE wp_gets
    by (rule quiet_wp [OF quiet_Socket_configure]) (use that in \<open>auto intro!: settled_inv\<close>)
  have start: "wp (forked_start E) (\<lambda>_. wp (bindE (gets (\<lambda>s. raw_fd (sk_fd s))) (Socket_configure E)) (\<lambda>_. forked_inv) ?R) ?R t"
    if "holds (fresh_members d) t" "0 \<le> d" for t :: "'a SocketUnixForked_scheme" and d
    by (rule wp_forked_start [OF assms(1) that]) (auto intro: conf settled_fresh)
  have body: "wp (thenE (createMessageQueues E) (thenE (createPosixSharedMemory E) (thenE (createSysVSharedMemory E)
         (thenE (createNamedSemaphore E) (thenE (createUnnamedSemaphore E) (thenE (forked_start E)
           (bindE (gets (\<lambda>s. raw_fd (sk_fd s))) (Socket_configure E)))))))) (\<lambda>_. forked_inv) ?R t"
    if "holds ?none t" for t :: "'a SocketUnixForked_scheme"
    unfolding wp_thenE
    by (rule keep [OF keeps_creation(1) that], rule wp_createPosixSharedMemory [OF assms(1)], assumption)
      (rule keep [OF keeps_creation(2)] keep [OF keeps_creation(3)] keep [OF keeps_creation(4)] start
        | assumption)+
  show ?thesis
    unfolding forked_ctor_def Socket_ctor_def Socket_init_def forked_init_members_def
    apply (simp only: wp_thenE [of "thenE m n" for m n] wp_thenE [of "modify f" for f] wp_modify wp_return wp_on_unwind
      if_False not_True_eq_False)
    apply (rule wp_mono [OF body])
    using assms(2) by (auto simp: holds_def members_def intro: wp_mono [OF wp_destroy_settled])
qed


interpretation forked: socket_class forked_good forked_ctor forked_ops forked_dtor trace forked_inv
proof unfold_locales
  fix E a and s :: "'a SocketUnixForked_scheme"
  assume "forked_good E" and "accounts (trace s) {}"
  then show "wp (forked_ctor E a) (\<lambda>_. forked_inv) (\<lambda>e t. is_exception e \<longrightarrow> accounts (trace t) {}) s"
    by (rule wp_forked_ctor)
next
  fix E and m :: "('a SocketUnixForked_scheme, unit) io"
  assume "m \<in> forked_ops E"
  then show "keeps forked_inv m" by (rule keeps_forked_ops)
next
  fix E and s :: "'a SocketUnixForked_scheme"
  assume "forked_inv s"
  from wp_mono [OF wp_forked_dtor [OF this]]
  show "wp (forked_dtor E) (\<lambda>_ t. accounts (trace t) {}) (\<lambda>e _. \<not> is_exception e) s"
    by simp
qed

section \<open>An environment for the examples\<close>

text \<open>\<open>demo_fork pid\<close> is the concrete environment in which \<open>fork\<close> replies \<open>pid\<close>.\<close>

definition demo_fork :: "int \<Rightarrow> env" where
  "demo_fork pid = (demo_env 16 ''hi'' [])
     \<lparr>os := \<lambda>h c. if c = C_ipc I_fork then reply pid else if c = C_ipc (I_sem_open sem_name) then reply 4096
                    else demo_os ''hi'' [] h c,
      indeterminate := 77\<rparr>"

lemma demo_fork_sel [simp]:
  "os (demo_fork pid) h c = (if c = C_ipc I_fork then reply pid else if c = C_ipc (I_sem_open sem_name) then reply 4096
     else demo_os ''hi'' [] h c)"
  "indeterminate (demo_fork pid) = 77" "shuffled_ix (demo_fork pid) = (\<lambda>h n. [0..<n])"
  "check_outcome (demo_fork pid) = demo_check"
  by (simp_all add: demo_fork_def)

lemma demo_forked_good [simp]: "forked_good (demo_fork pid)"
proof -
  have f: "opened (c, os (demo_fork pid) h c) \<inter> live h = {}" for h c
    using demo_fresh_fds [of 16 "''hi''" "[]"] by (auto simp: fresh_fds_def)
  have p: "pairs_ok (demo_fork pid)"
    using next_fd_ge by (auto simp: pairs_ok_def intro: order_trans [of 0 3] order_trans [of 0 "3 + 1"] add_mono)
  have n: "0 \<le> next_fd h" for h using next_fd_ge [of h] by simp
  show ?thesis
    using f p n
    by (auto simp: forked_good_def descriptors_ok_def fresh_fds_def checks_ok_def demo_check_def demo_fork_def)
qed

end
