(* ===== verification/ForkedProcesses.thy ===== *)
theory ForkedProcesses
  imports ForkedDescriptors
begin

text \<open>
  What the two processes of a forked UNIX socket do: the calls of \<open>send\<close>, the ends parent and child are
  left with, and where the code goes wrong at the start, at the end and at a restart.
\<close>

section \<open>Sending\<close>

text \<open>The calls of a \<open>send\<close>, the message queue's priorities in the order \<open>prios\<close>.\<close>

definition send_calls :: "'z SocketUnixForked_scheme \<Rightarrow> string \<Rightarrow> nat list \<Rightarrow> call list" where
  "send_calls s msg prios =
     [C_send (raw_fd (sk_fd s)) msg, C_ipc (I_write (raw_fd (fk_pipe s)) msg),
      C_ipc (I_write (raw_fd (fk_named_pipe s)) msg)] @
     map (\<lambda>p. C_ipc (I_mq_send (fk_peer_mq s) msg p)) prios @
     [C_ipc (I_store (fk_shm_mmap s) (int (length msg))), C_ipc (I_sem_post (fk_sem_named s)),
      C_ipc (I_sem_getvalue (fk_sem_named s)), C_ipc (I_sem_getvalue (fk_sem_unnamed s)),
      C_ipc (I_store (fk_shm_shmat s) (int (length msg))), C_ipc (I_sem_post (fk_sem_unnamed s)),
      C_ipc (I_sem_getvalue (fk_sem_named s)), C_ipc (I_sem_getvalue (fk_sem_unnamed s))]"

lemma size_as_int [simp]: "n < 2 ^ 31 \<Longrightarrow> size_as_int n = int n"
  unfolding size_as_int_def
  by (simp add: sint_uint unsigned_of_nat signed_take_bit_int_eq_self take_bit_nat_eq_self of_nat_less_iff)

lemma script_send [script_intros]:
  "script s {[C_send (raw_fd (sk_fd s)) msg]} (sendOnSocketPair E msg)"
  "script s {[C_ipc (I_write (raw_fd (fk_pipe s)) msg)]} (sendOnPipe E msg)"
  "script s {[C_ipc (I_write (raw_fd (fk_named_pipe s)) msg)]} (sendOnNamedPipe E msg)"
  "script s {[C_ipc (I_store (fk_shm_mmap s) v)]} (setPosixSharedMemory E v)"
  "script s {[C_ipc (I_store (fk_shm_shmat s) v)]} (setSysVSharedMemory E v)"
  unfolding sendOnSocketPair_def sendOnPipe_def sendOnNamedPipe_def setPosixSharedMemory_def setSysVSharedMemory_def
  by (rule script_eq, (rule script_intros | simp; fail)+)+

lemma script_semaphores [script_intros]:
  "script s {[C_ipc (I_sem_getvalue (fk_sem_named s)), C_ipc (I_sem_getvalue (fk_sem_unnamed s))]} (printSemaphoreValues E)"
  "script s {[C_ipc (I_sem_post (fk_sem_named s)), C_ipc (I_sem_getvalue (fk_sem_named s)),
     C_ipc (I_sem_getvalue (fk_sem_unnamed s))]} (postNamedSemaphore E)"
  "script s {[C_ipc (I_sem_post (fk_sem_unnamed s)), C_ipc (I_sem_getvalue (fk_sem_named s)),
     C_ipc (I_sem_getvalue (fk_sem_unnamed s))]} (postUnnamedSemaphore E)"
  unfolding postNamedSemaphore_def postUnnamedSemaphore_def printSemaphoreValues_def
  by (rule script_eq, (rule script_intros | simp; fail)+)+

lemma script_sendOnMessageQueue:
  assumes "shuffle_ok E"
  shows "script s {map (\<lambda>p. C_ipc (I_mq_send (fk_peer_mq s) msg p)) prios |prios. mset prios = mset [0..<5]}
    (sendOnMessageQueue E msg)"
  unfolding sendOnMessageQueue_def
proof (rule script_bind_gets)
  fix h
  have one: "script s {[C_ipc (I_mq_send (fk_peer_mq s) msg p)]}
      (bindE (gets fk_peer_mq) (\<lambda>q. ipc_check E (I_mq_send q msg p) ''MqSend'' failedMqSend))" for p
    by (rule script_eq, (rule script_intros | simp; fail)+)
  have "mset (shuffled_ix E h 5) = mset [0..<5]" using assms by (simp add: shuffle_ok_def)
  then show "script s {map (\<lambda>p. C_ipc (I_mq_send (fk_peer_mq s) msg p)) prios |prios. mset prios = mset [0..<5]}
    (for_each (\<lambda>prio. bindE (gets fk_peer_mq) (\<lambda>q. ipc_check E (I_mq_send q msg prio) ''MqSend'' failedMqSend))
      (shuffled_ix E (trace (s\<lparr>trace := h\<rparr>)) 5))"
    by (intro script_mono [OF script_for_each [OF one]]) auto
qed


definition demo_forked :: "history \<Rightarrow> FileDescriptor list \<Rightarrow> SocketUnixForked" where
  "demo_forked h ds = \<lparr>trace = h, fds = {}, fd_max = 1, selected_fds = [], sk_fd = ds ! 0, sk_family = AF_UNIX,
     sk_type = SOCK_DGRAM, main_msg_buffer = [], fk_parent = 0, fk_pipe = ds ! 1, fk_named_pipe = ds ! 2,
     fk_mq = 20, fk_peer_mq = 21, fk_shm = ds ! 3, fk_shm_id = 0, fk_shm_mmap = 64, fk_shm_shmat = 128,
     fk_sem_named = 256, fk_sem_unnamed = 72\<rparr>"


section \<open>The two processes\<close>

text \<open>
  C12. The fork connects the two processes crosswise: whatever else differs between them, the one to
  which \<open>fork\<close> replies a process id keeps the second end of the socket pair and of both pipes, the one
  to which it replies 0 the first, and each sends to the message queue the other receives from. Each
  closes the ends it does not keep.
\<close>

theorem forked_processes_connected:
  assumes "checks_ok E" and "checks_ok E'"
    and "\<And>h. rv (os E h (C_ipc I_fork)) \<noteq> 0" and "\<And>h. rv (os E' h (C_ipc I_fork)) = 0"
    and "members s = fresh_members d" and "\<forall>x\<in>{a1, a2, b1, b2, c1, c2, d}. 0 \<le> x"
    and "distinct [d, a1, a2, b1, b2, c1, c2]" and "accounts (trace s) {a1, a2, b1, b2, c1, c2, d}"
  defines "ends \<equiv> \<lambda>E. forked_fork E (FileDescriptor_ctor a1, FileDescriptor_ctor a2)
      (FileDescriptor_ctor b1, FileDescriptor_ctor b2) (FileDescriptor_ctor c1, FileDescriptor_ctor c2)"
  shows "wp (ends E) (\<lambda>_ parent. wp (ends E') (\<lambda>_ child.
      forked_owns parent = [a2, b2, c2, d] \<and> live (trace parent) = {a2, b2, c2, d} \<and>
      forked_owns child = [a1, b1, c1, d] \<and> live (trace child) = {a1, b1, c1, d} \<and>
      fk_mq child = fk_peer_mq parent \<and> fk_peer_mq child = fk_mq parent) (\<lambda>_ _. True) s) (\<lambda>_ _. True) s"
  unfolding ends_def
proof (rule wp_forked_fork [OF assms(1,5-8)])
  fix h
  let ?p = "s\<lparr>sk_fd := FileDescriptor_ctor a2, fk_pipe := FileDescriptor_ctor b2, fk_named_pipe := FileDescriptor_ctor c2, trace := h\<rparr>"
  assume p: "forked_inv ?p"
  show "wp (forked_fork E' (FileDescriptor_ctor a1, FileDescriptor_ctor a2) (FileDescriptor_ctor b1, FileDescriptor_ctor b2)
      (FileDescriptor_ctor c1, FileDescriptor_ctor c2))
     (\<lambda>_ child. forked_owns ?p = [a2, b2, c2, d] \<and> live (trace ?p) = {a2, b2, c2, d} \<and>
      forked_owns child = [a1, b1, c1, d] \<and> live (trace child) = {a1, b1, c1, d} \<and>
      fk_mq child = fk_peer_mq ?p \<and> fk_peer_mq child = fk_mq ?p) (\<lambda>_ _. True) s"
  proof (rule wp_forked_fork [OF assms(2,5-8)])
    fix h' p
    let ?c = "s\<lparr>fk_parent := p, sk_fd := FileDescriptor_ctor a1, fk_pipe := FileDescriptor_ctor b1,
        fk_named_pipe := FileDescriptor_ctor c1, fk_mq := fk_peer_mq s, fk_peer_mq := fk_mq s, trace := h'\<rparr>"
    assume c: "forked_inv ?c"
    have "fk_shm s = FileDescriptor_ctor d" using assms(5) by (simp add: members_def)
    then show "forked_owns ?p = [a2, b2, c2, d] \<and> live (trace ?p) = {a2, b2, c2, d} \<and>
      forked_owns ?c = [a1, b1, c1, d] \<and> live (trace ?c) = {a1, b1, c1, d} \<and>
      fk_mq ?c = fk_peer_mq ?p \<and> fk_peer_mq ?c = fk_mq ?p"
      using p c by (simp add: forked_inv_def accounts_def forked_owns_def)
  qed (use assms(4) in simp_all)
qed (use assms(3) in simp_all)


definition demo_ends :: history where
  "demo_ends = [(C_open pipe_name True, reply 9), (C_open pipe_name False, reply 8), (C_pipe2, (reply 0)\<lparr>opair := (6, 7)\<rparr>),
     (C_socketpair AF_UNIX SOCK_DGRAM 0, (reply 0)\<lparr>opair := (4, 5)\<rparr>), (C_shm_open shm_name, reply 3)]"

theorem forked_processes_connected_witness:
  "let s = demo_forked demo_ends (map FileDescriptor_ctor [-1, -1, -1, 3]);
       ends = \<lambda>E. forked_fork E (FileDescriptor_ctor 4, FileDescriptor_ctor 5) (FileDescriptor_ctor 6, FileDescriptor_ctor 7)
         (FileDescriptor_ctor 8, FileDescriptor_ctor 9) in
   wp (ends (demo_fork 5)) (\<lambda>_ parent. wp (ends (demo_fork 0)) (\<lambda>_ child.
      forked_owns parent = [5, 7, 9, 3] \<and> live (trace parent) = {5, 7, 9, 3} \<and>
      forked_owns child = [4, 6, 8, 3] \<and> live (trace child) = {4, 6, 8, 3} \<and>
      fk_mq child = fk_peer_mq parent \<and> fk_peer_mq child = fk_mq parent) (\<lambda>_ _. True) s) (\<lambda>_ _. True) s"
  unfolding Let_def
  by (rule forked_processes_connected)
    (use forked_goodD(1) [OF demo_forked_good] in
      \<open>auto simp: members_def demo_forked_def accounts_def invalid_fd_def demo_ends_def\<close>)

text \<open>The member \<open>parent\<close> is assigned in the child only.\<close>

lemma keeps_parent_quiet: "quiet m \<Longrightarrow> keeps (\<lambda>t. fk_parent t = i) m"
  by (rule quiet_keeps) (auto simp: stable_def)

lemma keeps_parent_fd: "keeps (\<lambda>t. fk_parent t = i) (fd_close E d)" "keeps (\<lambda>t. fk_parent t = i) (fd_dtor E d)"
  "keeps (\<lambda>t. fk_parent t = i) (fd_move_assign E same d d')" "keeps (\<lambda>t. fk_parent t = i) (sys E c)"
  "keeps (\<lambda>t. fk_parent t = i) (destroy_fds E ds)"
proof -
  show s: "keeps (\<lambda>t. fk_parent t = i) (sys E c)" for c
    by (simp add: keeps_def wp_simps)
  show c: "keeps (\<lambda>t. fk_parent t = i) (fd_close E d)" for d
    unfolding fd_close_def by (intro keeps_intros s)
  show d: "keeps (\<lambda>t. fk_parent t = i) (fd_dtor E d)" for d
    unfolding fd_dtor_def by (intro keeps_intros c)
  show "keeps (\<lambda>t. fk_parent t = i) (fd_move_assign E same d d')"
    unfolding fd_move_assign_def by (intro keeps_intros c)
  show "keeps (\<lambda>t. fk_parent t = i) (destroy_fds E ds)"
    unfolding destroy_fds_def by (intro keeps_intros d)
qed

lemma keeps_parent_steps:
  "keeps (\<lambda>t. fk_parent t = i) (createMessageQueues E)" "keeps (\<lambda>t. fk_parent t = i) (createPosixSharedMemory E)"
  "keeps (\<lambda>t. fk_parent t = i) (createSysVSharedMemory E)" "keeps (\<lambda>t. fk_parent t = i) (createNamedSemaphore E)"
  "keeps (\<lambda>t. fk_parent t = i) (createUnnamedSemaphore E)" "keeps (\<lambda>t. fk_parent t = i) (createSocketPair E)"
  "keeps (\<lambda>t. fk_parent t = i) (createPipe E)" "keeps (\<lambda>t. fk_parent t = i) (createNamedPipe E)"
  "keeps (\<lambda>t. fk_parent t = i) (forkParent E fd pipe np)"
  unfolding createMessageQueues_def createPosixSharedMemory_def createSysVSharedMemory_def createNamedSemaphore_def
    createUnnamedSemaphore_def createSocketPair_def createPipe_def createNamedPipe_def forkParent_def forked_take_def split_beta
  by (intro keeps_intros keeps_modify keeps_parent_fd; simp add: keeps_parent_quiet quiet_intros)+


lemma keeps_parent_fork:
  assumes "\<And>h. rv (os E h (C_ipc I_fork)) \<noteq> 0"
  shows "keeps (\<lambda>t. fk_parent t = i) (forked_fork E sp pp np)"
proof (rule keepsI)
  fix s :: "'a SocketUnixForked_scheme"
  assume s: "fk_parent s = i"
  have k: "keeps (\<lambda>t. fk_parent t = i) (thenE (on_unwind (check E ''Fork'' (failedFork x)) (destroy_fds E ds))
      (scoped (forkParent E fd pipe named_pipe) (destroy_fds E ds')))" for x ds fd pipe named_pipe ds'
    by (intro keeps_intros keeps_parent_fd keeps_parent_steps) (simp add: keeps_parent_quiet quiet_intros)
  show "wp (forked_fork E sp pp np) (\<lambda>_ t. fk_parent t = i) (safely (\<lambda>t. fk_parent t = i)) s"
    unfolding forked_fork_def wp_bindE wp_sys
    using assms s by (simp add: Let_def split_beta keepsD [OF k])
qed

lemma forked_ctor_parent:
  assumes "forked_good E" and "accounts (trace s) {}" and "\<And>h. rv (os E h (C_ipc I_fork)) \<noteq> 0"
  shows "wp (forked_ctor E a) (\<lambda>_ t. forked_inv t \<and> fk_parent t = indeterminate E) (\<lambda>_ _. True) s"
proof -
  let ?I = "\<lambda>t. fk_parent t = indeterminate E"
  have start: "keeps ?I (forked_start E)"
    unfolding forked_start_def by (intro keeps_intros keeps_parent_steps keeps_parent_fork assms(3) keeps_parent_fd)
  have dm: "keeps ?I (forked_destroy_members E)"
    unfolding forked_destroy_members_def Socket_dtor_def
    by (intro keeps_intros keeps_modify keeps_parent_fd) simp
  have conf: "keeps ?I (bindE (gets (\<lambda>s. raw_fd (sk_fd s))) (Socket_configure E))"
    by (intro keeps_intros) (simp add: keeps_parent_quiet quiet_intros)
  have body: "keeps ?I (on_unwind
         (thenE (createMessageQueues E) (thenE (createPosixSharedMemory E) (thenE (createSysVSharedMemory E)
         (thenE (createNamedSemaphore E) (thenE (createUnnamedSemaphore E) (thenE (forked_start E)
           (bindE (gets (\<lambda>s. raw_fd (sk_fd s))) (Socket_configure E)))))))) (forked_destroy_members E))"
    by (intro keeps_intros keeps_parent_steps start conf dm)
  have "wp (forked_ctor E a) (\<lambda>_. ?I) (\<lambda>_ _. True) s"
    unfolding forked_ctor_def Socket_ctor_def Socket_init_def forked_init_members_def
    apply (simp only: wp_thenE [of "thenE m n" for m n] wp_thenE [of "modify f" for f] wp_modify wp_return
      if_False not_True_eq_False)
    by (rule wp_mono [OF keepsD [OF body]]) simp_all
  from wp_mono [OF wp_conj [OF forked.ctor_inv [OF assms(1,2)] this]] show ?thesis by auto
qed

text \<open>
  C15. The member \<open>parent\<close> of the parent process is never assigned: it takes itself for a child whenever
  the memory it was made in was not zero. Its destructor then sends SIGCHLD to whatever process has the
  number that was there.
\<close>

theorem forked_parent_signals_a_stranger:
  assumes "forked_good E" and "accounts (trace s) {}" and "\<And>h. rv (os E h (C_ipc I_fork)) \<noteq> 0"
    and "indeterminate E \<noteq> 0"
  shows "wp (forked_ctor E a) (\<lambda>_ t. isChild t \<and>
      wp (forked_dtor E) (\<lambda>_ u. C_ipc (I_kill (indeterminate E)) \<in> fst ` set (trace u)) (\<lambda>_ _. False) t) (\<lambda>_ _. True) s"
proof (rule wp_mono [OF forked_ctor_parent [OF assms(1-3)]])
  fix x and t :: "'a SocketUnixForked_scheme"
  assume t: "forked_inv t \<and> fk_parent t = indeterminate E"
  then have child: "isChild t" using assms(4) by (simp add: isChild_def)
  let ?K = "C_ipc (I_kill (indeterminate E))"
  have K: "?K \<in> set (cleanup_calls t)" using child t by (simp add: cleanup_calls_def)
  have "wp (forked_dtor E) (\<lambda>_ u. ?K \<in> fst ` set (trace u)) (\<lambda>_ _. False) t"
  proof (rule wp_mono [OF wp_forked_dtor [OF conjunct1 [OF t]]], elim conjE exE)
    fix x :: unit and u v h
    assume h: "trace u = v @ h" "map fst h = rev (cleanup_calls t) @ map fst (trace t)"
    have "?K \<in> set (map fst h)" unfolding h(2) using K by simp
    then show "?K \<in> fst ` set (trace u)" using h(1) by auto
  qed
  with child show "isChild t \<and> wp (forked_dtor E) (\<lambda>_ u. ?K \<in> fst ` set (trace u)) (\<lambda>_ _. False) t" by blast
qed simp


theorem forked_parent_signals_a_stranger_witness:
  "wp (forked_ctor (demo_fork 5) ()) (\<lambda>_ t. isChild t \<and>
      wp (forked_dtor (demo_fork 5)) (\<lambda>_ u. C_ipc (I_kill 77) \<in> fst ` set (trace u)) (\<lambda>_ _. False) t) (\<lambda>_ _. True)
     (demo_forked [] (replicate 4 (FileDescriptor_ctor invalid_fd)))"
  using forked_parent_signals_a_stranger [of "demo_fork 5" "demo_forked [] (replicate 4 (FileDescriptor_ctor invalid_fd))" "()"]
  by (simp add: accounts_def demo_forked_def)

section \<open>A construction that failed\<close>

text \<open>
  The name of the shared memory exists from a successful \<open>shm_open\<close> on until it is unlinked, and while
  it exists, \<open>shm_open\<close> with \<open>O_CREAT | O_EXCL\<close> fails.
\<close>

primrec shm_exists :: "history \<Rightarrow> bool" where
  "shm_exists [] = False"
| "shm_exists (e # h) = (fst e = C_shm_open shm_name \<and> 0 \<le> rv (snd e) \<or>
     fst e \<noteq> C_ipc (I_shm_unlink shm_name) \<and> shm_exists h)"

definition shm_excl :: "env \<Rightarrow> bool" where
  "shm_excl E \<longleftrightarrow> (\<forall>h. shm_exists h \<longrightarrow> rv (os E h (C_shm_open shm_name)) < 0)"

lemma shm_exists_append: "\<forall>e\<in>set u. fst e \<noteq> C_ipc (I_shm_unlink shm_name) \<Longrightarrow> shm_exists h \<Longrightarrow> shm_exists (u @ h)"
  by (induction u) auto

lemma shm_exists_made:
  "(C_shm_open shm_name, r) \<in> set u \<Longrightarrow> 0 \<le> rv r \<Longrightarrow> \<forall>e\<in>set u. fst e \<noteq> C_ipc (I_shm_unlink shm_name) \<Longrightarrow>
     shm_exists (u @ h)"
  by (induction u) auto

text \<open>The clean-up calls of the destructor are made by nobody else.\<close>

fun releases :: "call \<Rightarrow> bool" where
  "releases (C_ipc (I_mq_close q)) = True"
| "releases (C_ipc (I_sem_close p)) = True"
| "releases (C_ipc (I_sem_unlink n)) = True"
| "releases (C_ipc (I_sem_destroy p)) = True"
| "releases (C_ipc (I_munmap p n)) = True"
| "releases (C_ipc (I_shm_unlink n)) = True"
| "releases (C_ipc (I_shmdt p)) = True"
| "releases c = False"

lemma only_forked_ctor: "only (\<lambda>c. \<not> releases c) (forked_ctor E a)"
proof -
  note defs = forked_ctor_def Socket_ctor_def Socket_init_def forked_init_members_def createMessageQueues_def createPosixSharedMemory_def
    createSysVSharedMemory_def createNamedSemaphore_def createUnnamedSemaphore_def forked_start_def createSocketPair_def
    createPipe_def createNamedPipe_def forked_fork_def forkParent_def forkChild_def forked_take_def killChildOnParentDeath_def
    checkParentAlive_def Let_def split_beta
  have conf: "only (\<lambda>c. \<not> releases c) (Socket_configure E fd :: ('a SocketUnixForked_scheme, unit) io)" for fd
    unfolding Socket_configure_def configureReuseAddr_def configureNonBlockingMode_def configureDscp_def configureTTL_def
      SETSOCKOPT_def Let_def
    by (intro only_intros; simp)
  have sp: "only (\<lambda>c. \<not> releases c) (bindE (gets (\<lambda>s. C_socketpair (sk_family s) (sk_type s) default_protocol)) (\<lambda>c.
     bindE (sys E c) (\<lambda>r.
     thenE (check E ''Socketpair'' (failedSocketpair (rv r)))
       (return (FileDescriptor_ctor (fst (opair r)), FileDescriptor_ctor (snd (opair r)))))))"
    by (intro only_bind_gets only_bindE only_thenE only_basic only_sys) simp
  show ?thesis
    unfolding defs not_True_eq_False if_False
    by (intro only_intros only_modify only_close conf sp; simp)
qed


text \<open>While the name exists, every construction fails, and the name stays.\<close>

lemma forked_ctor_blocked:
  fixes t :: "'a SocketUnixForked_scheme"
  assumes "checks_ok E" and "shm_excl E" and that: "shm_exists (trace t)"
  shows "wp (forked_ctor E a) (\<lambda>_ _. False) (\<lambda>_ u. shm_exists (trace u)) t"
proof -
  let ?ex = "\<lambda>s. shm_exists (trace s)"
  have keep: "wp m (\<lambda>_. ?ex) (\<lambda>_. ?ex) t" if "only (\<lambda>c. \<not> releases c) m" "?ex t"
    for m :: "('a SocketUnixForked_scheme, unit) io" and t
  proof -
    note o = that(1)
    obtain u where "trace (snd (m t)) = u @ trace t" "\<forall>e\<in>set u. \<not> releases (fst e)"
      using o unfolding only_def by blast
    then show ?thesis
      unfolding wp_snd using that(2) by (metis releases.simps(6) shm_exists_append)
  qed
  have mq: "only (\<lambda>c. \<not> releases c) (createMessageQueues E :: ('a SocketUnixForked_scheme, unit) io)"
    unfolding createMessageQueues_def by (intro only_intros only_modify; simp)
  have dm: "only (\<lambda>c. \<not> releases c) (forked_destroy_members E :: ('a SocketUnixForked_scheme, unit) io)"
    by (rule only_close) simp
  have shm: "wp (createPosixSharedMemory E) (\<lambda>_ _. False) (\<lambda>_. ?ex) t"
    if "?ex t" for t :: "'a SocketUnixForked_scheme"
    unfolding createPosixSharedMemory_def wp_bindE wp_sys wp_checked
    using that assms(1,2) by (auto simp: checks_ok_eq shm_excl_def failedShmopen_def)
  have undo: "(if is_exception e then wp (forked_destroy_members E) (\<lambda>_. ?ex) (\<lambda>_. ?ex) else ?ex) t"
    if "?ex t" for e and t :: "'a SocketUnixForked_scheme"
    using keep [OF dm that] that by simp
  show ?thesis
    unfolding forked_ctor_def Socket_ctor_def Socket_init_def forked_init_members_def
    apply (simp only: wp_thenE [of "thenE m n" for m n] wp_thenE [of "modify f" for f] wp_modify wp_return wp_on_unwind
      if_False not_True_eq_False)
    apply (simp only: wp_thenE)
    apply (rule wp_mono [OF keep [OF mq]])
      apply (simp add: that)
     apply (rule wp_mono [OF shm], assumption, simp, rule undo, assumption)
    by (rule undo)
qed


definition demo_excl :: env where
  "demo_excl = (demo_env 16 [] [])
     \<lparr>os := \<lambda>h c. if c = C_shm_open shm_name \<and> shm_exists h then reply (-1) else demo_os [] [] h c\<rparr>"


text \<open>
  When the writing end of the named pipe cannot be opened, the descriptor of the reading end stays
  open and nobody owns it.
\<close>

theorem named_pipe_leaks:
  assumes "checks_ok E" and "accounts (trace s) L"
    and "\<And>h. rv (os E h (C_ipc (I_remove pipe_name))) = 0" and "\<And>h. rv (os E h (C_ipc (I_mkfifo pipe_name))) = 0"
    and "\<And>h. rv (os E h (C_open pipe_name False)) = n" and "0 \<le> n" and "\<And>h. rv (os E h (C_open pipe_name True)) < 0"
  shows "wp (createNamedPipe E) (\<lambda>_ _. False) (\<lambda>_ t. live (trace t) = insert n L) s"
proof -
  have w: "\<not> 0 \<le> rv (os E h (C_open pipe_name True))" for h using assms(7) by (simp add: not_le)
  show ?thesis
    using assms
    by (auto simp: createNamedPipe_def ipc_checked_def ipc_check_def wp_simps checks_ok_eq failed_defs accounts_def w)
qed

end
