(* ===== verification/SocketTcp.thy ===== *)
theory SocketTcp
  imports SocketClass
begin

text \<open>
  \<open>src/src/SocketTcp.cpp\<close>: the stream socket. Beside the listening descriptor it owns one
  descriptor per peer, in the map \<open>tcp_peers\<close> from descriptor to peer.
\<close>

record TcpPeer =
  peer_fd :: FileDescriptor
  peer_msg_buffer :: string
  peer_remote :: IPSocket
  should_reestablish :: bool

record SocketTcp = GuardedSocket +
  tcp_peers :: "(FD, TcpPeer) std_map"
  tcp_local :: string
  tcp_type :: socktype
  tcp_protocol :: int

section \<open>Methods\<close>

definition tcp_configure :: "env \<Rightarrow> FD \<Rightarrow> ('z SocketTcp_scheme, unit) io" where
  "tcp_configure E fd =
     thenE (Socket_configure E fd)
     (bindE (gets tcp_type) (\<lambda>type.
       if type = SOCK_STREAM then configureKeepAlive E fd 1 1 3 else return ()))"

definition tcp_bind :: "env \<Rightarrow> FD \<Rightarrow> IPSocket list \<Rightarrow> ('z SocketTcp_scheme, unit) io" where
  "tcp_bind E = Socket_bind E (Socket_getBoundAddresses E)"

text \<open>
  The constructor initialises the members in their declaration order; the member \<open>protocol\<close>
  has no initialiser and gets an indeterminate value.
\<close>

definition tcp_init_members :: "env \<Rightarrow> IPSocket list \<Rightarrow> socktype \<Rightarrow> ('z SocketTcp_scheme, unit) io" where
  "tcp_init_members E locals type =
     (case locals of
        [] \<Rightarrow> throw (Undefined ''front of an empty vector'')
      | local # _ \<Rightarrow> modify (\<lambda>s. s\<lparr>tcp_peers := [], peers_mtx := 0, tcp_local := addr local,
          tcp_type := type, tcp_protocol := indeterminate E\<rparr>))"

definition tcp_ctor :: "env \<Rightarrow> IPSocket list \<times> socktype \<Rightarrow> ('z SocketTcp_scheme, unit) io" where
  "tcp_ctor E = (\<lambda>(locals, type).
     thenE (Socket_ctor E locals type 0 AF_UNSPEC False)
       (on_unwind
         (thenE (tcp_init_members E locals type)
           (bindE (gets (\<lambda>s. raw_fd (sk_fd s))) (\<lambda>fd.
             thenE (tcp_configure E fd) (tcp_bind E fd locals))))
         (Socket_dtor E)))"

text \<open>The destructor destroys the peers, then the base class.\<close>

definition tcp_destroy_peers :: "env \<Rightarrow> ('z SocketTcp_scheme, unit) io" where
  "tcp_destroy_peers E =
     bindE (gets tcp_peers) (\<lambda>peers.
     thenE (for_each (\<lambda>p. fd_dtor E (peer_fd (snd p))) peers)
       (modify (\<lambda>s. s\<lparr>tcp_peers := []\<rparr>)))"

definition tcp_dtor :: "env \<Rightarrow> ('z SocketTcp_scheme, unit) io" where
  "tcp_dtor E = thenE (tcp_destroy_peers E) (Socket_dtor E)"

definition tcp_createConnectSocket :: "env \<Rightarrow> ('z SocketTcp_scheme, FileDescriptor) io" where
  "tcp_createConnectSocket E =
     bindE (gets (\<lambda>s. C_socket (sk_family s) (tcp_type s) (tcp_protocol s))) (\<lambda>c.
     bindE (sys E c) (\<lambda>r.
     bindE (checked E ''Socket'' (failedSocket (rv r)) (rv r)) (\<lambda>n.
     let fd = FileDescriptor_ctor n in
     on_unwind
       (thenE (tcp_configure E (raw_fd fd))
       (bindE (gets tcp_local) (\<lambda>local.
        thenE (tcp_bind E (raw_fd fd) [IPSocket_ctor E local any_port])
          (return fd))))
       (fd_dtor E fd))))"

text \<open>
  \<open>peers.emplace(fd, Peer{move(fd), buffers.get(), remote, should_reestablish})\<close>: when the
  key is there already, the new peer is destroyed with the descriptor it has taken over. What
  is left of the moved descriptor object is destroyed at the end of the scope.
\<close>

definition tcp_emplace :: "env \<Rightarrow> FileDescriptor \<Rightarrow> IPSocket \<Rightarrow> bool \<Rightarrow> ('z SocketTcp_scheme, unit) io" where
  "tcp_emplace E fd remote reestablish =
     bindE (gets (\<lambda>s. pool_get E (trace s) pool_buffer_size)) (\<lambda>buf.
     bindE (gets (\<lambda>s. raw_fd fd \<in> fst ` set (tcp_peers s))) (\<lambda>present.
     let (fd', moved) = fd_move fd in
     thenE
       (if present then fd_dtor E fd'
        else modify (\<lambda>s. s\<lparr>tcp_peers := map_emplace (raw_fd fd)
          \<lparr>peer_fd = fd', peer_msg_buffer = buf, peer_remote = remote, should_reestablish = reestablish\<rparr>
          (tcp_peers s)\<rparr>))
       (fd_dtor E moved)))"

definition tcp_connect_one :: "env \<Rightarrow> IPSocket \<Rightarrow> ('z SocketTcp_scheme, unit) io" where
  "tcp_connect_one E remote =
     bindE (tcp_createConnectSocket E) (\<lambda>fd.
     thenE (on_unwind (Socket_connect_fd E (raw_fd fd) remote) (fd_dtor E fd))
       (tcp_emplace E fd remote True))"

definition tcp_connect :: "env \<Rightarrow> IPSocket list \<Rightarrow> ('z SocketTcp_scheme, unit) io" where
  "tcp_connect E remotes = with_lock E (for_each (tcp_connect_one E) remotes)"

definition tcp_sendMessage :: "env \<Rightarrow> string \<Rightarrow> TcpPeer \<Rightarrow> ('z world_scheme, unit) io" where
  "tcp_sendMessage E msg peer =
     bindE (sys E (C_send (raw_fd (peer_fd peer)) msg)) (\<lambda>r. check E ''Send'' (failedSend (rv r)))"

definition tcp_send :: "env \<Rightarrow> string \<Rightarrow> ('z SocketTcp_scheme, unit) io" where
  "tcp_send E msg =
     with_lock E (bindE (gets tcp_peers) (for_each (\<lambda>p. tcp_sendMessage E msg (snd p))))"

definition tcp_selectFds :: "env \<Rightarrow> ('z SocketTcp_scheme, FD list) io" where
  "tcp_selectFds E =
     with_lock E
       (thenE FDSet_reset
       (bindE (gets (\<lambda>s. raw_fd (sk_fd s))) (\<lambda>fd.
        thenE (FDSet_set fd)
        (bindE (gets tcp_peers) (\<lambda>peers.
         thenE (for_each (\<lambda>p. FDSet_set (raw_fd (peer_fd (snd p)))) peers)
           (FDSet_select E select_timeout))))))"

text \<open>\<open>peers.at(fd)\<close> throws when there is no such peer.\<close>

definition tcp_peer_at :: "FD \<Rightarrow> ('z SocketTcp_scheme, TcpPeer) io" where
  "tcp_peer_at fd =
     bindE (gets (\<lambda>s. map_of (tcp_peers s) fd)) (\<lambda>p.
       case p of None \<Rightarrow> throw (Out_of_range ''map::at'') | Some peer \<Rightarrow> return peer)"

definition tcp_getBuffer :: "env \<Rightarrow> FD \<Rightarrow> ('z SocketTcp_scheme, string) io" where
  "tcp_getBuffer E fd =
     with_lock E (bindE (tcp_peer_at fd) (\<lambda>peer. return (peer_msg_buffer peer)))"

definition tcp_receiveMessage :: "env \<Rightarrow> FD \<Rightarrow> ('z SocketTcp_scheme, unit) io" where
  "tcp_receiveMessage E fd =
     bindE (tcp_getBuffer E fd) (\<lambda>msg_buffer.
     bindE (sys E (C_recv fd (length msg_buffer))) (\<lambda>r.
     thenE (check E ''Receive'' (failedReceive (rv r)))
     (bindE (lift_sum (store_received msg_buffer r)) (\<lambda>b.
       modify (\<lambda>s. s\<lparr>tcp_peers := map_update fd (\<lambda>p. p\<lparr>peer_msg_buffer := b\<rparr>) (tcp_peers s)\<rparr>)))))"

definition tcp_handleCommUp :: "env \<Rightarrow> ('z SocketTcp_scheme, unit) io" where
  "tcp_handleCommUp E =
     with_lock E (bindE (Socket_accept E) (\<lambda>(fd, remote). tcp_emplace E fd remote False))"

text \<open>\<open>remove\<close> takes the lock itself, also when its caller holds it.\<close>

definition tcp_erase :: "env \<Rightarrow> FD \<Rightarrow> ('z SocketTcp_scheme, unit) io" where
  "tcp_erase E fd =
     bindE (gets (\<lambda>s. map_of (tcp_peers s) fd)) (\<lambda>p.
       case p of
         None \<Rightarrow> return ()
       | Some peer \<Rightarrow>
           thenE (modify (\<lambda>s. s\<lparr>tcp_peers := map_erase fd (tcp_peers s)\<rparr>)) (fd_dtor E (peer_fd peer)))"

definition tcp_remove :: "env \<Rightarrow> FD \<Rightarrow> ('z SocketTcp_scheme, unit) io" where
  "tcp_remove E fd = with_lock E (tcp_erase E fd)"

definition tcp_handleGracefulShutdown :: "env \<Rightarrow> FD \<Rightarrow> ('z SocketTcp_scheme, unit) io" where
  "tcp_handleGracefulShutdown E fd =
     with_lock E (bindE (tcp_peer_at fd) (\<lambda>_. tcp_remove E fd))"

definition tcp_handleCommLost :: "env \<Rightarrow> FD \<Rightarrow> ('z SocketTcp_scheme, unit) io" where
  "tcp_handleCommLost E fd =
     with_lock E (bindE (tcp_peer_at fd) (\<lambda>peer.
       thenE (if should_reestablish peer then scheduleReestablishment E (peer_remote peer) else return ())
         (tcp_remove E fd)))"

text \<open>
  A message on the listening descriptor is a new connection. Otherwise the message is received
  (the \<open>runtime_error\<close> a failed receive throws means a lost connection); the empty message is
  a graceful shutdown; any other is logged with the address of its sender.
\<close>

definition tcp_handleMessage :: "env \<Rightarrow> FD \<Rightarrow> ('z SocketTcp_scheme, unit) io" where
  "tcp_handleMessage E fd =
     bindE (gets (\<lambda>s. raw_fd (sk_fd s))) (\<lambda>listening.
     if fd = listening then tcp_handleCommUp E
     else
       bindE (catch_runtime (thenE (tcp_receiveMessage E fd) (return False))
                (\<lambda>_. thenE (tcp_handleCommLost E fd) (return True))) (\<lambda>lost.
       if lost then return ()
       else
         bindE (tcp_getBuffer E fd) (\<lambda>b.
         let msg = c_str b in
         if msg = [] then tcp_handleGracefulShutdown E fd
         else bindE (Socket_getPeerAddresses E fd) (\<lambda>_. log_received E msg))))"

definition tcp_receive :: "env \<Rightarrow> ('z SocketTcp_scheme, unit) io" where
  "tcp_receive E = Socket_receive E (tcp_selectFds E) (tcp_handleMessage E)"

text \<open>What the program runs on a stream socket; the scheduler runs \<open>connect({remote})\<close>.\<close>

definition tcp_ops :: "env \<Rightarrow> ('z SocketTcp_scheme, unit) io set" where
  "tcp_ops E = range (Socket_listen E) \<union> range (tcp_connect E) \<union> range (tcp_send E) \<union> {tcp_receive E}"

section \<open>Invariant\<close>

text \<open>
  The map is ordered, its keys are the descriptors its peers own, the listening descriptor is
  none of them, and the descriptors opened and not closed are exactly these.
\<close>

definition peer_ok :: "FD \<times> TcpPeer \<Rightarrow> bool" where
  "peer_ok p \<longleftrightarrow> 0 \<le> fst p \<and> peer_fd (snd p) = FileDescriptor_ctor (fst p)"

definition tcp_shape :: "FD set \<Rightarrow> 'z SocketTcp_scheme \<Rightarrow> bool" where
  "tcp_shape L s \<longleftrightarrow> std_map_ok (tcp_peers s) \<and> (\<forall>p\<in>set (tcp_peers s). peer_ok p) \<and>
     (\<exists>n. 0 \<le> n \<and> sk_fd s = FileDescriptor_ctor n \<and> n \<notin> fst ` set (tcp_peers s) \<and>
        L = insert n (fst ` set (tcp_peers s)))"

definition tcp_inv :: "'z SocketTcp_scheme \<Rightarrow> bool" where
  "tcp_inv s \<longleftrightarrow> (\<exists>L. tcp_shape L s \<and> accounts (trace s) L)"

lemma tcp_shape_other [simp]:
  "tcp_shape L (s\<lparr>trace := h\<rparr>) = tcp_shape L s" "tcp_shape L (s\<lparr>peers_mtx := k\<rparr>) = tcp_shape L s"
  "tcp_shape L (s\<lparr>fds := F\<rparr>) = tcp_shape L s" "tcp_shape L (s\<lparr>fd_max := m\<rparr>) = tcp_shape L s"
  "tcp_shape L (s\<lparr>selected_fds := l\<rparr>) = tcp_shape L s"
  by (simp_all add: tcp_shape_def)

lemma tcp_invE:
  assumes "tcp_inv s"
  obtains L where "tcp_shape L s" and "accounts (trace s) L"
  using assms by (auto simp: tcp_inv_def)

lemma tcp_inv_trace: "tcp_shape L s \<Longrightarrow> accounts h L \<Longrightarrow> tcp_inv (s\<lparr>trace := h\<rparr>)"
  by (auto simp: tcp_inv_def)

lemma tcp_inv_stable: "stable tcp_inv"
  by (auto simp: stable_def tcp_inv_def)

lemma tcp_inv_other [simp]:
  "tcp_inv (s\<lparr>peers_mtx := k\<rparr>) = tcp_inv s" "tcp_inv (s\<lparr>fds := F\<rparr>) = tcp_inv s"
  "tcp_inv (s\<lparr>fd_max := m\<rparr>) = tcp_inv s" "tcp_inv (s\<lparr>selected_fds := l\<rparr>) = tcp_inv s"
  by (simp_all add: tcp_inv_def)

lemma keeps_tcp_lock [keeps_intros]: "keeps tcp_inv m \<Longrightarrow> keeps tcp_inv (with_lock E m)"
  by (rule keeps_with_lock) simp_all

lemma keeps_tcp_quiet: "quiet m \<Longrightarrow> keeps tcp_inv m"
  by (rule quiet_keeps [OF _ tcp_inv_stable])

lemma keeps_tcp_set [keeps_intros]:
  "keeps tcp_inv FDSet_reset" "keeps tcp_inv (FDSet_set fd)" "keeps tcp_inv (FDSet_select E t)"
  unfolding FDSet_reset_def FDSet_set_def FDSet_select_def FDSet_selectImpl_def
  by (intro keeps_intros keeps_modify keeps_tcp_quiet quiet_intros; simp)+

lemma quiet_tcp [quiet_intros]:
  "quiet (tcp_configure E fd)" "quiet (tcp_bind E fd locals)"
  "quiet (tcp_sendMessage E msg peer)"
  unfolding tcp_configure_def tcp_bind_def tcp_sendMessage_def
  by (intro quiet_intros; simp)+

lemma keeps_tcp_peer_at [keeps_intros]: "keeps tcp_inv (tcp_peer_at fd)"
  unfolding tcp_peer_at_def
  by (intro keeps_bindE keeps_gets) (auto intro: keeps_intros split: option.split)

lemma keeps_tcp_update: "keeps tcp_inv (modify (\<lambda>s. s\<lparr>tcp_peers :=
    map_update fd (\<lambda>p. p\<lparr>peer_msg_buffer := b\<rparr>) (tcp_peers s)\<rparr>))"
proof (rule keeps_modify)
  fix s :: "'a SocketTcp_scheme"
  assume "tcp_inv s"
  then obtain L where "tcp_shape L s" "accounts (trace s) L" by (rule tcp_invE)
  moreover have keys: "fst ` set (map_update fd (\<lambda>p. p\<lparr>peer_msg_buffer := b\<rparr>) (tcp_peers s)) = fst ` set (tcp_peers s)"
    by (metis map_fst_update set_map)
  moreover have "\<forall>p\<in>set (map_update fd (\<lambda>p. p\<lparr>peer_msg_buffer := b\<rparr>) (tcp_peers s)). peer_ok p"
    using \<open>tcp_shape L s\<close> by (auto simp: tcp_shape_def map_update_def peer_ok_def)
  then have "tcp_shape L (s\<lparr>tcp_peers := map_update fd (\<lambda>p. p\<lparr>peer_msg_buffer := b\<rparr>) (tcp_peers s)\<rparr>)"
    using \<open>tcp_shape L s\<close> keys by (simp add: tcp_shape_def std_map_ok_update)
  ultimately show "tcp_inv (s\<lparr>tcp_peers := map_update fd (\<lambda>p. p\<lparr>peer_msg_buffer := b\<rparr>) (tcp_peers s)\<rparr>)"
    by (auto simp: tcp_inv_def)
qed

text \<open>Ownership moves from a local object into the map, or is given up, without a gap.\<close>

lemma tcp_shape_emplace:
  assumes "tcp_shape L s" and "0 \<le> n" and "n \<notin> L" and "peer_fd p = FileDescriptor_ctor n"
  shows "tcp_shape (insert n L) (s\<lparr>tcp_peers := map_emplace n p (tcp_peers s)\<rparr>)"
  using assms
  by (auto simp: tcp_shape_def std_map_ok_emplace std_map.set_emplace keys_map_emplace peer_ok_def
      insert_commute)

lemma wp_tcp_emplace:
  assumes "tcp_shape L s" and "0 \<le> n" and "n \<notin> L"
    and "\<And>p. peer_fd p = FileDescriptor_ctor n \<Longrightarrow> peer_remote p = remote \<Longrightarrow>
      should_reestablish p = re \<Longrightarrow> Q () (s\<lparr>tcp_peers := map_emplace n p (tcp_peers s)\<rparr>)"
  shows "wp (tcp_emplace E (FileDescriptor_ctor n) remote re) Q R s"
proof -
  have "n \<notin> fst ` set (tcp_peers s)" using assms(1,3) by (auto simp: tcp_shape_def)
  then show ?thesis
    by (simp add: tcp_emplace_def Let_def split_beta wp_simps assms(4))
qed

lemma wp_tcp_createConnectSocket:
  assumes "descriptors_ok E" and "accounts (trace s) L"
    and "\<And>h n. 0 \<le> n \<Longrightarrow> n \<notin> L \<Longrightarrow> accounts h (insert n L) \<Longrightarrow>
      Q (FileDescriptor_ctor n) (s\<lparr>trace := h\<rparr>)"
    and "\<And>e h. is_exception e \<longrightarrow> accounts h L \<Longrightarrow> R e (s\<lparr>trace := h\<rparr>)"
  shows "wp (tcp_createConnectSocket E) Q R s"
proof -
  let ?c = "C_socket (sk_family s) (tcp_type s) (tcp_protocol s)"
  let ?r = "os E (trace s) ?c"
  let ?h = "(?c, ?r) # trace s"
  have ok: "checks_ok E" and fr: "fresh_fds E" using assms(1) by (auto simp: descriptors_ok_def)
  have fresh: "0 \<le> rv ?r \<Longrightarrow> rv ?r \<notin> L"
    using fr assms(2) by (auto simp: fresh_fds_def accounts_def dest!: spec [of _ "trace s"] spec [of _ ?c])
  have opn: "0 \<le> rv ?r \<Longrightarrow> accounts ?h (insert (rv ?r) L)"
    using assms(2) by (intro accounts_open) auto
  have bad: "rv ?r < 0 \<Longrightarrow> accounts ?h L"
    using assms(2) by (simp add: accounts_def)
  have body: "wp (on_unwind
       (thenE (tcp_configure E (rv ?r))
       (bindE (gets tcp_local) (\<lambda>local.
        thenE (tcp_bind E (rv ?r) [IPSocket_ctor E local any_port])
          (return (FileDescriptor_ctor (rv ?r))))))
       (fd_dtor E (FileDescriptor_ctor (rv ?r)))) Q R (s\<lparr>trace := ?h\<rparr>)" if n: "0 \<le> rv ?r"
  proof -
    have undo: "wp (fd_dtor E (FileDescriptor_ctor (rv ?r))) (\<lambda>_. R e) (\<lambda>_. R Terminate)
        (s\<lparr>trace := t @ ?h\<rparr>)" if "neutral t" for t e
      by (rule wp_fd_dtor [of _ "insert (rv ?r) L"])
        (use that opn fresh n assms(4) in \<open>auto simp: insert_Diff_if\<close>)
    have stop: "(if is_exception e then wp (fd_dtor E (FileDescriptor_ctor (rv ?r))) (\<lambda>_. R e) (\<lambda>_. R Terminate)
        else R e) (s\<lparr>trace := t @ ?h\<rparr>)" if "neutral t" for t e
      using undo [OF that] assms(4) by auto
    have "quiet (thenE (tcp_bind E (rv ?r) [IPSocket_ctor E local any_port])
          (return (FileDescriptor_ctor (rv ?r))))" for local
      by (intro quiet_intros)
    show ?thesis
      unfolding wp_on_unwind wp_thenE wp_bindE wp_gets wp_return
      apply (rule quiet_wp [OF quiet_tcp(1)])
       apply (rule quiet_wp [OF quiet_tcp(2)])
        using opn fresh n assms(3) apply (simp add: append_assoc [symmetric] del: append_assoc)
       using stop apply (simp add: append_assoc [symmetric] del: append_assoc)
      using stop apply simp
      done
  qed
  show ?thesis
    using body bad assms(4)
    by (auto simp: tcp_createConnectSocket_def wp_simps checks_ok_eq [OF ok] Let_def not_less)
qed

text \<open>A connection owns one fresh descriptor more, or, when it fails, nothing more.\<close>

lemma wp_tcp_connect_one:
  assumes "descriptors_ok E" and "tcp_shape L s" and "accounts (trace s) L"
    and "\<And>h n p. 0 \<le> n \<Longrightarrow> n \<notin> L \<Longrightarrow> accounts h (insert n L) \<Longrightarrow>
      peer_fd p = FileDescriptor_ctor n \<Longrightarrow> peer_remote p = remote \<Longrightarrow> should_reestablish p \<Longrightarrow>
      Q () (s\<lparr>trace := h, tcp_peers := map_emplace n p (tcp_peers s)\<rparr>)"
    and "\<And>e h. is_exception e \<longrightarrow> accounts h L \<Longrightarrow> R e (s\<lparr>trace := h\<rparr>)"
  shows "wp (tcp_connect_one E remote) Q R s"
proof -
  have conn: "wp (thenE (on_unwind (Socket_connect_fd E n remote) (fd_dtor E (FileDescriptor_ctor n)))
       (tcp_emplace E (FileDescriptor_ctor n) remote True)) Q R (s\<lparr>trace := h\<rparr>)"
    if n: "0 \<le> n" "n \<notin> L" and h: "accounts h (insert n L)" for n h
  proof -
    have undo: "wp (fd_dtor E (FileDescriptor_ctor n)) (\<lambda>_. R e) (\<lambda>_. R Terminate)
        (s\<lparr>trace := t @ h\<rparr>)" if "neutral t" for t e
      by (rule wp_fd_dtor [of _ "insert n L"])
        (use that n h assms(5) in \<open>auto simp: insert_Diff_if\<close>)
    have emp: "wp (tcp_emplace E (FileDescriptor_ctor n) remote True) Q R
        (s\<lparr>trace := t @ h\<rparr>)" if "neutral t" for t
      by (rule wp_tcp_emplace [of L]) (use that n h assms(2,4) in auto)
    show ?thesis
      unfolding wp_thenE wp_on_unwind
      by (rule quiet_wp [OF quiet_Socket_connect_fd]) (use undo emp assms(5) in auto)
  qed
  show ?thesis
    unfolding tcp_connect_one_def wp_bindE
    by (rule wp_tcp_createConnectSocket [OF assms(1,3)]) (use conn assms(5) in auto)
qed

lemma keeps_tcp_connect_one:
  assumes "descriptors_ok E"
  shows "keeps tcp_inv (tcp_connect_one E remote)"
proof (rule keepsI)
  fix s :: "'a SocketTcp_scheme"
  assume "tcp_inv s"
  then obtain L where L: "tcp_shape L s" "accounts (trace s) L" by (rule tcp_invE)
  show "wp (tcp_connect_one E remote) (\<lambda>_. tcp_inv) (safely tcp_inv) s"
  proof (rule wp_tcp_connect_one [OF assms L])
    fix h n and p :: TcpPeer
    assume "0 \<le> n" "n \<notin> L" "accounts h (insert n L)" "peer_fd p = FileDescriptor_ctor n"
    then show "tcp_inv (s\<lparr>trace := h, tcp_peers := map_emplace n p (tcp_peers s)\<rparr>)"
      using tcp_shape_emplace [of L "s\<lparr>trace := h\<rparr>" n p] L(1) by (auto simp: tcp_inv_def)
  qed (use L(1) in \<open>auto simp: safely_def intro: tcp_inv_trace\<close>)
qed

section \<open>Every operation keeps the invariant\<close>

lemma keeps_tcp_connect: "descriptors_ok E \<Longrightarrow> keeps tcp_inv (tcp_connect E remotes)"
  unfolding tcp_connect_def by (intro keeps_intros keeps_tcp_connect_one)

lemma keeps_tcp_handleCommUp:
  assumes "descriptors_ok E"
  shows "keeps tcp_inv (tcp_handleCommUp E)"
  unfolding tcp_handleCommUp_def
proof (rule keeps_tcp_lock, rule keepsI)
  fix s :: "'a SocketTcp_scheme"
  assume "tcp_inv s"
  then obtain L where L: "tcp_shape L s" "accounts (trace s) L" by (rule tcp_invE)
  have emp: "wp (tcp_emplace E (FileDescriptor_ctor n) remote False) (\<lambda>_. tcp_inv) (safely tcp_inv)
      (s\<lparr>trace := h\<rparr>)" if "0 \<le> n" "n \<notin> L" "accounts h (insert n L)" for n h remote
    by (rule wp_tcp_emplace [of L])
      (use that L(1) tcp_shape_emplace [of L "s\<lparr>trace := h\<rparr>" n] in \<open>auto simp: tcp_inv_def\<close>)
  show "wp (bindE (Socket_accept E) (\<lambda>(fd, remote). tcp_emplace E fd remote False))
      (\<lambda>_. tcp_inv) (safely tcp_inv) s"
    unfolding wp_bindE
    by (rule wp_Socket_accept [OF _ _ L(2)])
      (use assms emp L(1) in \<open>auto simp: descriptors_ok_def safely_def intro: tcp_inv_trace\<close>)
qed

lemma tcp_shape_erase:
  assumes "tcp_shape L s" and "map_of (tcp_peers s) fd = Some peer"
  shows "peer_fd peer = FileDescriptor_ctor fd" and "0 \<le> fd" and "fd \<in> L"
    and "tcp_shape (L - {fd}) (s\<lparr>tcp_peers := map_erase fd (tcp_peers s)\<rparr>)"
proof -
  have m: "(fd, peer) \<in> set (tcp_peers s)" using assms(2) by (rule map_of_SomeD)
  have p: "peer_ok (fd, peer)" and k: "fd \<in> fst ` set (tcp_peers s)"
    using assms(1) m by (auto simp: tcp_shape_def intro: rev_image_eqI)
  from p show "peer_fd peer = FileDescriptor_ctor fd" and "0 \<le> fd" by (simp_all add: peer_ok_def)
  from k assms(1) show "fd \<in> L" by (auto simp: tcp_shape_def)
  have "fst ` set (map_erase fd (tcp_peers s)) = fst ` set (tcp_peers s) - {fd}"
    using assms(1) by (intro std_map.keys_erase) (simp add: tcp_shape_def)
  moreover have "\<forall>p\<in>set (map_erase fd (tcp_peers s)). peer_ok p"
    using assms(1) by (simp add: tcp_shape_def map_erase_def)
  ultimately show "tcp_shape (L - {fd}) (s\<lparr>tcp_peers := map_erase fd (tcp_peers s)\<rparr>)"
    using assms(1) k by (auto simp: tcp_shape_def std_map_ok_erase)
qed

lemma keeps_tcp_erase [keeps_intros]: "keeps tcp_inv (tcp_erase E fd)"
proof (rule keepsI)
  fix s :: "'a SocketTcp_scheme"
  assume "tcp_inv s"
  then obtain L where L: "tcp_shape L s" "accounts (trace s) L" by (rule tcp_invE)
  show "wp (tcp_erase E fd) (\<lambda>_. tcp_inv) (safely tcp_inv) s"
  proof (cases "map_of (tcp_peers s) fd")
    case None
    then show ?thesis using \<open>tcp_inv s\<close> by (simp add: tcp_erase_def wp_simps)
  next
    case (Some peer)
    note e = tcp_shape_erase [OF L(1) Some]
    have "wp (fd_dtor E (peer_fd peer)) (\<lambda>_. tcp_inv) (safely tcp_inv)
        (s\<lparr>tcp_peers := map_erase fd (tcp_peers s)\<rparr>)"
      by (rule wp_fd_dtor [of _ L])
        (use e L(2) tcp_inv_trace [OF e(4)] in auto)
    then show ?thesis using Some by (simp add: tcp_erase_def wp_simps)
  qed
qed

lemma keeps_tcp_remove [keeps_intros]: "keeps tcp_inv (tcp_remove E fd)"
  unfolding tcp_remove_def by (intro keeps_intros)

lemma keeps_tcp_getBuffer [keeps_intros]: "keeps tcp_inv (tcp_getBuffer E fd)"
  unfolding tcp_getBuffer_def by (intro keeps_intros)

lemma keeps_tcp_receiveMessage [keeps_intros]: "keeps tcp_inv (tcp_receiveMessage E fd)"
  unfolding tcp_receiveMessage_def
  by (intro keeps_intros keeps_tcp_update keeps_tcp_quiet quiet_intros) simp

lemma keeps_tcp_handlers [keeps_intros]:
  "keeps tcp_inv (tcp_handleGracefulShutdown E fd)" "keeps tcp_inv (tcp_handleCommLost E fd)"
  unfolding tcp_handleGracefulShutdown_def tcp_handleCommLost_def
  by (intro keeps_intros keeps_tcp_quiet quiet_intros)+

lemma keeps_tcp_handleMessage: "descriptors_ok E \<Longrightarrow> keeps tcp_inv (tcp_handleMessage E fd)"
  unfolding tcp_handleMessage_def Let_def
  by (intro keeps_intros keeps_tcp_handleCommUp) (auto intro: keeps_tcp_quiet quiet_intros)

lemma keeps_tcp_selectFds [keeps_intros]: "keeps tcp_inv (tcp_selectFds E)"
  unfolding tcp_selectFds_def by (intro keeps_intros)

lemma keeps_tcp_receive: "descriptors_ok E \<Longrightarrow> keeps tcp_inv (tcp_receive E)"
  unfolding tcp_receive_def
  by (intro keeps_Socket_receive keeps_tcp_selectFds keeps_tcp_handleMessage)

lemma keeps_tcp_send: "keeps tcp_inv (tcp_send E msg)"
  unfolding tcp_send_def by (intro keeps_intros) (intro keeps_tcp_quiet quiet_intros)

lemma keeps_tcp_ops: "descriptors_ok E \<Longrightarrow> m \<in> tcp_ops E \<Longrightarrow> keeps tcp_inv m"
  unfolding tcp_ops_def
  using keeps_tcp_connect keeps_tcp_send keeps_tcp_receive keeps_tcp_quiet [OF quiet_Socket_listen]
  by fastforce

section \<open>Construction and destruction\<close>

lemma wp_tcp_ctor:
  assumes "descriptors_ok E" and "accounts (trace s) {}"
    and "\<And>t. tcp_inv t \<Longrightarrow> tcp_peers t = [] \<Longrightarrow> peers_mtx t = 0 \<Longrightarrow> tcp_protocol t = indeterminate E \<Longrightarrow>
      tcp_type t = snd lt \<Longrightarrow> Q () t"
    and "\<And>e t. is_exception e \<longrightarrow> accounts (trace t) {} \<Longrightarrow> R e t"
  shows "wp (tcp_ctor E lt) Q R s"
proof -
  obtain locals type where lt: "lt = (locals, type)" by force
  show ?thesis
    unfolding tcp_ctor_def lt prod.case
  proof (rule wp_construct [OF assms(1,2)])
    fix t :: "'a SocketTcp_scheme" and n
    assume t: "0 \<le> n" "sk_fd t = FileDescriptor_ctor n" "accounts (trace t) {n}"
    show "wp (thenE (tcp_init_members E locals type)
           (bindE (gets (\<lambda>s. raw_fd (sk_fd s))) (\<lambda>fd.
             thenE (tcp_configure E fd) (tcp_bind E fd locals)))) Q
         (\<lambda>e u. is_exception e \<longrightarrow> sk_fd u = FileDescriptor_ctor n \<and> accounts (trace u) {n}) t"
    proof (cases locals)
      case Nil
      then show ?thesis by (simp add: tcp_init_members_def wp_simps)
    next
      case (Cons local rest)
      let ?t = "t\<lparr>tcp_peers := [], peers_mtx := 0, tcp_local := addr local, tcp_type := type,
        tcp_protocol := indeterminate E\<rparr>"
      have q: "quiet (thenE (tcp_configure E n) (tcp_bind E n locals))"
        by (intro quiet_intros)
      have inv: "tcp_inv (?t\<lparr>trace := h\<rparr>)" if "accounts h {n}" for h
        using t that by (auto simp: tcp_inv_def tcp_shape_def std_map_ok_def)
      have "wp (thenE (tcp_configure E n) (tcp_bind E n locals)) Q
         (\<lambda>e u. is_exception e \<longrightarrow> sk_fd u = FileDescriptor_ctor n \<and> accounts (trace u) {n}) ?t"
        by (rule quiet_wp [OF q])
          (use assms(3) [OF inv] t lt in auto)
      then show ?thesis
        unfolding Cons tcp_init_members_def list.case wp_thenE [of "modify f" for f] wp_modify
          wp_bindE [of "gets f" for f] wp_gets
        using t(2) by simp
    qed
  qed (rule assms(4))
qed

lemma wp_tcp_destroy_peers:
  assumes "tcp_shape L s" and "accounts (trace s) L"
    and "\<And>h n. sk_fd s = FileDescriptor_ctor n \<Longrightarrow> 0 \<le> n \<Longrightarrow> accounts h {n} \<Longrightarrow>
      Q () (s\<lparr>trace := h, tcp_peers := []\<rparr>)"
  shows "wp (tcp_destroy_peers E) Q R s"
proof -
  obtain n where n: "0 \<le> n" "sk_fd s = FileDescriptor_ctor n" "n \<notin> fst ` set (tcp_peers s)"
      "L = insert n (fst ` set (tcp_peers s))"
    and ok: "std_map_ok (tcp_peers s)" "\<forall>p\<in>set (tcp_peers s). peer_ok p"
    using assms(1) by (auto simp: tcp_shape_def)
  define I where "I = (\<lambda>(xs :: (FD \<times> TcpPeer) list) t. \<exists>h. t = s\<lparr>trace := h\<rparr> \<and>
     accounts h (insert n (fst ` set xs)) \<and> distinct (map fst xs) \<and> n \<notin> fst ` set xs \<and>
     (\<forall>p\<in>set xs. peer_ok p))"
  have "wp (for_each (\<lambda>p. fd_dtor E (peer_fd (snd p))) (tcp_peers s)) (\<lambda>_. I []) (\<lambda>_ _. False) s"
  proof (rule wp_for_each)
    show "I (tcp_peers s) s"
      using n ok assms(2) by (auto simp: I_def std_map_ok_distinct intro!: exI [of _ "trace s"])
  next
    fix x xs t
    assume "I (x # xs) t"
    then obtain h where t: "t = s\<lparr>trace := h\<rparr>" and a: "accounts h (insert n (fst ` set (x # xs)))"
      and d: "distinct (map fst (x # xs))" "n \<notin> fst ` set (x # xs)" "\<forall>p\<in>set (x # xs). peer_ok p"
      by (auto simp: I_def)
    have p: "peer_fd (snd x) = FileDescriptor_ctor (fst x)" "0 \<le> fst x"
      using d(3) by (auto simp: peer_ok_def)
    have "insert n (insert (fst x) (fst ` set xs)) - {fst x} = insert n (fst ` set xs)"
      using d(1,2) by (simp add: insert_Diff_if)
    then show "wp (fd_dtor E (peer_fd (snd x))) (\<lambda>_. I xs) (\<lambda>_ _. False) t"
      using t a d p by (intro wp_fd_dtor [of _ "insert n (fst ` set (x # xs))"]) (auto simp: I_def)
  qed
  then have "wp (for_each (\<lambda>p. fd_dtor E (peer_fd (snd p))) (tcp_peers s))
      (\<lambda>_ t. Q () (t\<lparr>tcp_peers := []\<rparr>)) R s"
    by (rule wp_mono) (use assms(3) n in \<open>auto simp: I_def\<close>)
  then show ?thesis by (simp add: tcp_destroy_peers_def wp_simps)
qed

lemma grows_tcp_dtor [grows_intros]: "grows (tcp_dtor E)"
  unfolding tcp_dtor_def tcp_destroy_peers_def by (intro grows_intros grows_modify) simp

lemma tcp_dtor_closes: "tcp_inv s \<Longrightarrow> wp (tcp_dtor E) (\<lambda>_ t. accounts (trace t) {}) R s"
proof (erule tcp_invE)
  fix L
  assume "tcp_shape L s" and "accounts (trace s) L"
  then show ?thesis
    unfolding tcp_dtor_def wp_thenE
    by (rule wp_tcp_destroy_peers) (rule wp_Socket_dtor, auto)
qed

interpretation tcp: socket_class descriptors_ok tcp_ctor tcp_ops tcp_dtor trace tcp_inv
proof unfold_locales
  fix E a and s :: "'a SocketTcp_scheme"
  assume "descriptors_ok E" and "accounts (trace s) {}"
  then show "wp (tcp_ctor E a) (\<lambda>_. tcp_inv) (\<lambda>e t. is_exception e \<longrightarrow> accounts (trace t) {}) s"
    by (rule wp_tcp_ctor)
next
  fix E and m :: "('a SocketTcp_scheme, unit) io"
  assume "descriptors_ok E" and "m \<in> tcp_ops E"
  then show "keeps tcp_inv m" by (rule keeps_tcp_ops)
qed (rule tcp_dtor_closes)

section \<open>What the operations do\<close>

lemma wp_tcp_getBuffer:
  assumes "std_mutex E" and "peers_mtx s = 0"
  shows "wp (tcp_getBuffer E fd) Q R s =
    (case map_of (tcp_peers s) fd of
       None \<Rightarrow> R (Out_of_range ''map::at'') s | Some p \<Rightarrow> Q (peer_msg_buffer p) s)"
  using assms
  by (simp add: tcp_getBuffer_def tcp_peer_at_def wp_with_lock_free wp_simps split: option.split)

lemma wp_tcp_receiveMessage:
  assumes "std_mutex E" and "checks_ok E" and "peers_mtx s = 0" and "map_of (tcp_peers s) fd = Some p"
  shows "wp (tcp_receiveMessage E fd) Q R s =
    (let r = os E (trace s) (C_recv fd (length (peer_msg_buffer p)));
         t = s\<lparr>trace := (C_recv fd (length (peer_msg_buffer p)), r) # trace s\<rparr>
     in if rv r < 0 then R (Runtime_error (check_text E ''Receive'')) t
        else case store_received (peer_msg_buffer p) r of
               Inl e \<Rightarrow> R e t
             | Inr b \<Rightarrow> Q () (t\<lparr>tcp_peers := map_update fd (\<lambda>p. p\<lparr>peer_msg_buffer := b\<rparr>) (tcp_peers t)\<rparr>))"
  using assms
  by (simp add: tcp_receiveMessage_def wp_tcp_getBuffer wp_simps checks_ok_eq Let_def split: sum.split)

text \<open>Both handlers of a lost peer take the mutex and never give it back.\<close>

lemma wp_tcp_handleGracefulShutdown:
  assumes "std_mutex E" and "peers_mtx s = 0" and "map_of (tcp_peers s) fd = Some p"
  shows "wp (tcp_handleGracefulShutdown E fd) Q R s = R Deadlock (s\<lparr>peers_mtx := 1\<rparr>)"
  using assms
  by (simp add: tcp_handleGracefulShutdown_def tcp_peer_at_def tcp_remove_def wp_with_lock_free
      wp_with_lock_held wp_simps)

lemma wp_tcp_handleCommLost:
  assumes "std_mutex E" and "peers_mtx s = 0" and "map_of (tcp_peers s) fd = Some p"
  shows "wp (tcp_handleCommLost E fd) Q R s = R Deadlock
    (if should_reestablish p
     then s\<lparr>peers_mtx := 1, trace := (C_schedule (T_connect (peer_remote p)) 5000 None,
            os E (trace s) (C_schedule (T_connect (peer_remote p)) 5000 None)) # trace s\<rparr>
     else s\<lparr>peers_mtx := 1\<rparr>)"
  using assms
  by (simp add: tcp_handleCommLost_def tcp_peer_at_def tcp_remove_def scheduleReestablishment_def
      reestablish_delay_def wp_with_lock_free wp_with_lock_held wp_simps)

text \<open>Sending visits the peers in order and stops at the first failure.\<close>

lemma wp_tcp_sends:
  assumes "checks_ok E"
  shows "wp (for_each (\<lambda>p. tcp_sendMessage E msg (snd p)) ps)
    (\<lambda>_ t. \<exists>rs. length rs = length ps \<and> (\<forall>r\<in>set rs. 0 \<le> rv r) \<and>
       t = s\<lparr>trace := rev (zip (map (\<lambda>p. C_send (raw_fd (peer_fd (snd p))) msg) ps) rs) @ trace s\<rparr>)
    (\<lambda>e t. is_exception e \<and> (\<exists>rs. rs \<noteq> [] \<and> length rs \<le> length ps \<and> rv (last rs) < 0 \<and>
       (\<forall>r\<in>set (butlast rs). 0 \<le> rv r) \<and>
       t = s\<lparr>trace := rev (zip (map (\<lambda>p. C_send (raw_fd (peer_fd (snd p))) msg) ps) rs) @ trace s\<rparr>)) s"
proof (induction ps arbitrary: s)
  case Nil
  then show ?case by (simp add: wp_simps)
next
  case (Cons p ps)
  let ?c = "C_send (raw_fd (peer_fd (snd p))) msg"
  let ?r = "os E (trace s) ?c"
  show ?case
  proof (cases "rv ?r < 0")
    case True
    then show ?thesis
      by (auto simp: wp_simps tcp_sendMessage_def failedSend_def checks_ok_eq [OF assms] intro!: exI [of _ "[?r]"])
  next
    case False
    have "wp (for_each (\<lambda>p. tcp_sendMessage E msg (snd p)) (p # ps)) Q R s =
        wp (for_each (\<lambda>p. tcp_sendMessage E msg (snd p)) ps) Q R (s\<lparr>trace := (?c, ?r) # trace s\<rparr>)" for Q R
      using False by (simp add: wp_simps tcp_sendMessage_def failedSend_def checks_ok_eq [OF assms])
    then show ?thesis
    proof (simp only:, intro wp_mono [OF Cons.IH], goal_cases)
      case (1 x t)
      then obtain rs where "length rs = length ps" "\<forall>r\<in>set rs. 0 \<le> rv r"
          "t = s\<lparr>trace := rev (zip (map (\<lambda>p. C_send (raw_fd (peer_fd (snd p))) msg) ps) rs) @ (?c, ?r) # trace s\<rparr>"
        by auto
      then show ?case
        using False by (intro exI [of _ "?r # rs"]) simp
    next
      case (2 e t)
      then obtain rs where "is_exception e" "rs \<noteq> []" "length rs \<le> length ps" "rv (last rs) < 0"
          "\<forall>r\<in>set (butlast rs). 0 \<le> rv r"
          "t = s\<lparr>trace := rev (zip (map (\<lambda>p. C_send (raw_fd (peer_fd (snd p))) msg) ps) rs) @ (?c, ?r) # trace s\<rparr>"
        by auto
      then show ?case
        using False by (intro conjI exI [of _ "?r # rs"]) simp_all
    qed
  qed
qed

text \<open>
  \<open>tcp_grown s ns remotes t\<close>: compared with \<open>s\<close>, the object \<open>t\<close> has one more peer for
  each of \<open>remotes\<close>, under the new descriptors \<open>ns\<close>.
\<close>

definition tcp_grown :: "'z SocketTcp_scheme \<Rightarrow> FD list \<Rightarrow> IPSocket list \<Rightarrow> 'z SocketTcp_scheme \<Rightarrow> bool" where
  "tcp_grown s ns remotes t \<longleftrightarrow> length ns = length remotes \<and> distinct ns \<and>
     set ns \<inter> fst ` set (tcp_peers s) = {} \<and> fst ` set (tcp_peers t) = fst ` set (tcp_peers s) \<union> set ns \<and>
     (\<forall>fd\<in>fst ` set (tcp_peers s). map_of (tcp_peers t) fd = map_of (tcp_peers s) fd) \<and>
     list_all2 (\<lambda>n remote. \<exists>p. map_of (tcp_peers t) n = Some p \<and> peer_remote p = remote \<and>
       should_reestablish p) ns remotes"

lemma tcp_grown_mtx [simp]:
  "tcp_grown (s\<lparr>peers_mtx := k\<rparr>) ns remotes t = tcp_grown s ns remotes t"
  "tcp_grown s ns remotes (t\<lparr>peers_mtx := k\<rparr>) = tcp_grown s ns remotes t"
  by (simp_all add: tcp_grown_def)

lemma tcp_grown_step:
  assumes "std_map_ok (tcp_peers s)" and "n \<notin> fst ` set (tcp_peers s)"
    and "peer_remote p = remote" and "should_reestablish p"
    and "tcp_peers s' = map_emplace n p (tcp_peers s)" and "tcp_grown s' ns remotes t"
  shows "tcp_grown s (n # ns) (remote # remotes) t"
proof -
  have k: "fst ` set (tcp_peers s') = insert n (fst ` set (tcp_peers s))"
    using assms(5) by (simp add: keys_map_emplace)
  have none: "map_of (tcp_peers s) n = None" using assms(2) by (simp add: map_of_eq_None_iff)
  have m: "map_of (tcp_peers s') = (map_of (tcp_peers s))(n \<mapsto> p)"
    using assms(1,5) none by (simp add: map_of_emplace)
  have "map_of (tcp_peers t) n = map_of (tcp_peers s') n"
    using assms(6) k by (simp add: tcp_grown_def)
  then have new: "map_of (tcp_peers t) n = Some p" using m by simp
  have old: "map_of (tcp_peers t) fd = map_of (tcp_peers s) fd" if "fd \<in> fst ` set (tcp_peers s)" for fd
  proof -
    have b: "\<forall>fd\<in>insert n (fst ` set (tcp_peers s)). map_of (tcp_peers t) fd = map_of (tcp_peers s') fd"
      using assms(6) unfolding tcp_grown_def k by (elim conjE)
    have "map_of (tcp_peers t) fd = map_of (tcp_peers s') fd"
      by (rule bspec [OF b insertI2 [OF that]])
    moreover have "fd \<noteq> n" using assms(2) that by blast
    ultimately show ?thesis by (simp add: m)
  qed
  obtain K where K: "fst ` set (tcp_peers s) = K" by blast
  have g: "length ns = length remotes" "distinct ns" "set ns \<inter> insert n K = {}"
      "fst ` set (tcp_peers t) = insert n K \<union> set ns"
      "list_all2 (\<lambda>n remote. \<exists>p. map_of (tcp_peers t) n = Some p \<and> peer_remote p = remote \<and>
         should_reestablish p) ns remotes"
    using assms(6) unfolding tcp_grown_def k K by simp_all
  show ?thesis
    unfolding tcp_grown_def K
  proof (intro conjI)
    show "distinct (n # ns)" using g(2,3) by auto
    show "set (n # ns) \<inter> K = {}" using g(3) assms(2) K by auto
    show "fst ` set (tcp_peers t) = K \<union> set (n # ns)" using g(4) by auto
    show "\<forall>fd\<in>K. map_of (tcp_peers t) fd = map_of (tcp_peers s) fd" using old K by blast
  qed (use g(1,5) new assms(3,4) in simp_all)
qed

lemma wp_tcp_connects:
  assumes "descriptors_ok E" and "tcp_inv s"
  shows "wp (for_each (tcp_connect_one E) remotes)
     (\<lambda>_ t. peers_mtx t = peers_mtx s \<and> (\<exists>ns. tcp_grown s ns remotes t))
     (\<lambda>e t. is_exception e \<longrightarrow> peers_mtx t = peers_mtx s \<and>
        (\<exists>ns k. k < length remotes \<and> tcp_grown s ns (take k remotes) t)) s"
  using assms(2)
proof (induction remotes arbitrary: s)
  case Nil
  then show ?case by (auto simp: wp_simps tcp_grown_def)
next
  case (Cons remote remotes)
  obtain L where L: "tcp_shape L s" "accounts (trace s) L" using Cons.prems by (rule tcp_invE)
  have ok: "std_map_ok (tcp_peers s)" and sub: "fst ` set (tcp_peers s) \<subseteq> L"
    using L(1) by (auto simp: tcp_shape_def)
  show ?case
    unfolding for_each.simps wp_thenE
  proof (rule wp_tcp_connect_one [OF assms(1) L], goal_cases)
    case (1 h n p)
    let ?t = "s\<lparr>trace := h, tcp_peers := map_emplace n p (tcp_peers s)\<rparr>"
    have inv: "tcp_inv ?t"
      using tcp_shape_emplace [of L "s\<lparr>trace := h\<rparr>" n p] L(1) 1 by (auto simp: tcp_inv_def)
    have n: "n \<notin> fst ` set (tcp_peers s)" using 1 sub by auto
    note step = tcp_grown_step [OF ok n \<open>peer_remote p = remote\<close> \<open>should_reestablish p\<close>, of ?t]
    show ?case
    proof (rule wp_mono [OF Cons.IH [OF inv]], goal_cases)
      case (1 x t)
      then show ?case using step by auto
    next
      case (2 e t)
      show ?case
      proof
        assume "is_exception e"
        then obtain ns k where "k < length remotes" "tcp_grown ?t ns (take k remotes) t" "peers_mtx t = peers_mtx s"
          using 2 by auto
        then show "peers_mtx t = peers_mtx s \<and>
            (\<exists>ns k. k < length (remote # remotes) \<and> tcp_grown s ns (take k (remote # remotes)) t)"
          using step [of ns "take k remotes" t] by (intro conjI exI [of _ "n # ns"] exI [of _ "Suc k"]) simp_all
      qed
    qed
  next
    case (2 e h)
    have "tcp_grown s [] (take 0 (remote # remotes)) (s\<lparr>trace := h\<rparr>)"
      by (simp add: tcp_grown_def)
    then have "\<exists>ns k. k < length (remote # remotes) \<and>
        tcp_grown s ns (take k (remote # remotes)) (s\<lparr>trace := h\<rparr>)"
      by (intro exI [of _ "[]"] exI [of _ 0]) simp
    then show ?case by simp
  qed
qed

text \<open>Objects for the examples: one before its construction, one with a peer.\<close>

definition demo_tcp_fresh :: SocketTcp where
  "demo_tcp_fresh = \<lparr>trace = [], fds = {}, fd_max = 1, selected_fds = [],
     sk_fd = FileDescriptor_ctor invalid_fd, sk_family = AF_INET, sk_type = SOCK_STREAM,
     main_msg_buffer = [], peers_mtx = 0, tcp_peers = [], tcp_local = [], tcp_type = SOCK_STREAM,
     tcp_protocol = 0\<rparr>"

definition demo_peer :: TcpPeer where
  "demo_peer = \<lparr>peer_fd = FileDescriptor_ctor 4, peer_msg_buffer = ''previous'',
     peer_remote = demo_addr, should_reestablish = True\<rparr>"

definition demo_tcp :: SocketTcp where
  "demo_tcp = demo_tcp_fresh\<lparr>trace := [(C_socket AF_INET SOCK_STREAM 0, reply 4),
      (C_socket AF_INET SOCK_STREAM 0, reply 3)],
     sk_fd := FileDescriptor_ctor 3, tcp_peers := [(4, demo_peer)]\<rparr>"

abbreviation demo_tcp_env :: "string \<Rightarrow> env" where
  "demo_tcp_env msg \<equiv> demo_env 16 msg demo_from"

lemma demo_tcp_sel [simp]:
  "peers_mtx demo_tcp = 0" "raw_fd (sk_fd demo_tcp) = 3" "tcp_peers demo_tcp = [(4, demo_peer)]"
  "trace demo_tcp = [(C_socket AF_INET SOCK_STREAM 0, reply 4), (C_socket AF_INET SOCK_STREAM 0, reply 3)]"
  "peer_msg_buffer demo_peer = ''previous''" "should_reestablish demo_peer" "peer_remote demo_peer = demo_addr"
  by (simp_all add: demo_tcp_def demo_tcp_fresh_def demo_peer_def)

lemma demo_tcp_shape [simp]: "tcp_shape {3, 4} demo_tcp"
  by (auto simp: tcp_shape_def std_map_ok_def peer_ok_def demo_peer_def demo_tcp_def demo_tcp_fresh_def
      intro!: exI [of _ 3])

lemma demo_tcp_inv [simp]: "tcp_inv demo_tcp"
  unfolding tcp_inv_def by (rule exI [of _ "{3, 4}"]) (auto simp: accounts_def)

lemmas demo_tcp_eval = demo_eval tcp_ctor_def Socket_ctor_def Socket_init_def Socket_create_def
  next_fd_def fd_move_assign_def fd_dtor_def fd_close_def FileDescriptor_ctor_def invalid_fd_def
  tcp_init_members_def tcp_configure_def tcp_bind_def Socket_bind_def Socket_getBoundAddresses_def
  getAddresses_def chooseSocketFamily_def demo_tcp_fresh_def

lemma demo_tcp_constructed:
  "wp (tcp_ctor (demo_tcp_env []) ([demo_addr], SOCK_STREAM)) (\<lambda>_ t. True) (\<lambda>_ _. False) demo_tcp_fresh"
  by (simp add: demo_tcp_eval)

lemma demo_tcp_connected:
  "wp (thenE (tcp_ctor (demo_tcp_env []) ([demo_addr], SOCK_STREAM)) (tcp_connect (demo_tcp_env []) [demo_addr]))
     (\<lambda>_ t. live (trace t) = {3, 4}) (\<lambda>_ _. False) demo_tcp_fresh"
  by (simp add: demo_tcp_eval tcp_connect_def with_lock_def lock_peers_def unlock_peers_def demo_lock_def
      tcp_connect_one_def tcp_createConnectSocket_def Socket_connect_fd_def tcp_emplace_def fd_move_def
      Let_def insert_commute)

section \<open>Properties\<close>

text \<open>
  C5. No descriptor leaks and none is closed twice: whatever the kernel does (as long as it
  gives out fresh descriptors), and whatever sequence of \<open>listen\<close>, \<open>connect\<close>, \<open>send\<close> and
  \<open>receive\<close> is run on a constructed stream socket, exceptions included, its destructor closes
  every descriptor the object opened, each exactly once, and it raises nothing.
\<close>

theorem tcp_life_cycle:
  assumes "descriptors_ok E" and "accounts (trace s0) {}"
    and "reachable (\<lambda>t. tcp_ctor E a s0 = (Inr (), t)) (tcp_ops E) s"
  shows "wp (tcp_dtor E) (\<lambda>_ t. live (trace t) = {} \<and> sound_closes (trace t)) (\<lambda>_ _. False) s"
  by (rule wp_mono [OF tcp_dtor_closes [OF tcp.reachable_inv [OF assms]]])
    (simp_all add: accounts_def)

theorem tcp_life_cycle_witness:
  "\<exists>s. live (trace s) = {3, 4} \<and>
     wp (tcp_dtor (demo_tcp_env [])) (\<lambda>_ t. live (trace t) = {} \<and> sound_closes (trace t)) (\<lambda>_ _. False)
       (s :: SocketTcp)"
proof -
  let ?E = "demo_tcp_env []"
  let ?a = "([demo_addr], SOCK_STREAM)"
  obtain s1 :: SocketTcp where s1: "tcp_ctor ?E ?a demo_tcp_fresh = (Inr (), s1)"
    using wp_run [OF demo_tcp_constructed] by auto
  have "wp (tcp_connect ?E [demo_addr]) (\<lambda>_ t. live (trace t) = {3, 4}) (\<lambda>_ _. False) s1"
    using wp_returnsD [OF demo_tcp_connected [unfolded wp_thenE] s1] .
  from wp_run [OF this]
  obtain s where s: "tcp_connect ?E [demo_addr] s1 = (Inr (), s)" "live (trace s) = {3, 4}"
    by auto
  have "reachable (\<lambda>t. tcp_ctor ?E ?a demo_tcp_fresh = (Inr (), t)) (tcp_ops ?E) s1"
    by (rule reachable.start) (rule s1)
  then have "reachable (\<lambda>t. tcp_ctor ?E ?a demo_tcp_fresh = (Inr (), t)) (tcp_ops ?E) s"
    by (rule reachable.returns [where m = "tcp_connect ?E [demo_addr]"]) (simp_all add: tcp_ops_def s(1))
  moreover have "accounts (trace demo_tcp_fresh) {}"
    by (simp add: demo_tcp_fresh_def accounts_def)
  ultimately show ?thesis
    using s(2) tcp_life_cycle [of ?E demo_tcp_fresh ?a s] by auto
qed


text \<open>
  C6. A peer that goes away hangs the program: when \<open>recv\<close> reports the end of the stream or
  an error for a known peer, \<open>handleMessage\<close> calls \<open>handleGracefulShutdown\<close> or
  \<open>handleCommLost\<close>, which lock \<open>peers_mtx\<close> and then call \<open>remove\<close>, which locks it again;
  \<open>std::mutex\<close> is not recursive, so the call never returns and the peer stays in the map.
  The reconnection is scheduled before that, exactly when the peer asked for it.
\<close>

theorem tcp_disconnect_deadlocks:
  assumes "std_mutex E" and "checks_ok E" and "recv_ok E" and "peers_mtx s = 0"
    and "fd \<noteq> raw_fd (sk_fd s)" and "map_of (tcp_peers s) fd = Some p"
    and "peer_msg_buffer p \<noteq> []"
    and "rv (os E (trace s) (C_recv fd (length (peer_msg_buffer p)))) \<le> 0"
  shows "wp (tcp_handleMessage E fd) (\<lambda>_ _. False)
    (\<lambda>e t. e = Deadlock \<and> map_of (tcp_peers t) fd \<noteq> None \<and> peers_mtx t = 1 \<and>
       map fst (trace t) =
         (if rv (os E (trace s) (C_recv fd (length (peer_msg_buffer p)))) < 0 \<and> should_reestablish p
          then [C_schedule (T_connect (peer_remote p)) 5000 None] else [])
         @ C_recv fd (length (peer_msg_buffer p)) # map fst (trace s)) s"
proof -
  let ?r = "os E (trace s) (C_recv fd (length (peer_msg_buffer p)))"
  have data: "odata ?r = []" if "\<not> rv ?r < 0"
    using recv_okD(1) [OF assms(3), of "C_recv fd (length (peer_msg_buffer p))" fd _ "trace s"]
      assms(8) that by simp
  show ?thesis
  proof (cases "rv ?r < 0")
    case True
    then show ?thesis
      using assms(1,2,4-7)
      by (simp add: tcp_handleMessage_def wp_simps wp_tcp_receiveMessage wp_tcp_handleCommLost)
  next
    case False
    then have r: "rv ?r = 0" using assms(8) by simp
    obtain b where b: "store_received (peer_msg_buffer p) ?r = Inr b" "c_str b = []"
      using store_received_ok [of ?r "peer_msg_buffer p"] r data assms(7) by auto
    show ?thesis
      using assms(1,2,4-6) b r
      by (simp add: tcp_handleMessage_def wp_simps wp_tcp_receiveMessage wp_tcp_getBuffer
          wp_tcp_handleGracefulShutdown map_of_update)
  qed
qed

theorem tcp_disconnect_deadlocks_witness:
  "wp (tcp_handleMessage (demo_tcp_env []) 4) (\<lambda>_ _. False)
     (\<lambda>e t. e = Deadlock \<and> map_of (tcp_peers t) 4 \<noteq> None) demo_tcp"
  by (rule wp_mono [OF tcp_disconnect_deadlocks [of "demo_tcp_env []" demo_tcp 4 demo_peer]]) simp_all


text \<open>
  C23. \<open>send\<close> gives the message to every peer exactly once, in ascending order of their
  descriptors, and returns only when each \<open>send\<close> call succeeded; when one fails, the peers
  behind it get nothing and the exception leaves. In both cases the peers are unchanged and the
  mutex is free again.
\<close>

theorem tcp_send_reaches_every_peer:
  assumes "std_mutex E" and "checks_ok E" and "tcp_inv s" and "peers_mtx s = 0"
  shows "distinct (map fst (tcp_peers s)) \<and> wp (tcp_send E msg)
    (\<lambda>_ t. \<exists>rs. length rs = length (tcp_peers s) \<and> (\<forall>r\<in>set rs. 0 \<le> rv r) \<and>
       t = s\<lparr>trace := rev (zip (map (\<lambda>p. C_send (fst p) msg) (tcp_peers s)) rs) @ trace s\<rparr>)
    (\<lambda>e t. is_exception e \<and> (\<exists>rs. rs \<noteq> [] \<and> length rs \<le> length (tcp_peers s) \<and> rv (last rs) < 0 \<and>
       (\<forall>r\<in>set (butlast rs). 0 \<le> rv r) \<and>
       t = s\<lparr>trace := rev (zip (map (\<lambda>p. C_send (fst p) msg) (tcp_peers s)) rs) @ trace s\<rparr>)) s"
proof -
  have ok: "std_map_ok (tcp_peers s)" and p: "\<forall>p\<in>set (tcp_peers s). peer_ok p"
    using assms(3) by (auto simp: tcp_inv_def tcp_shape_def)
  have fds: "map (\<lambda>p. C_send (raw_fd (peer_fd (snd p))) msg) (tcp_peers s) =
      map (\<lambda>p. C_send (fst p) msg) (tcp_peers s)"
    using p by (auto simp: peer_ok_def)
  let ?s = "s\<lparr>peers_mtx := 1\<rparr>"
  have "wp (for_each (\<lambda>p. tcp_sendMessage E msg (snd p)) (tcp_peers s))
     (\<lambda>_ t. \<exists>rs. length rs = length (tcp_peers s) \<and> (\<forall>r\<in>set rs. 0 \<le> rv r) \<and> t\<lparr>peers_mtx := peers_mtx t - 1\<rparr> =
         s\<lparr>trace := rev (zip (map (\<lambda>p. C_send (fst p) msg) (tcp_peers s)) rs) @ trace s\<rparr>)
     (\<lambda>e t. is_exception e \<and> (\<exists>rs. rs \<noteq> [] \<and> length rs \<le> length (tcp_peers s) \<and> rv (last rs) < 0 \<and>
         (\<forall>r\<in>set (butlast rs). 0 \<le> rv r) \<and> t\<lparr>peers_mtx := peers_mtx t - 1\<rparr> =
         s\<lparr>trace := rev (zip (map (\<lambda>p. C_send (fst p) msg) (tcp_peers s)) rs) @ trace s\<rparr>)) ?s"
    by (rule wp_mono [OF wp_tcp_sends [OF assms(2)]], unfold fds)
      (use assms(4) in \<open>auto intro: exI\<close>)
  then show ?thesis
    unfolding tcp_send_def using std_map_ok_distinct [OF ok]
    by (simp add: wp_with_lock_free [OF assms(1,4)] wp_simps) (erule wp_mono; auto)
qed

theorem tcp_send_reaches_every_peer_witness:
  "wp (tcp_send (demo_tcp_env []) ''hi'')
     (\<lambda>_ t. \<exists>r. trace t = (C_send 4 ''hi'', r) # trace demo_tcp) (\<lambda>_ _. True) demo_tcp"
  by (rule wp_mono [OF tcp_send_reaches_every_peer [of "demo_tcp_env []" demo_tcp "''hi''", THEN conjunct2]])
    (auto simp: length_Suc_conv)


text \<open>
  C22. \<open>connect\<close> adds exactly one peer per remote address, each with a new descriptor, its
  address and the wish to reestablish the connection, and leaves the peers that were there as
  they are. When it throws, it has done so for a proper prefix of the addresses. The mutex is
  free afterwards in both cases.
\<close>

theorem tcp_connect_adds_peers:
  assumes "descriptors_ok E" and "std_mutex E" and "tcp_inv s" and "peers_mtx s = 0"
  shows "wp (tcp_connect E remotes)
     (\<lambda>_ t. tcp_inv t \<and> peers_mtx t = 0 \<and> (\<exists>ns. tcp_grown s ns remotes t))
     (\<lambda>e t. is_exception e \<longrightarrow> tcp_inv t \<and> peers_mtx t = 0 \<and>
        (\<exists>ns k. k < length remotes \<and> tcp_grown s ns (take k remotes) t)) s"
proof -
  let ?s = "s\<lparr>peers_mtx := 1\<rparr>"
  have "wp (for_each (tcp_connect_one E) remotes)
      (\<lambda>_ t. peers_mtx t = 1 \<and> (\<exists>ns. tcp_grown ?s ns remotes t))
      (\<lambda>e t. is_exception e \<longrightarrow> peers_mtx t = 1 \<and>
         (\<exists>ns k. k < length remotes \<and> tcp_grown ?s ns (take k remotes) t)) ?s"
    using wp_tcp_connects [OF assms(1), of ?s remotes] assms(3) by simp
  then have "wp (tcp_connect E remotes)
     (\<lambda>_ t. peers_mtx t = 0 \<and> (\<exists>ns. tcp_grown s ns remotes t))
     (\<lambda>e t. is_exception e \<longrightarrow> peers_mtx t = 0 \<and>
        (\<exists>ns k. k < length remotes \<and> tcp_grown s ns (take k remotes) t)) s"
    unfolding tcp_connect_def wp_with_lock_free [OF assms(2,4)]
    by (rule wp_mono) auto
  from wp_conj [OF keepsD [OF keeps_tcp_connect [OF assms(1)] assms(3)] this]
  show ?thesis
    by (rule wp_mono) (auto simp: safely_def)
qed

theorem tcp_connect_adds_peers_witness:
  "wp (tcp_connect (demo_tcp_env []) [demo_addr])
     (\<lambda>_ t. \<exists>n. fst ` set (tcp_peers t) = {4, n} \<and> n \<noteq> 4) (\<lambda>_ _. True) demo_tcp"
  by (rule wp_mono [OF tcp_connect_adds_peers [of "demo_tcp_env []" demo_tcp "[demo_addr]"]])
    (auto simp: tcp_grown_def length_Suc_conv)


text \<open>
  The constructor leaves the member \<open>protocol\<close> uninitialised, and \<open>connect\<close> passes it to
  \<open>socket\<close>: if the kernel rejects the value that happens to be there, every attempt to
  connect throws and no peer is added.
\<close>

theorem tcp_connect_uses_uninitialised_protocol:
  assumes "descriptors_ok E" and "std_mutex E" and "accounts (trace s0) {}"
    and "tcp_ctor E (locals, type) s0 = (Inr (), s)"
    and "\<forall>h fam. rv (os E h (C_socket fam type (indeterminate E))) < 0"
  shows "wp (tcp_connect E (remote # remotes)) (\<lambda>_ _. False)
     (\<lambda>e t. is_exception e \<and> tcp_peers t = []) s"
proof -
  have "wp (tcp_ctor E (locals, type))
      (\<lambda>_ t. tcp_peers t = [] \<and> peers_mtx t = 0 \<and> tcp_protocol t = indeterminate E \<and> tcp_type t = type)
      (\<lambda>_ _. True) s0"
    by (rule wp_tcp_ctor [OF assms(1,3)]) simp_all
  from wp_returnsD [OF this assms(4)]
  have s: "tcp_peers s = []" "peers_mtx s = 0" "tcp_protocol s = indeterminate E" "tcp_type s = type"
    by auto
  have ok: "checks_ok E" using assms(1) by (simp add: descriptors_ok_def)
  show ?thesis
    using s assms(5)
    by (simp add: tcp_connect_def wp_with_lock_free [OF assms(2)] tcp_connect_one_def
        tcp_createConnectSocket_def wp_simps checks_ok_eq [OF ok])
qed

theorem tcp_connect_uses_uninitialised_protocol_witness:
  "\<exists>E s. wp (tcp_connect E [demo_addr]) (\<lambda>_ _. False)
     (\<lambda>e t. is_exception e \<and> tcp_peers t = []) (s :: SocketTcp)"
proof -
  define E where "E = (demo_tcp_env [])\<lparr>indeterminate := 77, os := (\<lambda>h c.
    case c of C_socket f t p \<Rightarrow> if p = 77 then reply (-1) else reply (next_fd h)
    | _ \<Rightarrow> demo_os [] demo_from h c)\<rparr>"
  have fresh: "fresh_fds E"
    unfolding fresh_fds_def
  proof (intro allI)
    fix h c
    show "opened (c, os E h c) \<inter> live h = {}"
      using next_fd_fresh [of h] next_fd_fresh' [of h] by (cases c) (auto simp: E_def)
  qed
  have E: "descriptors_ok E" "std_mutex E"
    using fresh by (auto simp: descriptors_ok_def checks_ok_def E_def demo_check_def std_mutex_def demo_lock_def)
  have "wp (tcp_ctor E ([demo_addr], SOCK_STREAM)) (\<lambda>_ _. True) (\<lambda>_ _. False) demo_tcp_fresh"
    by (simp add: demo_tcp_eval E_def)
  from wp_run [OF this]
  obtain s :: SocketTcp where s: "tcp_ctor E ([demo_addr], SOCK_STREAM) demo_tcp_fresh = (Inr (), s)"
    by auto
  have "accounts (trace demo_tcp_fresh) {}"
    by (simp add: demo_tcp_fresh_def accounts_def)
  then have "wp (tcp_connect E [demo_addr]) (\<lambda>_ _. False) (\<lambda>e t. is_exception e \<and> tcp_peers t = []) s"
    by (rule tcp_connect_uses_uninitialised_protocol [OF E _ s]) (simp add: E_def)
  then show ?thesis by blast
qed


text \<open>
  C24. A message that fits the peer's buffer and starts with no NUL is reported exactly as it
  arrived up to its first NUL: \<open>handleMessage\<close> returns having logged it, with the peers and
  the mutex as before, unless the address of its sender cannot be determined. A message that
  fills the buffer completely makes the code write behind the buffer's end.
\<close>

theorem tcp_message_logged:
  fixes E s fd p
  defines "c \<equiv> C_recv fd (length (peer_msg_buffer p))"
  assumes "std_mutex E" and "checks_ok E" and "recv_ok E" and "peers_mtx s = 0"
    and "fd \<noteq> raw_fd (sk_fd s)" and "map_of (tcp_peers s) fd = Some p"
    and "0 \<le> rv (os E (trace s) c)" and "c_str (odata (os E (trace s) c)) \<noteq> []"
  shows "wp (tcp_handleMessage E fd)
    (\<lambda>_ t. length (odata (os E (trace s) c)) < length (peer_msg_buffer p) \<and>
       map fst (trace t) =
         C_log_received (c_str (odata (os E (trace s) c))) # C_getpeername fd # c # map fst (trace s) \<and>
       map fst (tcp_peers t) = map fst (tcp_peers s) \<and> peers_mtx t = 0)
    (\<lambda>e t. if length (odata (os E (trace s) c)) < length (peer_msg_buffer p)
       then map fst (trace t) = C_getpeername fd # c # map fst (trace s)
       else e = Undefined ''msg_buffer index out of range'') s"
proof -
  define r where "r = os E (trace s) c"
  have r: "rv r = int (length (odata r))" "length (odata r) \<le> length (peer_msg_buffer p)"
    using recv_okD [OF assms(4), of c fd "length (peer_msg_buffer p)" "trace s"] assms(8)
    by (simp_all add: c_def r_def)
  show ?thesis
  proof (cases "length (odata r) < length (peer_msg_buffer p)")
    case True
    obtain b where b: "store_received (peer_msg_buffer p) r = Inr b" "c_str b = c_str (odata r)"
      using store_received_ok [OF r(1) True] by auto
    show ?thesis
      using assms(2,3,5-9) b True
      by (simp add: tcp_handleMessage_def wp_simps wp_tcp_receiveMessage wp_tcp_getBuffer map_of_update
          c_def [symmetric] r_def [symmetric] Socket_getPeerAddresses_def getAddresses_def checks_ok_eq
          log_received_def map_fst_update split: sum.split)
  next
    case False
    then have "store_received (peer_msg_buffer p) r = Inl (Undefined ''msg_buffer index out of range'')"
      using r by (simp add: store_received_def)
    then show ?thesis
      using assms(2,3,5-9) False
      by (simp add: tcp_handleMessage_def wp_simps wp_tcp_receiveMessage
          c_def [symmetric] r_def [symmetric])
  qed
qed

theorem tcp_message_logged_witness:
  "wp (tcp_handleMessage (demo_tcp_env ''hi'') 4)
     (\<lambda>_ t. fst (hd (trace t)) = C_log_received ''hi'' \<and> map fst (tcp_peers t) = [4])
     (\<lambda>e t. fst (hd (trace t)) = C_getpeername 4) demo_tcp"
  by (rule wp_mono [OF tcp_message_logged [of "demo_tcp_env ''hi''" demo_tcp 4 demo_peer]])
    (auto simp: c_str_def dest: arg_cong [where f = hd])




end
