(* ===== verification/SocketDccp.thy ===== *)
theory SocketDccp
  imports SocketTcp
begin

text \<open>
  \<open>src/src/SocketDccp.cpp\<close>: the DCCP socket, a stream socket that tolerates failing sends,
  says goodbye with \<open>quit_msg\<close> when it is destroyed and reads the empty message as a lost
  connection. Its state is that of \<open>SocketTcp\<close>.
\<close>

section \<open>Methods\<close>

definition dccp_ctor :: "env \<Rightarrow> IPSocket list \<Rightarrow> ('z SocketTcp_scheme, unit) io" where
  "dccp_ctor E locals = tcp_ctor E (locals, SOCK_DCCP)"

definition dccp_send :: "env \<Rightarrow> string \<Rightarrow> ('z SocketTcp_scheme, unit) io" where
  "dccp_send E msg =
     with_lock E (bindE (gets tcp_peers) (for_each (\<lambda>p.
       catch_runtime (tcp_sendMessage E msg (snd p)) (\<lambda>_. return ()))))"

text \<open>The destructor is \<open>noexcept\<close>; its body is followed by the base class's.\<close>

definition dccp_dtor :: "env \<Rightarrow> ('z SocketTcp_scheme, unit) io" where
  "dccp_dtor E = thenE (no_throw (dccp_send E quit_msg)) (tcp_dtor E)"

definition dccp_handleMessage :: "env \<Rightarrow> FD \<Rightarrow> ('z SocketTcp_scheme, unit) io" where
  "dccp_handleMessage E fd =
     bindE (gets (\<lambda>s. raw_fd (sk_fd s))) (\<lambda>listening.
     if fd = listening then tcp_handleCommUp E
     else
       thenE (tcp_receiveMessage E fd)
       (bindE (tcp_getBuffer E fd) (\<lambda>b.
        let msg = c_str b in
        if msg = [] then tcp_handleCommLost E fd
        else if msg = quit_msg then tcp_handleGracefulShutdown E fd
        else bindE (Socket_getPeerAddresses E fd) (\<lambda>_. log_received E msg))))"

definition dccp_receive :: "env \<Rightarrow> ('z SocketTcp_scheme, unit) io" where
  "dccp_receive E = Socket_receive E (tcp_selectFds E) (dccp_handleMessage E)"

definition dccp_ops :: "env \<Rightarrow> ('z SocketTcp_scheme, unit) io set" where
  "dccp_ops E = range (Socket_listen E) \<union> range (tcp_connect E) \<union> range (dccp_send E) \<union> {dccp_receive E}"

section \<open>The invariant of stream sockets is kept\<close>

lemma keeps_dccp_send: "keeps tcp_inv (dccp_send E msg)"
  unfolding dccp_send_def by (intro keeps_intros) (intro keeps_tcp_quiet quiet_intros)

lemma keeps_dccp_handleMessage: "descriptors_ok E \<Longrightarrow> keeps tcp_inv (dccp_handleMessage E fd)"
  unfolding dccp_handleMessage_def Let_def
  by (intro keeps_intros keeps_tcp_handleCommUp) (auto intro: keeps_tcp_quiet quiet_intros)

lemma keeps_dccp_receive: "descriptors_ok E \<Longrightarrow> keeps tcp_inv (dccp_receive E)"
  unfolding dccp_receive_def
  by (intro keeps_Socket_receive keeps_tcp_selectFds keeps_dccp_handleMessage)

lemma keeps_dccp_ops: "descriptors_ok E \<Longrightarrow> m \<in> dccp_ops E \<Longrightarrow> keeps tcp_inv m"
  unfolding dccp_ops_def
  using keeps_tcp_connect keeps_dccp_send keeps_dccp_receive keeps_tcp_quiet [OF quiet_Socket_listen]
  by fastforce

lemma dccp_dtor_closes:
  assumes "tcp_inv s"
  shows "wp (dccp_dtor E) (\<lambda>_ t. accounts (trace t) {}) (\<lambda>e _. \<not> is_exception e) s"
  unfolding dccp_dtor_def wp_thenE wp_no_throw
  by (rule wp_mono [OF keepsD [OF keeps_dccp_send assms]])
    (auto simp: safely_def intro: tcp_dtor_closes)

interpretation dccp: socket_class descriptors_ok dccp_ctor dccp_ops dccp_dtor trace tcp_inv
proof unfold_locales
  fix E a and s :: "'a SocketTcp_scheme"
  assume "descriptors_ok E" and "accounts (trace s) {}"
  then show "wp (dccp_ctor E a) (\<lambda>_. tcp_inv) (\<lambda>e t. is_exception e \<longrightarrow> accounts (trace t) {}) s"
    unfolding dccp_ctor_def by (rule wp_tcp_ctor)
next
  fix E and m :: "('a SocketTcp_scheme, unit) io"
  assume "descriptors_ok E" and "m \<in> dccp_ops E"
  then show "keeps tcp_inv m" by (rule keeps_dccp_ops)
qed (rule dccp_dtor_closes)

section \<open>What sending does\<close>

lemma wp_dccp_send_one:
  assumes "checks_ok E"
  shows "wp (catch_runtime (tcp_sendMessage E msg peer) (\<lambda>_. return ())) Q R =
    (\<lambda>s. Q () (s\<lparr>trace := (C_send (raw_fd (peer_fd peer)) msg,
       os E (trace s) (C_send (raw_fd (peer_fd peer)) msg)) # trace s\<rparr>))"
  by (simp add: fun_eq_iff tcp_sendMessage_def wp_simps checks_ok_eq [OF assms])

lemma wp_dccp_sends:
  assumes "checks_ok E"
    and "\<And>h. map fst h = rev (map (\<lambda>p. C_send (raw_fd (peer_fd (snd p))) msg) ps) @ map fst (trace s) \<Longrightarrow>
      Q () (s\<lparr>trace := h\<rparr>)"
  shows "wp (for_each (\<lambda>p. catch_runtime (tcp_sendMessage E msg (snd p)) (\<lambda>_. return ())) ps) Q R s"
  using assms(2)
proof (induction ps arbitrary: s)
  case Nil
  then show ?case using Nil [of "trace s"] by (simp add: wp_simps)
next
  case (Cons p ps)
  show ?case
    unfolding for_each.simps wp_thenE wp_dccp_send_one [OF assms(1)]
    by (rule Cons.IH) (use Cons.prems in simp)
qed

lemma dccp_send_all:
  assumes "std_mutex E" and "checks_ok E" and "tcp_inv s" and "peers_mtx s = 0"
  shows "wp (dccp_send E msg) (\<lambda>_ t. \<exists>h. t = s\<lparr>trace := h\<rparr> \<and>
      map fst h = rev (map (\<lambda>p. C_send (fst p) msg) (tcp_peers s)) @ map fst (trace s)) (\<lambda>_ _. False) s"
proof -
  have "\<forall>p\<in>set (tcp_peers s). peer_ok p"
    using assms(3) by (auto simp: tcp_inv_def tcp_shape_def)
  then have fds: "map (\<lambda>p. C_send (raw_fd (peer_fd (snd p))) msg) (tcp_peers s) =
      map (\<lambda>p. C_send (fst p) msg) (tcp_peers s)"
    by (auto simp: peer_ok_def)
  show ?thesis
    unfolding dccp_send_def wp_with_lock_free [OF assms(1,4)] wp_bindE wp_gets
    by (rule wp_dccp_sends [OF assms(2)]) (use fds assms(4) in auto)
qed

section \<open>Properties\<close>

text \<open>
  \<open>send\<close> on a DCCP socket never fails: every peer is offered the message exactly once, in
  ascending order of the descriptors, whatever the calls before it returned, and nothing else of
  the object changes.
\<close>

theorem dccp_send_tolerates_failures:
  assumes "std_mutex E" and "checks_ok E" and "tcp_inv s" and "peers_mtx s = 0"
  shows "wp (dccp_send E msg) (\<lambda>_ t. \<exists>h. t = s\<lparr>trace := h\<rparr> \<and>
      map fst h = rev (map (\<lambda>p. C_send (fst p) msg) (tcp_peers s)) @ map fst (trace s)) (\<lambda>_ _. False) s"
  by (rule dccp_send_all [OF assms])

theorem dccp_send_tolerates_failures_witness:
  "wp (dccp_send (demo_tcp_env []) ''hi'') (\<lambda>_ t. fst (hd (trace t)) = C_send 4 ''hi'') (\<lambda>_ _. False) demo_tcp"
  by (rule wp_mono [OF dccp_send_tolerates_failures [of "demo_tcp_env []" demo_tcp "''hi''"]])
    (auto dest: arg_cong [where f = hd] simp: hd_map)

text \<open>
  The goodbye of a DCCP socket: after any sequence of operations that leaves the mutex free,
  the destructor first offers \<open>q\<close> to every peer once and then closes every descriptor once;
  it ends normally.
\<close>

theorem dccp_goodbye:
  assumes "descriptors_ok E" and "std_mutex E" and "accounts (trace s0) {}"
    and "reachable (\<lambda>t. dccp_ctor E locals s0 = (Inr (), t)) (dccp_ops E) s" and "peers_mtx s = 0"
  shows "wp (dccp_dtor E) (\<lambda>_ t. live (trace t) = {} \<and> sound_closes (trace t) \<and>
      (\<exists>u. map fst (trace t) = u @ rev (map (\<lambda>p. C_send (fst p) ''q'') (tcp_peers s)) @ map fst (trace s)))
    (\<lambda>_ _. False) s"
proof -
  have inv: "tcp_inv s" by (rule dccp.reachable_inv [OF assms(1,3,4)])
  have ok: "checks_ok E" using assms(1) by (simp add: descriptors_ok_def)
  have rest: "wp (tcp_dtor E) (\<lambda>_ t. live (trace t) = {} \<and> sound_closes (trace t) \<and>
      (\<exists>u. map fst (trace t) = u @ rev (map (\<lambda>p. C_send (fst p) ''q'') (tcp_peers s)) @ map fst (trace s)))
      (\<lambda>_ _. False) t"
    if h: "t = s\<lparr>trace := h\<rparr>" "map fst h = rev (map (\<lambda>p. C_send (fst p) ''q'') (tcp_peers s)) @ map fst (trace s)"
      and t: "tcp_inv t" for t h
    by (rule wp_mono [OF wp_conj [OF tcp_dtor_closes [OF t] grows_wp [OF grows_tcp_dtor]]])
      (use h in \<open>auto simp: accounts_def\<close>)
  from wp_conj [OF dccp_send_all [OF assms(2) ok inv assms(5)] keepsD [OF keeps_dccp_send inv]]
  have "wp (dccp_send E ''q'') (\<lambda>_. wp (tcp_dtor E) (\<lambda>_ t. live (trace t) = {} \<and> sound_closes (trace t) \<and>
      (\<exists>u. map fst (trace t) = u @ rev (map (\<lambda>p. C_send (fst p) ''q'') (tcp_peers s)) @ map fst (trace s)))
      (\<lambda>_ _. False)) (\<lambda>_ _. False) s"
    by (rule wp_mono) (use rest in auto)
  then show ?thesis by (simp add: dccp_dtor_def quit_msg_def wp_simps)
qed

theorem dccp_goodbye_witness:
  "\<exists>s. fst ` set (tcp_peers s) = {4} \<and>
     wp (dccp_dtor (demo_tcp_env [])) (\<lambda>_ t. live (trace t) = {} \<and> C_send 4 ''q'' \<in> set (map fst (trace t)))
       (\<lambda>_ _. False) (s :: SocketTcp)"
proof -
  let ?E = "demo_tcp_env []"
  have "wp (thenE (dccp_ctor ?E [demo_addr]) (tcp_connect ?E [demo_addr]))
     (\<lambda>_ t. fst ` set (tcp_peers t) = {4} \<and> peers_mtx t = 0) (\<lambda>_ _. False) demo_tcp_fresh"
    by (simp add: dccp_ctor_def demo_tcp_eval tcp_connect_def with_lock_def lock_peers_def unlock_peers_def
        demo_lock_def tcp_connect_one_def tcp_createConnectSocket_def Socket_connect_fd_def tcp_emplace_def
        fd_move_def Let_def)
  from wp_run [OF this] obtain s where run: "thenE (dccp_ctor ?E [demo_addr]) (tcp_connect ?E [demo_addr])
      demo_tcp_fresh = (Inr (), s)" and s: "fst ` set (tcp_peers s) = {4}" "peers_mtx s = 0"
    by auto
  then obtain s1 where s1: "dccp_ctor ?E [demo_addr] demo_tcp_fresh = (Inr (), s1)"
      "tcp_connect ?E [demo_addr] s1 = (Inr (), s)"
    by (auto simp: thenE_def bindE_def split: prod.splits sum.splits)
  have "reachable (\<lambda>t. dccp_ctor ?E [demo_addr] demo_tcp_fresh = (Inr (), t)) (dccp_ops ?E) s1"
    by (rule reachable.start) (rule s1(1))
  then have "reachable (\<lambda>t. dccp_ctor ?E [demo_addr] demo_tcp_fresh = (Inr (), t)) (dccp_ops ?E) s"
    by (rule reachable.returns [where m = "tcp_connect ?E [demo_addr]"]) (simp_all add: dccp_ops_def s1(2))
  moreover have "accounts (trace demo_tcp_fresh) {}"
    by (simp add: demo_tcp_fresh_def accounts_def)
  moreover have m: "C_send 4 ''q'' \<in> set (map (\<lambda>p. C_send (fst p) ''q'') (tcp_peers s))"
  proof -
    obtain p where "p \<in> set (tcp_peers s)" "fst p = 4" using s(1) by (metis imageE insertI1)
    then show ?thesis by (auto intro: rev_image_eqI)
  qed
  ultimately have "wp (dccp_dtor ?E) (\<lambda>_ t. live (trace t) = {} \<and> sound_closes (trace t) \<and>
      (\<exists>u. map fst (trace t) = u @ rev (map (\<lambda>p. C_send (fst p) ''q'') (tcp_peers s)) @ map fst (trace s)))
    (\<lambda>_ _. False) s"
    by (intro dccp_goodbye) (simp_all add: s(2))
  then have "wp (dccp_dtor ?E) (\<lambda>_ t. live (trace t) = {} \<and> C_send 4 ''q'' \<in> set (map fst (trace t))) (\<lambda>_ _. False) s"
    by (rule wp_mono) (use m in \<open>auto simp del: set_map\<close>)
  then show ?thesis using s(1) by blast
qed

text \<open>
  What a DCCP socket makes of a message of a known peer. A failed \<open>recv\<close> leaves as an
  exception, with the peer untouched; the empty message and \<open>q\<close> both end in a
  handler that locks the mutex twice and hangs; any other message that fits the buffer is logged.
\<close>

theorem dccp_message_kinds:
  fixes E s fd p
  defines "r \<equiv> os E (trace s) (C_recv fd (length (peer_msg_buffer p)))"
  assumes "std_mutex E" and "checks_ok E" and "recv_ok E" and "peers_mtx s = 0"
    and "fd \<noteq> raw_fd (sk_fd s)" and "map_of (tcp_peers s) fd = Some p"
    and "length (odata r) < length (peer_msg_buffer p)"
  shows "wp (dccp_handleMessage E fd)
    (\<lambda>_ t. 0 \<le> rv r \<and> c_str (odata r) \<notin> {[], ''q''} \<and>
       fst (hd (trace t)) = C_log_received (c_str (odata r)))
    (\<lambda>e t. if rv r < 0 then is_exception e \<and> tcp_peers t = tcp_peers s \<and> peers_mtx t = 0
       else if c_str (odata r) \<in> {[], ''q''} then e = Deadlock
       else fst (hd (trace t)) = C_getpeername fd) s"
proof (cases "rv r < 0")
  case True
  then show ?thesis
    using assms(2,3,5-7)
    by (simp add: dccp_handleMessage_def wp_simps wp_tcp_receiveMessage r_def)
next
  case False
  then have r: "rv r = int (length (odata r))"
    using recv_okD(1) [OF assms(4), of "C_recv fd (length (peer_msg_buffer p))" fd _ "trace s"]
    by (simp add: r_def)
  obtain b where b: "store_received (peer_msg_buffer p) r = Inr b" "c_str b = c_str (odata r)"
    using store_received_ok [OF r assms(8)] by auto
  show ?thesis
    using assms(2,3,5-7) b False
    unfolding dccp_handleMessage_def Let_def
    by (simp add: wp_simps wp_tcp_receiveMessage wp_tcp_getBuffer
        wp_tcp_handleGracefulShutdown wp_tcp_handleCommLost map_of_update quit_msg_def
        r_def [symmetric] Socket_getPeerAddresses_def getAddresses_def checks_ok_eq log_received_def
        split: sum.split)
qed

theorem dccp_message_kinds_witness:
  "wp (dccp_handleMessage (demo_tcp_env ''hi'') 4) (\<lambda>_ t. fst (hd (trace t)) = C_log_received ''hi'')
     (\<lambda>e t. fst (hd (trace t)) = C_getpeername 4) demo_tcp \<and>
   wp (dccp_handleMessage (demo_tcp_env ''q'') 4) (\<lambda>_ _. False) (\<lambda>e t. e = Deadlock) demo_tcp"
proof -
  have 1: "wp (dccp_handleMessage (demo_tcp_env ''hi'') 4) (\<lambda>_ t. fst (hd (trace t)) = C_log_received ''hi'')
     (\<lambda>e t. fst (hd (trace t)) = C_getpeername 4) demo_tcp"
    by (rule wp_mono [OF dccp_message_kinds [of "demo_tcp_env ''hi''" demo_tcp 4 demo_peer]])
      (simp_all add: c_str_def)
  moreover have "wp (dccp_handleMessage (demo_tcp_env ''q'') 4) (\<lambda>_ _. False) (\<lambda>e t. e = Deadlock) demo_tcp"
    by (rule wp_mono [OF dccp_message_kinds [of "demo_tcp_env ''q''" demo_tcp 4 demo_peer]])
      (simp_all add: c_str_def)
  ultimately show ?thesis by blast
qed

end
