(* ===== verification/SocketUdp.thy ===== *)
theory SocketUdp
  imports SocketClass
begin

text \<open>
  \<open>src/src/SocketUdp.cpp\<close>: the datagram socket. Its peers are the keys of \<open>udp_peers\<close>, the
  addresses it has connected to or received from; for each it holds two scheduled tasks, one that
  pings the peer and one that gives it up. Tasks are held by weak pointers: a number the scheduler
  gave out, or none.
\<close>

record UdpPeer =
  ping_task :: "nat option"
  comm_lost_task :: "nat option"

record SocketUdp = Socket +
  udp_peers :: "(IPSocket, UdpPeer) std_map"
  udp_local :: string

section \<open>Methods\<close>

definition keep_alive_period :: int where "keep_alive_period = 1000"
definition keep_alive_probes :: nat where "keep_alive_probes = 3"
definition keep_alive_msg :: string where "keep_alive_msg = ''ka''"
definition keep_alive_ack_msg :: string where "keep_alive_ack_msg = ''kack''"

lemmas keep_alive_defs = keep_alive_period_def keep_alive_probes_def keep_alive_msg_def
  keep_alive_ack_msg_def

definition udp_init_members :: "IPSocket list \<Rightarrow> ('z SocketUdp_scheme, unit) io" where
  "udp_init_members locals =
     (case locals of
        [] \<Rightarrow> throw (Undefined ''front of an empty vector'')
      | local # _ \<Rightarrow> modify (\<lambda>s. s\<lparr>udp_peers := [], udp_local := addr local\<rparr>))"

definition udp_ctor :: "env \<Rightarrow> IPSocket list \<times> int \<Rightarrow> ('z SocketUdp_scheme, unit) io" where
  "udp_ctor E = (\<lambda>(locals, protocol).
     thenE (Socket_ctor E locals SOCK_DGRAM protocol AF_UNSPEC False)
       (on_unwind
         (thenE (udp_init_members locals)
           (bindE (gets (\<lambda>s. raw_fd (sk_fd s))) (\<lambda>fd.
             thenE (Socket_configure E fd) (Socket_bind E (Socket_getBoundAddresses E) fd locals))))
         (Socket_dtor E)))"

definition udp_send_to :: "env \<Rightarrow> string \<Rightarrow> IPSocket \<Rightarrow> ('z SocketUdp_scheme, unit) io" where
  "udp_send_to E msg remote =
     bindE (lift_sum (to_sockaddr_storage E remote)) (\<lambda>saddr.
     bindE (gets (\<lambda>s. raw_fd (sk_fd s))) (\<lambda>fd.
     bindE (sys E (C_sendto fd msg (take (sizeofSockaddr remote) saddr))) (\<lambda>r. check E ''Send'' (failedSend (rv r)))))"

definition udp_send :: "env \<Rightarrow> string \<Rightarrow> ('z SocketUdp_scheme, unit) io" where
  "udp_send E msg = bindE (gets udp_peers) (for_each (\<lambda>p. udp_send_to E msg (fst p)))"

definition udp_dtor :: "env \<Rightarrow> ('z SocketUdp_scheme, unit) io" where
  "udp_dtor E = thenE (no_throw (udp_send E quit_msg)) (Socket_dtor E)"

definition udp_schedulePing :: "env \<Rightarrow> IPSocket \<Rightarrow> ('z SocketUdp_scheme, nat option) io" where
  "udp_schedulePing E remote =
     bindE (sys E (C_schedule (T_ping remote) keep_alive_period (Some keep_alive_probes)))
       (\<lambda>r. return (Some (nat (rv r))))"

definition udp_scheduleCommLost :: "env \<Rightarrow> IPSocket \<Rightarrow> ('z SocketUdp_scheme, nat option) io" where
  "udp_scheduleCommLost E remote =
     bindE (sys E (C_schedule (T_comm_lost remote) (keep_alive_period * (int keep_alive_probes + 1)) None))
       (\<lambda>r. return (Some (nat (rv r))))"

text \<open>\<open>emplace\<close> changes nothing when the peer is there: the two new pointers are dropped.\<close>

definition udp_handleCommUp :: "env \<Rightarrow> IPSocket \<Rightarrow> ('z SocketUdp_scheme, unit) io" where
  "udp_handleCommUp E remote =
     bindE (udp_schedulePing E remote) (\<lambda>ping.
     bindE (udp_scheduleCommLost E remote) (\<lambda>lost.
       modify (\<lambda>s. s\<lparr>udp_peers :=
         map_emplace remote \<lparr>ping_task = ping, comm_lost_task = lost\<rparr> (udp_peers s)\<rparr>)))"

definition udp_connect :: "env \<Rightarrow> IPSocket list \<Rightarrow> ('z SocketUdp_scheme, unit) io" where
  "udp_connect E = for_each (udp_handleCommUp E)"

text \<open>
  \<open>task.lock()\<close>: whether the pointer still leads to a task. \<open>peers[remote]\<close> inserts a
  peer without tasks when there is none.
\<close>

definition task_lock :: "env \<Rightarrow> nat option \<Rightarrow> ('z world_scheme, nat option) io" where
  "task_lock E t =
     (case t of
        None \<Rightarrow> return None
      | Some i \<Rightarrow> bindE (sys E (C_task_lock i)) (\<lambda>r. return (if rv r \<noteq> 0 then Some i else None)))"

definition udp_peer_ref :: "IPSocket \<Rightarrow> ('z SocketUdp_scheme, UdpPeer) io" where
  "udp_peer_ref remote =
     thenE (modify (\<lambda>s. s\<lparr>udp_peers :=
         map_emplace remote \<lparr>ping_task = None, comm_lost_task = None\<rparr> (udp_peers s)\<rparr>))
       (gets (\<lambda>s. the (map_of (udp_peers s) remote)))"

definition udp_resetTasks :: "env \<Rightarrow> IPSocket \<Rightarrow> ('z SocketUdp_scheme, unit) io" where
  "udp_resetTasks E remote =
     bindE (udp_peer_ref remote) (\<lambda>peer.
     bindE (task_lock E (ping_task peer)) (\<lambda>ping.
     thenE
       (case ping of
          Some i \<Rightarrow> thenE (sys E (C_task_reset i)) (return ())
        | None \<Rightarrow> bindE (udp_schedulePing E remote) (\<lambda>t. modify (\<lambda>s. s\<lparr>udp_peers :=
              map_update remote (\<lambda>p. p\<lparr>ping_task := t\<rparr>) (udp_peers s)\<rparr>)))
     (bindE (task_lock E (comm_lost_task peer)) (\<lambda>lost.
       case lost of Some i \<Rightarrow> thenE (sys E (C_task_reset i)) (return ()) | None \<Rightarrow> return ()))))"

definition udp_disableTasks :: "env \<Rightarrow> IPSocket \<Rightarrow> ('z SocketUdp_scheme, unit) io" where
  "udp_disableTasks E remote =
     bindE (udp_peer_ref remote) (\<lambda>peer.
     bindE (task_lock E (ping_task peer)) (\<lambda>ping.
     thenE (case ping of Some i \<Rightarrow> thenE (sys E (C_task_disable i)) (return ()) | None \<Rightarrow> return ())
     (bindE (task_lock E (comm_lost_task peer)) (\<lambda>lost.
       case lost of Some i \<Rightarrow> thenE (sys E (C_task_disable i)) (return ()) | None \<Rightarrow> return ()))))"

definition udp_remove :: "env \<Rightarrow> IPSocket \<Rightarrow> ('z SocketUdp_scheme, unit) io" where
  "udp_remove E remote =
     thenE (udp_disableTasks E remote)
       (modify (\<lambda>s. s\<lparr>udp_peers := map_erase remote (udp_peers s)\<rparr>))"

definition udp_handleGracefulShutdown :: "env \<Rightarrow> IPSocket \<Rightarrow> ('z SocketUdp_scheme, unit) io" where
  "udp_handleGracefulShutdown E remote = udp_remove E remote"

definition udp_handleCommLost :: "env \<Rightarrow> IPSocket \<Rightarrow> ('z SocketUdp_scheme, unit) io" where
  "udp_handleCommLost E remote = thenE (scheduleReestablishment E remote) (udp_remove E remote)"

text \<open>\<open>udp_dispatch\<close> is the part of \<open>handleMessage\<close> behind the report of the message.\<close>

definition udp_dispatch :: "env \<Rightarrow> string \<Rightarrow> IPSocket \<Rightarrow> ('z SocketUdp_scheme, unit) io" where
  "udp_dispatch E msg remote =
     (if msg = quit_msg then udp_handleGracefulShutdown E remote
      else
        thenE (if msg = keep_alive_msg then udp_send_to E keep_alive_ack_msg remote else return ())
        (bindE (gets (\<lambda>s. map_of (udp_peers s) remote)) (\<lambda>p.
         if p \<noteq> None then udp_resetTasks E remote else udp_handleCommUp E remote)))"

definition udp_handleMessage :: "env \<Rightarrow> FD \<Rightarrow> ('z SocketUdp_scheme, unit) io" where
  "udp_handleMessage E fd =
     bindE (Socket_getBuffer fd) (\<lambda>msg_buffer.
     bindE (sys E (C_recvfrom fd (length msg_buffer))) (\<lambda>r.
     thenE (check E ''Receive'' (failedReceive (rv r)))
     (bindE (lift_sum (store_received msg_buffer r)) (\<lambda>b.
     thenE (modify (\<lambda>s. s\<lparr>main_msg_buffer := b\<rparr>))
     (bindE (lift_sum (IPSocket_of_sockaddr E (storage r))) (\<lambda>remote.
      thenE (log_received E (c_str b)) (udp_dispatch E (c_str b) remote)))))))"

definition udp_receive :: "env \<Rightarrow> ('z SocketUdp_scheme, unit) io" where
  "udp_receive E = Socket_receive E (Socket_selectFds E) (udp_handleMessage E)"

text \<open>The closures given to the scheduler.\<close>

fun udp_task :: "env \<Rightarrow> task \<Rightarrow> ('z SocketUdp_scheme, unit) io" where
  "udp_task E (T_connect remote) = udp_connect E [remote]"
| "udp_task E (T_ping remote) = udp_send_to E keep_alive_msg remote"
| "udp_task E (T_comm_lost remote) = udp_handleCommLost E remote"

definition udp_ops :: "env \<Rightarrow> ('z SocketUdp_scheme, unit) io set" where
  "udp_ops E = range (Socket_listen E) \<union> range (udp_connect E) \<union> range (udp_send E) \<union>
     {udp_receive E} \<union> range (udp_task E)"

section \<open>Invariant\<close>

text \<open>
  The map is ordered, every peer holds both its tasks, and the one descriptor opened and not
  closed is the socket's.
\<close>

definition udp_inv :: "'z SocketUdp_scheme \<Rightarrow> bool" where
  "udp_inv s \<longleftrightarrow> std_map_ok (udp_peers s) \<and>
     (\<forall>p\<in>set (udp_peers s). ping_task (snd p) \<noteq> None \<and> comm_lost_task (snd p) \<noteq> None) \<and>
     sole_fd s"

lemma udp_inv_other [simp]:
  "udp_inv (s\<lparr>fds := F\<rparr>) = udp_inv s" "udp_inv (s\<lparr>fd_max := m\<rparr>) = udp_inv s"
  "udp_inv (s\<lparr>selected_fds := l\<rparr>) = udp_inv s" "udp_inv (s\<lparr>main_msg_buffer := b\<rparr>) = udp_inv s"
  by (simp_all add: udp_inv_def)

lemma udp_inv_neutral [simp]: "neutral t \<Longrightarrow> udp_inv (s\<lparr>trace := t @ trace s\<rparr>) = udp_inv s"
  by (simp add: udp_inv_def)

lemma udp_inv_call [simp]: "neutral_call c \<Longrightarrow> udp_inv (s\<lparr>trace := (c, r) # trace s\<rparr>) = udp_inv s"
  by (simp add: udp_inv_def)

lemma udp_inv_trace:
  "udp_inv s \<Longrightarrow> (\<And>L. accounts (trace s) L \<Longrightarrow> accounts h L) \<Longrightarrow> udp_inv (s\<lparr>trace := h\<rparr>)"
  by (auto simp: udp_inv_def)

lemma udp_inv_stable: "stable udp_inv"
  by (auto simp: stable_def)

lemma keeps_udp_quiet: "quiet m \<Longrightarrow> keeps udp_inv m"
  by (rule quiet_keeps [OF _ udp_inv_stable])

lemma keeps_udp_set [keeps_intros]:
  "keeps udp_inv FDSet_reset" "keeps udp_inv (FDSet_set fd)" "keeps udp_inv (FDSet_select E t)"
  unfolding FDSet_reset_def FDSet_set_def FDSet_select_def FDSet_selectImpl_def
  by (intro keeps_intros keeps_modify keeps_udp_quiet quiet_intros; simp)+

lemma udp_peers_same [simp]: "udp_peers s = m \<Longrightarrow> s\<lparr>udp_peers := m\<rparr> = s"
  by (cases s) simp

text \<open>A normal form: the history is updated last.\<close>

lemma udp_trace_last [simp]: "s\<lparr>trace := h, udp_peers := m\<rparr> = s\<lparr>udp_peers := m, trace := h\<rparr>"
  by simp

lemma udp_inv_emplace:
  assumes "udp_inv s" and "ping_task p \<noteq> None" and "comm_lost_task p \<noteq> None"
  shows "udp_inv (s\<lparr>udp_peers := map_emplace k p (udp_peers s)\<rparr>)"
  using assms by (auto simp: udp_inv_def std_map_ok_emplace std_map.set_emplace split: if_splits)

lemma udp_inv_erase: "udp_inv s \<Longrightarrow> udp_inv (s\<lparr>udp_peers := map_erase k (udp_peers s)\<rparr>)"
  by (auto simp: udp_inv_def std_map_ok_erase set_map_erase)

lemma udp_inv_ping:
  "udp_inv s \<Longrightarrow> t \<noteq> None \<Longrightarrow>
     udp_inv (s\<lparr>udp_peers := map_update k (\<lambda>p. p\<lparr>ping_task := t\<rparr>) (udp_peers s)\<rparr>)"
  by (auto simp: udp_inv_def std_map_ok_update set_map_update)

section \<open>What the operations do\<close>

lemma quiet_udp [quiet_intros]: "quiet (udp_send_to E msg remote)" "quiet (udp_send E msg)"
  "quiet (udp_schedulePing E remote)" "quiet (udp_scheduleCommLost E remote)"
  unfolding udp_send_def udp_send_to_def udp_schedulePing_def udp_scheduleCommLost_def
  by (intro quiet_intros; simp)+

lemma quiet_task_lock [quiet_intros]: "quiet (task_lock E t)"
  unfolding task_lock_def by (cases t) (simp, intro quiet_intros, simp, intro quiet_intros, simp)

text \<open>A new peer gets the two tasks; a known one stays as it is, and the tasks belong to nobody.\<close>

lemma wp_udp_handleCommUp:
  "wp (udp_handleCommUp E remote) Q R = (\<lambda>s.
     let c = C_schedule (T_ping remote) 1000 (Some 3); r = os E (trace s) c;
         c' = C_schedule (T_comm_lost remote) 4000 None; r' = os E ((c, r) # trace s) c'
     in Q () (s\<lparr>udp_peers := map_emplace remote
          \<lparr>ping_task = Some (nat (rv r)), comm_lost_task = Some (nat (rv r'))\<rparr> (udp_peers s),
        trace := (c', r') # (c, r) # trace s\<rparr>))"
  by (simp add: fun_eq_iff udp_handleCommUp_def udp_schedulePing_def udp_scheduleCommLost_def
      keep_alive_defs wp_simps Let_def)

lemma wp_udp_peer_ref:
  "wp (udp_peer_ref remote) Q R = (\<lambda>s. let m = map_emplace remote \<lparr>ping_task = None, comm_lost_task = None\<rparr>
     (udp_peers s) in Q (the (map_of m remote)) (s\<lparr>udp_peers := m\<rparr>))"
  by (simp add: fun_eq_iff udp_peer_ref_def wp_simps Let_def)

lemma wp_udp_peer_ref_known:
  assumes "std_map_ok (udp_peers s)" and "map_of (udp_peers s) remote = Some p"
  shows "wp (udp_peer_ref remote) Q R s = Q p s"
proof -
  have "remote \<in> fst ` set (udp_peers s)" using map_of_SomeD [OF assms(2)] by force
  then have "map_emplace remote x (udp_peers s) = udp_peers s" for x
    by (rule map_emplace_present [OF assms(1)])
  then show ?thesis using assms(2) by (simp add: wp_udp_peer_ref)
qed

text \<open>Whether the peer was known or not, after \<open>remove\<close> it is not.\<close>

lemma wp_udp_remove:
  assumes "\<And>t. neutral t \<Longrightarrow>
    Q () (s\<lparr>trace := t @ trace s, udp_peers := map_erase remote (udp_peers s)\<rparr>)"
  shows "wp (udp_remove E remote) Q R s"
proof -
  let ?m = "map_emplace remote \<lparr>ping_task = None, comm_lost_task = None\<rparr> (udp_peers s)"
  let ?p = "the (map_of ?m remote)"
  have q: "quiet (bindE (task_lock E (ping_task ?p)) (\<lambda>ping.
     thenE (case ping of Some i \<Rightarrow> thenE (sys E (C_task_disable i)) (return ()) | None \<Rightarrow> return ())
     (bindE (task_lock E (comm_lost_task ?p)) (\<lambda>lost.
       case lost of Some i \<Rightarrow> thenE (sys E (C_task_disable i)) (return ()) | None \<Rightarrow> return ()))))"
    by (intro quiet_intros) (auto intro!: quiet_intros split: option.split)
  have never: "wp (bindE (task_lock E (ping_task ?p)) (\<lambda>ping.
     thenE (case ping of Some i \<Rightarrow> thenE (sys E (C_task_disable i)) (return ()) | None \<Rightarrow> return ())
     (bindE (task_lock E (comm_lost_task ?p)) (\<lambda>lost.
       case lost of Some i \<Rightarrow> thenE (sys E (C_task_disable i)) (return ()) | None \<Rightarrow> return ()))))
     (\<lambda>_ _. True) (\<lambda>_ _. False) u" for u :: "'a SocketUdp_scheme"
    by (auto simp: wp_simps task_lock_def split: option.split)
  have "wp (udp_disableTasks E remote)
      (\<lambda>_ u. \<exists>t. neutral t \<and> u = s\<lparr>udp_peers := ?m, trace := t @ trace s\<rparr>) (\<lambda>_ _. False) s"
    unfolding udp_disableTasks_def wp_bindE [of "udp_peer_ref remote"] wp_udp_peer_ref Let_def
    by (rule wp_mono [OF wp_conj [OF never quiet_wp [OF q,
          where Q = "\<lambda>_ u. \<exists>t. neutral t \<and> u = s\<lparr>udp_peers := ?m, trace := t @ trace s\<rparr>" and R = "\<lambda>_ _. True"]]])
      auto
  then have "wp (udp_disableTasks E remote)
      (\<lambda>_ u. Q () (u\<lparr>udp_peers := map_erase remote (udp_peers u)\<rparr>)) R s"
    by (rule wp_mono) (use assms in \<open>auto simp: map_erase_emplace\<close>)
  then show ?thesis by (simp add: udp_remove_def wp_simps)
qed

text \<open>Resetting the tasks of a known peer keeps both, or replaces the ping by a new one.\<close>

lemma wp_udp_resetTasks:
  assumes "std_map_ok (udp_peers s)" and "map_of (udp_peers s) remote \<noteq> None"
    and "\<And>t m. neutral t \<Longrightarrow> m = udp_peers s \<or>
        (\<exists>k. m = map_update remote (\<lambda>p. p\<lparr>ping_task := Some k\<rparr>) (udp_peers s)) \<Longrightarrow>
      Q () (s\<lparr>udp_peers := m, trace := t @ trace s\<rparr>)"
  shows "wp (udp_resetTasks E remote) Q R s"
proof -
  obtain p where p: "map_of (udp_peers s) remote = Some p" using assms(2) by auto
  have lost: "wp (bindE (task_lock E (comm_lost_task p)) (\<lambda>lost.
      case lost of Some i \<Rightarrow> thenE (sys E (C_task_reset i)) (return ()) | None \<Rightarrow> return ())) Q R
      (s\<lparr>udp_peers := m, trace := u @ trace s\<rparr>)"
    if "neutral u" and m: "m = udp_peers s \<or>
        (\<exists>k. m = map_update remote (\<lambda>p. p\<lparr>ping_task := Some k\<rparr>) (udp_peers s))" for u m
  proof -
    have "Q () (s\<lparr>udp_peers := m, trace := (v @ u) @ trace s\<rparr>)" if "neutral v" for v
      by (rule assms(3)) (use m that \<open>neutral u\<close> in auto)
    from this [of "[]"] this [of "[x]" for x] this [of "[y, x]" for x y]
    show ?thesis
      by (auto simp: task_lock_def wp_simps split: option.split)
  qed
  let ?lost = "bindE (task_lock E (comm_lost_task p)) (\<lambda>lost.
      case lost of Some i \<Rightarrow> thenE (sys E (C_task_reset i)) (return ()) | None \<Rightarrow> return ())"
  have lost1: "wp ?lost Q R (s\<lparr>trace := u @ trace s\<rparr>)" if "neutral u" for u
    using lost [OF that, of "udp_peers s"] by simp
  have lost2: "wp ?lost Q R (s\<lparr>udp_peers :=
      map_update remote (\<lambda>p. p\<lparr>ping_task := Some k\<rparr>) (udp_peers s), trace := u @ trace s\<rparr>)"
    if "neutral u" for u k
    by (rule lost [OF that]) blast
  from lost1 [of "[]"] lost1 [of "[x]" for x] lost1 [of "[y, x]" for x y] lost2 [of "[x]" for x]
    lost2 [of "[y, x]" for x y]
  show ?thesis
    unfolding udp_resetTasks_def wp_bindE [of "udp_peer_ref remote"] wp_udp_peer_ref_known [OF assms(1) p]
      wp_bindE [of "task_lock E (ping_task p)"] wp_thenE [of "case_option f g x" for f g x]
    by (auto simp: task_lock_def [of E "ping_task p"] udp_schedulePing_def wp_return wp_bindE [of "sys E c" for c]
        wp_thenE [of "sys E c" for c] wp_sys wp_bindE [of "bindE m f" for m f] wp_modify split: option.split)
qed

section \<open>The set of peers\<close>

text \<open>The addresses known as peers.\<close>

definition udp_known :: "'z SocketUdp_scheme \<Rightarrow> IPSocket set" where
  "udp_known s = fst ` set (udp_peers s)"

lemma udp_known_other [simp]:
  "udp_known (s\<lparr>trace := h\<rparr>) = udp_known s" "udp_known (s\<lparr>main_msg_buffer := b\<rparr>) = udp_known s"
  by (simp_all add: udp_known_def)

lemma udp_known_update [simp]:
  "udp_known (s\<lparr>udp_peers := map_emplace k p (udp_peers s)\<rparr>) = insert k (udp_known s)"
  "udp_known (s\<lparr>udp_peers := map_erase k (udp_peers s)\<rparr>) = udp_known s - {k}"
  "udp_known (s\<lparr>udp_peers := map_update k f (udp_peers s)\<rparr>) = udp_known s"
  by (simp_all add: udp_known_def keys_map_emplace keys_map_erase keys_map_update)

text \<open>What a datagram other than the goodbye does to the peers.\<close>

lemma wp_udp_seen:
  assumes "udp_inv s"
  shows "wp (bindE (gets (\<lambda>s. map_of (udp_peers s) remote)) (\<lambda>p.
      if p \<noteq> None then udp_resetTasks E remote else udp_handleCommUp E remote))
    (\<lambda>_ t. udp_inv t \<and> udp_known t = insert remote (udp_known s))
    (\<lambda>e t. is_exception e \<longrightarrow> udp_inv t \<and> udp_known t = udp_known s) s"
proof (cases "map_of (udp_peers s) remote = None")
  case True
  have new: "udp_inv (s\<lparr>udp_peers := map_emplace remote p (udp_peers s), trace := (c1, r1) # (c2, r2) # trace s\<rparr>)"
    if "neutral_call c1" "neutral_call c2" "ping_task p \<noteq> None" "comm_lost_task p \<noteq> None" for p c1 r1 c2 r2
    by (rule udp_inv_trace [OF udp_inv_emplace [OF assms that(3,4)]]) (use that in simp)
  have "wp (udp_handleCommUp E remote) (\<lambda>_ t. udp_inv t \<and> udp_known t = insert remote (udp_known s))
      (\<lambda>e t. is_exception e \<longrightarrow> udp_inv t \<and> udp_known t = udp_known s) s"
    unfolding wp_udp_handleCommUp Let_def by (intro conjI new) simp_all
  then show ?thesis using True by (simp add: wp_simps)
next
  case False
  then have "remote \<in> udp_known s" by (auto simp: udp_known_def map_of_eq_None_iff)
  moreover have "std_map_ok (udp_peers s)" using assms by (simp add: udp_inv_def)
  ultimately show ?thesis
    using False assms udp_inv_ping [of "s\<lparr>trace := h\<rparr>" "Some k" remote for h k]
    by (auto simp: wp_simps insert_absorb intro!: wp_udp_resetTasks)
qed

lemma wp_udp_dispatch:
  assumes "udp_inv s"
  shows "wp (udp_dispatch E msg remote)
    (\<lambda>_ t. udp_inv t \<and> udp_known t = known_after remote msg (udp_known s))
    (\<lambda>e t. is_exception e \<longrightarrow> udp_inv t \<and> udp_known t = udp_known s) s"
proof (cases "msg = quit_msg")
  case True
  have "udp_inv (s\<lparr>trace := t @ trace s, udp_peers := map_erase remote (udp_peers s)\<rparr>)" if "neutral t" for t
    using udp_inv_erase [of "s\<lparr>trace := t @ trace s\<rparr>" remote] assms that by simp
  then show ?thesis
    using True unfolding udp_dispatch_def udp_handleGracefulShutdown_def
    by (auto intro!: wp_udp_remove simp: known_after_def quit_msg_def)
next
  case False
  then have known: "known_after remote msg K = insert remote K" for K
    by (simp add: known_after_def quit_msg_def)
  have ack: "quiet (if msg = keep_alive_msg then udp_send_to E keep_alive_ack_msg remote else return () ::
      ('a SocketUdp_scheme, unit) io)"
    by (intro quiet_intros)
  show ?thesis
    unfolding udp_dispatch_def if_not_P [OF False] wp_thenE known
  proof (rule quiet_wp [OF ack])
    fix t
    assume "neutral t"
    then show "wp (bindE (gets (\<lambda>s. map_of (udp_peers s) remote)) (\<lambda>p.
        if p \<noteq> None then udp_resetTasks E remote else udp_handleCommUp E remote))
      (\<lambda>_ t. udp_inv t \<and> udp_known t = insert remote (udp_known s))
      (\<lambda>e t. is_exception e \<longrightarrow> udp_inv t \<and> udp_known t = udp_known s) (s\<lparr>trace := t @ trace s\<rparr>)"
      using wp_udp_seen [of "s\<lparr>trace := t @ trace s\<rparr>" remote E] assms by simp
  qed (use assms in simp)
qed

lemma wp_udp_handleMessage:
  fixes E s fd
  defines "r \<equiv> os E (trace s) (C_recvfrom fd (length (main_msg_buffer s)))"
  assumes "udp_inv s"
  shows "wp (udp_handleMessage E fd)
    (\<lambda>_ t. udp_inv t \<and> (\<exists>remote b. IPSocket_of_sockaddr E (storage r) = Inr remote \<and>
       store_received (main_msg_buffer s) r = Inr b \<and>
       udp_known t = known_after remote (c_str b) (udp_known s)))
    (\<lambda>e t. is_exception e \<longrightarrow> udp_inv t \<and> udp_known t = udp_known s) s"
proof -
  let ?c = "C_recvfrom fd (length (main_msg_buffer s))"
  let ?R = "\<lambda>e (t :: 'a SocketUdp_scheme). is_exception e \<longrightarrow> udp_inv t \<and> udp_known t = udp_known s"
  let ?s1 = "s\<lparr>trace := (?c, r) # trace s\<rparr>"
  have s1: "udp_inv ?s1" using assms(2) by simp
  have s2: "wp (thenE (log_received E (c_str b)) (udp_dispatch E (c_str b) remote))
     (\<lambda>_ t. udp_inv t \<and> udp_known t = known_after remote (c_str b) (udp_known s)) ?R
     (?s1\<lparr>main_msg_buffer := b\<rparr>)" for b remote
  proof -
    let ?s2 = "?s1\<lparr>main_msg_buffer := b\<rparr>"
    have "wp (udp_dispatch E (c_str b) remote)
      (\<lambda>_ t. udp_inv t \<and> udp_known t = known_after remote (c_str b) (udp_known s)) ?R
      (?s2\<lparr>trace := t @ trace ?s2\<rparr>)" if "neutral t" for t
      using wp_udp_dispatch [of "?s2\<lparr>trace := t @ trace ?s2\<rparr>" E "c_str b" remote]
        udp_inv_neutral [OF that, of ?s2] s1 by simp
    then show ?thesis
      unfolding wp_thenE by (intro quiet_wp [OF quiet_log_received]) (use s1 udp_inv_neutral [of _ ?s2] in auto)
  qed
  have s3: "wp (udp_handleMessage E fd) Q ?R s" 
    if "\<And>b remote. store_received (main_msg_buffer s) r = Inr b \<Longrightarrow>
       IPSocket_of_sockaddr E (storage r) = Inr remote \<Longrightarrow>
       wp (thenE (log_received E (c_str b)) (udp_dispatch E (c_str b) remote)) Q ?R (?s1\<lparr>main_msg_buffer := b\<rparr>)"
    for Q :: "unit \<Rightarrow> 'a SocketUdp_scheme \<Rightarrow> bool"
    unfolding udp_handleMessage_def Socket_getBuffer_def
    using that s1 by (auto simp: wp_bindE wp_gets wp_sys wp_check wp_modify wp_lift_sum
        wp_thenE [of "check E n f" for n f] wp_thenE [of "modify f" for f] r_def [symmetric]
        split: sum.split option.split)
  show ?thesis
    by (rule s3) (rule wp_mono [OF s2], auto)
qed

section \<open>Every operation keeps the invariant\<close>

lemma keeps_udp_handleCommUp [keeps_intros]: "keeps udp_inv (udp_handleCommUp E remote)"
proof (rule keepsI)
  fix s :: "'a SocketUdp_scheme"
  assume s: "udp_inv s"
  show "wp (udp_handleCommUp E remote) (\<lambda>_. udp_inv) (safely udp_inv) s"
    unfolding wp_udp_handleCommUp Let_def
    by (rule udp_inv_trace [OF udp_inv_emplace [OF s]]) simp_all
qed

lemma keeps_udp_remove [keeps_intros]: "keeps udp_inv (udp_remove E remote)"
proof (rule keepsI)
  fix s :: "'a SocketUdp_scheme"
  assume s: "udp_inv s"
  show "wp (udp_remove E remote) (\<lambda>_. udp_inv) (safely udp_inv) s"
    by (rule wp_udp_remove, unfold udp_trace_last, rule udp_inv_trace [OF udp_inv_erase [OF s]]) simp
qed

lemma keeps_udp_connect: "keeps udp_inv (udp_connect E remotes)"
  unfolding udp_connect_def by (intro keeps_intros)

lemma keeps_udp_handleMessage: "keeps udp_inv (udp_handleMessage E fd)"
  by (rule keepsI, rule wp_mono [OF wp_udp_handleMessage]) (auto simp: safely_def)

lemma keeps_udp_receive: "keeps udp_inv (udp_receive E)"
  unfolding udp_receive_def Socket_selectFds_def
  by (intro keeps_Socket_receive keeps_udp_handleMessage keeps_intros)

lemma keeps_udp_task: "keeps udp_inv (udp_task E t)"
proof (cases t)
  case (T_comm_lost remote)
  then show ?thesis
    by (simp add: udp_handleCommLost_def)
      (intro keeps_intros keeps_udp_quiet quiet_intros)
qed (simp_all add: keeps_udp_connect keeps_udp_quiet quiet_intros)

lemma keeps_udp_ops: "m \<in> udp_ops E \<Longrightarrow> keeps udp_inv m"
  unfolding udp_ops_def
  using keeps_udp_connect keeps_udp_receive keeps_udp_task keeps_udp_quiet [OF quiet_Socket_listen]
    keeps_udp_quiet [OF quiet_udp(2)]
  by fastforce

section \<open>Construction and destruction\<close>

lemma wp_udp_ctor:
  assumes "descriptors_ok E" and "accounts (trace s) {}"
    and "\<And>t. udp_inv t \<Longrightarrow> udp_peers t = [] \<Longrightarrow> Q () t"
    and "\<And>e t. is_exception e \<longrightarrow> accounts (trace t) {} \<Longrightarrow> R e t"
  shows "wp (udp_ctor E lp) Q R s"
proof -
  obtain locals protocol where lp: "lp = (locals, protocol)" by force
  show ?thesis
    unfolding udp_ctor_def lp prod.case
  proof (rule wp_construct [OF assms(1,2)])
    fix t :: "'a SocketUdp_scheme" and n
    assume t: "0 \<le> n" "sk_fd t = FileDescriptor_ctor n" "accounts (trace t) {n}"
    show "wp (thenE (udp_init_members locals)
           (bindE (gets (\<lambda>s. raw_fd (sk_fd s))) (\<lambda>fd.
             thenE (Socket_configure E fd) (Socket_bind E (Socket_getBoundAddresses E) fd locals)))) Q
         (\<lambda>e u. is_exception e \<longrightarrow> sk_fd u = FileDescriptor_ctor n \<and> accounts (trace u) {n}) t"
    proof (cases locals)
      case Nil
      then show ?thesis by (simp add: udp_init_members_def wp_simps)
    next
      case (Cons local rest)
      let ?t = "t\<lparr>udp_peers := [], udp_local := addr local\<rparr>"
      have q: "quiet (thenE (Socket_configure E n) (Socket_bind E (Socket_getBoundAddresses E) n locals))"
        by (intro quiet_intros)
      have inv: "udp_inv (?t\<lparr>trace := h\<rparr>)" if "accounts h {n}" for h
        using t that by (auto simp: udp_inv_def std_map_ok_def)
      have "wp (thenE (Socket_configure E n) (Socket_bind E (Socket_getBoundAddresses E) n locals)) Q
         (\<lambda>e u. is_exception e \<longrightarrow> sk_fd u = FileDescriptor_ctor n \<and> accounts (trace u) {n}) ?t"
        by (rule quiet_wp [OF q]) (use assms(3) [OF inv] t in auto)
      then show ?thesis
        unfolding Cons udp_init_members_def list.case wp_thenE [of "modify f" for f] wp_modify
          wp_bindE [of "gets f" for f] wp_gets
        using t(2) by simp
    qed
  qed (rule assms(4))
qed

lemma udp_dtor_closes:
  assumes "udp_inv s"
  shows "wp (udp_dtor E) (\<lambda>_ t. accounts (trace t) {}) (\<lambda>e _. \<not> is_exception e) s"
  using assms unfolding udp_dtor_def udp_inv_def by (intro wp_goodbye quiet_intros) simp

interpretation udp: socket_class descriptors_ok udp_ctor udp_ops udp_dtor trace udp_inv
proof unfold_locales
  fix E a and s :: "'a SocketUdp_scheme"
  assume "descriptors_ok E" and "accounts (trace s) {}"
  then show "wp (udp_ctor E a) (\<lambda>_. udp_inv) (\<lambda>e t. is_exception e \<longrightarrow> accounts (trace t) {}) s"
    by (rule wp_udp_ctor)
next
  fix E and m :: "('a SocketUdp_scheme, unit) io"
  assume "m \<in> udp_ops E"
  then show "keeps udp_inv m" by (rule keeps_udp_ops)
qed (rule udp_dtor_closes)

section \<open>Properties\<close>

text \<open>
  Objects for the examples: one before its construction, one with a peer.
\<close>

definition demo_udp_fresh :: SocketUdp where
  "demo_udp_fresh = \<lparr>trace = [], fds = {}, fd_max = 1, selected_fds = [],
     sk_fd = FileDescriptor_ctor invalid_fd, sk_family = AF_INET, sk_type = SOCK_DGRAM,
     main_msg_buffer = [], udp_peers = [], udp_local = []\<rparr>"

definition demo_udp :: SocketUdp where
  "demo_udp = demo_udp_fresh\<lparr>trace := [(C_socket AF_INET SOCK_DGRAM 0, reply 3)],
     sk_fd := FileDescriptor_ctor 3, main_msg_buffer := ''previous'',
     udp_peers := [(demo_addr, \<lparr>ping_task = Some 1, comm_lost_task = Some 2\<rparr>)]\<rparr>"

lemma demo_udp_sel [simp]:
  "raw_fd (sk_fd demo_udp) = 3" "main_msg_buffer demo_udp = ''previous''" "udp_known demo_udp = {demo_addr}"
  "udp_peers demo_udp = [(demo_addr, \<lparr>ping_task = Some 1, comm_lost_task = Some 2\<rparr>)]"
  "trace demo_udp = [(C_socket AF_INET SOCK_DGRAM 0, reply 3)]"
  by (simp_all add: demo_udp_def demo_udp_fresh_def udp_known_def)

lemma demo_udp_inv [simp]: "udp_inv demo_udp"
  by (simp add: udp_inv_def std_map_ok_def accounts_def demo_udp_def demo_udp_fresh_def)

lemmas demo_udp_eval = demo_eval udp_ctor_def Socket_ctor_def Socket_init_def Socket_create_def
  next_fd_def fd_move_assign_def fd_dtor_def fd_close_def FileDescriptor_ctor_def invalid_fd_def
  udp_init_members_def Socket_bind_def Socket_getBoundAddresses_def
  getAddresses_def chooseSocketFamily_def demo_udp_fresh_def

text \<open>
  A datagram socket leaks no descriptor: after any sequence of operations, expired timers and
  exceptions included, its destructor closes every descriptor the object opened, each once,
  unless it terminates the program (or hits undefined behaviour); it raises no exception.
\<close>

theorem udp_life_cycle:
  assumes "descriptors_ok E" and "accounts (trace s0) {}"
    and "reachable (\<lambda>t. udp_ctor E a s0 = (Inr (), t)) (udp_ops E) s"
  shows "wp (udp_dtor E) (\<lambda>_ t. live (trace t) = {} \<and> sound_closes (trace t)) (\<lambda>e _. \<not> is_exception e) s"
  by (rule udp.life_cycle [OF assms])

theorem udp_life_cycle_witness:
  "\<exists>s. udp_known s = {demo_addr} \<and>
     wp (udp_dtor (demo_env 16 [] demo_from)) (\<lambda>_ t. live (trace t) = {} \<and> sound_closes (trace t))
       (\<lambda>e _. \<not> is_exception e) (s :: SocketUdp)"
proof -
  let ?E = "demo_env 16 [] demo_from"
  let ?a = "([demo_addr], 0)"
  have "wp (thenE (udp_ctor ?E ?a) (udp_connect ?E [demo_addr])) (\<lambda>_ t. udp_known t = {demo_addr})
      (\<lambda>_ _. False) demo_udp_fresh"
    by (simp add: demo_udp_eval udp_connect_def wp_udp_handleCommUp Let_def udp_known_def)
  from wp_run [OF this] obtain s where run: "thenE (udp_ctor ?E ?a) (udp_connect ?E [demo_addr])
      demo_udp_fresh = (Inr (), s)" and s: "udp_known s = {demo_addr}"
    by auto
  then obtain s1 where s1: "udp_ctor ?E ?a demo_udp_fresh = (Inr (), s1)"
      "udp_connect ?E [demo_addr] s1 = (Inr (), s)"
    by (auto simp: thenE_def bindE_def split: prod.splits sum.splits)
  have "reachable (\<lambda>t. udp_ctor ?E ?a demo_udp_fresh = (Inr (), t)) (udp_ops ?E) s1"
    by (rule reachable.start) (rule s1(1))
  then have "reachable (\<lambda>t. udp_ctor ?E ?a demo_udp_fresh = (Inr (), t)) (udp_ops ?E) s"
    by (rule reachable.returns [where m = "udp_connect ?E [demo_addr]"]) (simp_all add: udp_ops_def s1(2))
  moreover have "accounts (trace demo_udp_fresh) {}"
    by (simp add: demo_udp_fresh_def accounts_def)
  ultimately show ?thesis using s udp_life_cycle [of ?E demo_udp_fresh ?a s] by auto
qed

lemma udp_handleMessage_failed:
  assumes "checks_ok E" and "rv (os E (trace s) (C_recvfrom fd (length (main_msg_buffer s)))) < 0"
    and "\<And>w r. R (Runtime_error w) (s\<lparr>trace := (C_recvfrom fd (length (main_msg_buffer s)), r) # trace s\<rparr>)"
  shows "wp (udp_handleMessage E fd) Q R s"
  using assms(2,3) unfolding udp_handleMessage_def Socket_getBuffer_def
  by (simp add: wp_bindE wp_gets wp_sys wp_thenE [of "check E n f" for n f] wp_check
      checks_ok_eq [OF assms(1)])

text \<open>
  C30. The map of peers implements a set of addresses: handling a datagram with the text \<open>msg\<close>
  from \<open>remote\<close> refines the step \<open>known_after remote msg\<close> of that set and keeps the invariant
  (an ordered map whose peers hold both their tasks). When it throws, the set is unchanged.
\<close>

theorem udp_message_refines:
  fixes E s fd
  defines "r \<equiv> os E (trace s) (C_recvfrom fd (length (main_msg_buffer s)))"
  assumes "recv_ok E" and "checks_ok E" and "udp_inv s"
  shows "wp (udp_handleMessage E fd)
    (\<lambda>_ t. udp_inv t \<and> (\<exists>remote. IPSocket_of_sockaddr E (storage r) = Inr remote \<and>
       udp_known t = known_after remote (c_str (odata r)) (udp_known s)))
    (\<lambda>e t. is_exception e \<longrightarrow> udp_inv t \<and> udp_known t = udp_known s) s"
proof (cases "rv r < 0")
  case True
  then show ?thesis
    using assms(4) by (intro udp_handleMessage_failed [OF assms(3)]) (simp_all add: r_def)
next
  case False
  have msg: "c_str b = c_str (odata r)" if "store_received (main_msg_buffer s) r = Inr b" for b
    by (rule received_text [OF assms(2) _ _ that]) (use False in \<open>auto simp: r_def\<close>)
  show ?thesis
    by (rule wp_mono [OF wp_udp_handleMessage [OF assms(4), of E fd, folded r_def]]) (use msg in auto)
qed

theorem udp_message_refines_witness:
  "wp (udp_handleMessage (demo_env 16 ''hi'' demo_from) 3) (\<lambda>_ t. udp_known t = {demo_addr, demo_sender})
     (\<lambda>e t. is_exception e \<longrightarrow> udp_known t = {demo_addr}) demo_udp"
proof -
  let ?R = "\<lambda>e t. is_exception e \<longrightarrow> udp_inv t \<and> udp_known t = udp_known demo_udp"
  have "wp (udp_handleMessage (demo_env 16 ''hi'' demo_from) 3)
     (\<lambda>_ t. udp_inv t \<and> (\<exists>remote. remote = demo_sender \<and>
       udp_known t = known_after remote ''hi'' {demo_addr})) ?R demo_udp"
    by (rule wp_mono [OF udp_message_refines [of "demo_env 16 ''hi'' demo_from" demo_udp 3]])
      (simp_all add: demo_sender_def c_str_def)
  then show ?thesis
    by (rule wp_mono) (simp_all add: known_after_def insert_commute)
qed

text \<open>
  Connecting to an address schedules exactly two tasks, a ping every second, three times, and
  the loss of the peer after four seconds. A new peer takes both over. A peer that is known already
  keeps its old tasks, and nobody holds the two new ones: they can be neither reset nor disabled,
  and four seconds later the peer is given up however lively it is.
\<close>

theorem udp_reconnect_orphans_tasks:
  assumes "udp_inv s"
  shows "wp (udp_connect E [remote])
    (\<lambda>_ t. map fst (trace t) = C_schedule (T_comm_lost remote) 4000 None #
        C_schedule (T_ping remote) 1000 (Some 3) # map fst (trace s) \<and>
      (if remote \<in> udp_known s then udp_peers t = udp_peers s
       else map_of (udp_peers t) remote = Some \<lparr>ping_task = Some (nat (rv (snd (trace t ! 1)))),
          comm_lost_task = Some (nat (rv (snd (trace t ! 0))))\<rparr>)) (\<lambda>_ _. False) s"
proof -
  have ok: "std_map_ok (udp_peers s)" using assms by (simp add: udp_inv_def)
  then have "map_emplace remote p (udp_peers s) = udp_peers s" if "remote \<in> udp_known s" for p
    using ok that by (simp add: udp_known_def map_emplace_present)
  moreover have "map_of (map_emplace remote p (udp_peers s)) remote = Some p" if "remote \<notin> udp_known s" for p
    using map_of_emplace [OF ok, of remote p] that by (simp add: udp_known_def map_of_eq_None_iff)
  ultimately show ?thesis
    by (simp add: udp_connect_def wp_simps wp_udp_handleCommUp Let_def)
qed

theorem udp_reconnect_orphans_tasks_witness:
  "wp (udp_connect (demo_env 16 [] demo_from) [demo_addr])
     (\<lambda>_ t. udp_peers t = udp_peers demo_udp \<and> C_schedule (T_comm_lost demo_addr) 4000 None \<in> set (map fst (trace t)))
     (\<lambda>_ _. False) demo_udp"
  by (rule wp_mono [OF udp_reconnect_orphans_tasks]) (simp_all del: set_map)

text \<open>
  A peer given on the command line and the same peer as the sender of a datagram are two
  peers: the decoded address is filled up with NUL and differs, as a key of the map, from the text
  the user gave, though both denote the same address, port and family.
\<close>

theorem udp_sender_becomes_second_peer:
  fixes E s fd
  defines "r \<equiv> os E (trace s) (C_recvfrom fd (length (main_msg_buffer s)))"
  assumes "udp_inv s" and "ip \<in> udp_known s" and "encodable E ip" and "NUL \<notin> set (addr ip)"
    and "inet_ok E" and "checks_ok E" and "recv_ok E"
    and "to_sockaddr_storage E ip = Inr st"
    and "IPSocket_of_sockaddr E (storage r) = IPSocket_of_sockaddr E st"
    and "c_str (odata r) \<noteq> ''q''"
  shows "wp (udp_handleMessage E fd)
    (\<lambda>_ t. \<exists>ip'. ip' \<noteq> ip \<and> ip \<in> udp_known t \<and> ip' \<in> udp_known t \<and> port ip' = port ip \<and>
       family ip' = family ip \<and>
       inet_pton E (family ip) (c_str (addr ip')) = inet_pton E (family ip) (c_str (addr ip)))
    (\<lambda>_ _. True) s"
proof -
  have dec: "IPSocket_of_sockaddr E (storage r) = Inr (canonical E ip)"
    using of_sockaddr_to_sockaddr(2) [OF assms(4,6,7,9)] assms(10) by simp
  have ne: "canonical E ip \<noteq> ip"
    using canonical_padded [OF assms(4,6)] assms(5) by auto
  show ?thesis
  proof (cases "rv r < 0")
    case True
    then show ?thesis
      by (intro udp_handleMessage_failed [OF assms(7)]) (simp_all add: r_def)
  next
    case False
    have msg: "c_str b \<noteq> ''q''" if "store_received (main_msg_buffer s) r = Inr b" for b
      using received_text [OF assms(8) _ _ that, of "trace s" fd "length (main_msg_buffer s)"] False assms(11)
      by (simp add: r_def)
    have both: "ip \<in> insert (canonical E ip) (udp_known s)" using assms(3) by simp
    show ?thesis
      by (rule wp_mono [OF wp_udp_handleMessage [OF assms(2), of E fd, folded r_def]])
        (use dec ne msg canonical_same_address [OF assms(4,6)] both in
          \<open>auto simp: known_after_def intro!: exI [of _ "canonical E ip"]\<close>)
  qed
qed

theorem udp_sender_becomes_second_peer_witness:
  "wp (udp_handleMessage (demo_env 16 ''hi'' demo_from) 3)
     (\<lambda>_ t. \<exists>ip'. ip' \<noteq> demo_addr \<and> demo_addr \<in> udp_known t \<and> ip' \<in> udp_known t \<and> port ip' = 7)
     (\<lambda>_ _. True) demo_udp"
proof -
  let ?E = "demo_env 16 ''hi'' demo_from"
  have "encodable ?E demo_addr"
    by (simp add: encodable_def c_str_def)
  moreover have "IPSocket_of_sockaddr ?E (storage (os ?E (trace demo_udp) (C_recvfrom 3 (length (main_msg_buffer demo_udp)))))
      = IPSocket_of_sockaddr ?E demo_from"
    by (simp add: storage_def demo_from_def IPSocket_of_sockaddr_def Let_def of_le16_def family_defs)
  ultimately show ?thesis
    by (intro wp_mono [OF udp_sender_becomes_second_peer [of demo_udp demo_addr ?E demo_from 3]])
      (auto simp: c_str_def)
qed

text \<open>
  When a peer is given up, exactly one reconnection is scheduled, five seconds later, both tasks of
  the peer are disabled unless they have ended, and the peer is forgotten.
\<close>

theorem udp_lost_peer_is_rescheduled:
  assumes "udp_inv s" and "map_of (udp_peers s) remote = Some \<lparr>ping_task = Some i, comm_lost_task = Some j\<rparr>"
  shows "wp (udp_task E (T_comm_lost remote))
    (\<lambda>_ t. udp_known t = udp_known s - {remote} \<and>
      (\<exists>r ri rj di dj. trace t =
        (if rv rj \<noteq> 0 then [(C_task_disable j, dj)] else []) @ (C_task_lock j, rj) #
        (if rv ri \<noteq> 0 then [(C_task_disable i, di)] else []) @ (C_task_lock i, ri) #
        (C_schedule (T_connect remote) 5000 None, r) # trace s)) (\<lambda>_ _. False) s"
proof -
  have ok: "std_map_ok (udp_peers s)" using assms(1) by (simp add: udp_inv_def)
  have ref: "wp (udp_peer_ref remote) Q R (s\<lparr>trace := h\<rparr>) =
      Q \<lparr>ping_task = Some i, comm_lost_task = Some j\<rparr> (s\<lparr>trace := h\<rparr>)" for Q R h
    by (rule wp_udp_peer_ref_known) (simp_all add: ok assms(2))
  show ?thesis
    by (simp add: udp_handleCommLost_def scheduleReestablishment_def udp_remove_def udp_disableTasks_def
        task_lock_def wp_simps ref reestablish_delay_def del: ex_simps)
qed

theorem udp_lost_peer_is_rescheduled_witness:
  "wp (udp_task (demo_env 16 [] demo_from) (T_comm_lost demo_addr))
     (\<lambda>_ t. udp_known t = {} \<and> C_schedule (T_connect demo_addr) 5000 None \<in> set (map fst (trace t)))
     (\<lambda>_ _. False) demo_udp"
  by (rule wp_mono [OF udp_lost_peer_is_rescheduled [of demo_udp demo_addr 1 2]]) auto

text \<open>
  The destructor says goodbye to the peers, in a function that must not throw: when the
  message to the first peer cannot be sent, the program is terminated, with the descriptor still open.
\<close>

theorem udp_failed_goodbye_terminates:
  assumes "udp_inv s" and "checks_ok E" and "udp_peers s = (remote, p) # others"
    and "to_sockaddr_storage E remote = Inr st"
    and "rv (os E (trace s) (C_sendto (raw_fd (sk_fd s)) ''q'' (take (sizeofSockaddr remote) st))) < 0"
  shows "wp (udp_dtor E) (\<lambda>_ _. False)
    (\<lambda>e t. e = Terminate \<and> raw_fd (sk_fd s) \<in> live (trace t)) s"
proof -
  obtain n where "sk_fd s = FileDescriptor_ctor n" "live (trace s) = {n}"
    using assms(1) by (auto simp: udp_inv_def accounts_def)
  then show ?thesis
    using assms(5) by (simp add: udp_dtor_def udp_send_def udp_send_to_def assms(3,4) wp_simps quit_msg_def
        checks_ok_eq [OF assms(2)] FileDescriptor_ctor_def failedSend_def)
qed

theorem udp_failed_goodbye_terminates_witness:
  "wp (udp_dtor ((demo_env 16 [] demo_from)\<lparr>os := \<lambda>h c. reply (-1)\<rparr>)) (\<lambda>_ _. False)
     (\<lambda>e t. e = Terminate \<and> 3 \<in> live (trace t)) demo_udp"
proof -
  have "checks_ok ((demo_env 16 [] demo_from)\<lparr>os := \<lambda>h c. reply (-1)\<rparr>)"
    using demo_checks_ok [of 16 "[]" demo_from] by (simp add: checks_ok_def)
  then show ?thesis
    using udp_failed_goodbye_terminates [of demo_udp "(demo_env 16 [] demo_from)\<lparr>os := \<lambda>h c. reply (-1)\<rparr>"]
    by simp
qed

end
