(* ===== verification/SctpGetAddrs.thy ===== *)
theory SctpGetAddrs
  imports IPSocket
begin

text \<open>
  \<open>src/src/SctpGetAddrs.cpp\<close>: the addresses an SCTP socket is bound to or connected to,
  read from the packed array the SCTP library returns, whose elements are 16 or 28 bytes long.
\<close>

datatype AddrType = LOCAL | PEER

text \<open>
  The walk over the array: each element is decoded at the current pointer, and the pointer is
  moved by the size that goes with the decoded family.
\<close>

fun walk_addrs :: "env \<Rightarrow> nat \<Rightarrow> bytes \<Rightarrow> error + IPSocket list" where
  "walk_addrs E 0 current = Inr []"
| "walk_addrs E (Suc n) current =
     (case IPSocket_of_sockaddr E current of
        Inl e \<Rightarrow> Inl e
      | Inr ip \<Rightarrow> (case walk_addrs E n (drop (sizeofSockaddr ip) current) of
            Inl e \<Rightarrow> Inl e
          | Inr ips \<Rightarrow> Inr (ip # ips)))"

definition getAddrs :: "env \<Rightarrow> FD \<Rightarrow> int \<Rightarrow> AddrType \<Rightarrow> ('z world_scheme, IPSocket list) io" where
  "getAddrs E fd assoc_id type =
     bindE (sys E (if type = LOCAL then C_sctp_getladdrs fd assoc_id else C_sctp_getpaddrs fd assoc_id)) (\<lambda>r.
     bindE (checked E ''Getaddrs'' (failedGetaddrs (rv r)) (rv r)) (\<lambda>count.
     bindE (lift_sum (walk_addrs E (nat count) (oaddr r))) (\<lambda>ret.
     thenE (if count \<noteq> 0
            then thenE (sys E (if type = LOCAL then C_sctp_freeladdrs else C_sctp_freepaddrs)) (return ())
            else return ())
       (return ret))))"

definition ignore_assoc :: int where "ignore_assoc = 0"

definition getLaddrs :: "env \<Rightarrow> FD \<Rightarrow> int \<Rightarrow> ('z world_scheme, IPSocket list) io" where
  "getLaddrs E fd assoc_id = getAddrs E fd assoc_id LOCAL"

definition getPaddrs :: "env \<Rightarrow> FD \<Rightarrow> int \<Rightarrow> ('z world_scheme, IPSocket list) io" where
  "getPaddrs E fd assoc_id = getAddrs E fd assoc_id PEER"

lemma quiet_getAddrs [quiet_intros]: "quiet (getAddrs E fd a t)"
  unfolding getAddrs_def by (intro quiet_intros) simp_all

lemma quiet_getLaddrs [quiet_intros]: "quiet (getLaddrs E fd a)"
  unfolding getLaddrs_def by (rule quiet_intros)

lemma quiet_getPaddrs [quiet_intros]: "quiet (getPaddrs E fd a)"
  unfolding getPaddrs_def by (rule quiet_intros)

section \<open>The walk inverts the packing\<close>

lemma walk_packed:
  assumes "inet_ok E" and "checks_ok E" and "\<forall>ip\<in>set ips. encodable E ip"
    and "toSockaddrs E ips = Inr bs"
  shows "walk_addrs E (length ips) (bs @ rest) = Inr (map (canonical E) ips)"
  using assms(3,4)
proof (induction ips arbitrary: bs)
  case Nil
  then show ?case by simp
next
  case (Cons ip ips)
  from Cons.prems(2) obtain st bs' where st: "to_sockaddr_storage E ip = Inr st"
    and bs': "toSockaddrs E ips = Inr bs'" and bs: "bs = take (sizeofSockaddr ip) st @ bs'"
    by (auto split: sum.splits)
  have enc: "encodable E ip" using Cons.prems(1) by simp
  note dec = of_sockaddr_to_sockaddr [OF enc assms(1,2) st]
  have "walk_addrs E (length ips) (bs' @ rest) = Inr (map (canonical E) ips)"
    using Cons.IH [OF _ bs'] Cons.prems(1) by simp
  then show ?case
    using dec(1) [of "bs' @ rest"] dec(3) by (simp add: bs)
qed

lemma toSockaddrs_total:
  assumes "inet_ok E" and "checks_ok E" and "\<forall>ip\<in>set ips. encodable E ip"
  shows "\<exists>bs. toSockaddrs E ips = Inr bs \<and> length bs = sum_list (map sizeofSockaddr ips)"
  using assms(3)
proof (induction ips)
  case Nil
  then show ?case by simp
next
  case (Cons ip ips)
  then obtain bs where bs: "toSockaddrs E ips = Inr bs" "length bs = sum_list (map sizeofSockaddr ips)"
    by auto
  have enc: "encodable E ip" using Cons.prems by simp
  then obtain st where st: "to_sockaddr_storage E ip = Inr st"
    using assms(1,2) by (blast elim: to_sockaddr_storage_bytes)
  then show ?case
    using bs of_sockaddr_to_sockaddr(3) [OF enc assms(1,2) st] by simp
qed

text \<open>
  C27. Packing a list of IPv4 and IPv6 sockets as the SCTP calls want it and walking over the
  packed array gives the sockets back, in order, in their canonical form: the pointer arithmetic
  with two element sizes never loses step, whatever memory follows the array, and the array has
  exactly the sum of the elements' sizes.
\<close>

theorem packed_addresses_round_trip:
  assumes "inet_ok E" and "checks_ok E" and "\<forall>ip\<in>set ips. encodable E ip"
  shows "\<exists>bs. toSockaddrs E ips = Inr bs \<and> length bs = sum_list (map sizeofSockaddr ips) \<and>
    (\<forall>rest. walk_addrs E (length ips) (bs @ rest) = Inr (map (canonical E) ips))"
  using toSockaddrs_total [OF assms] walk_packed [OF assms] by auto

theorem packed_addresses_round_trip_witness:
  "\<exists>bs. toSockaddrs (demo_env 1 [] [])
      [IPSocket ''HPAAAAAB'' 36412 AF_INET, IPSocket (concat (replicate 16 ''AB'')) 36422 AF_INET6] = Inr bs \<and>
    length bs = 44 \<and>
    (\<forall>rest. walk_addrs (demo_env 1 [] []) 2 (bs @ rest) = Inr
      [canonical (demo_env 1 [] []) (IPSocket ''HPAAAAAB'' 36412 AF_INET),
       canonical (demo_env 1 [] []) (IPSocket (concat (replicate 16 ''AB'')) 36422 AF_INET6)])"
proof -
  let ?E = "demo_env 1 [] []"
  let ?ips = "[IPSocket ''HPAAAAAB'' 36412 AF_INET, IPSocket (concat (replicate 16 ''AB'')) 36422 AF_INET6]"
  have "\<forall>ip\<in>set ?ips. encodable ?E ip"
    by (simp add: encodable_def demo_pton_def c_str_def numeral_eq_Suc)
  from packed_addresses_round_trip [OF demo_inet_ok demo_checks_ok this]
  show ?thesis by (simp add: sizeofSockaddr_def isIPv6_def numeral_2_eq_2)
qed

text \<open>
  When the walk succeeds over a non-empty array, the array is released as the last call,
  with the function that belongs to the kind of addresses asked for. When an element cannot be
  decoded, the exception leaves the function before the release: the array is leaked.
\<close>

theorem getAddrs_releases:
  assumes "checks_ok E"
    and "r = os E (trace s) (if type = LOCAL then C_sctp_getladdrs fd a else C_sctp_getpaddrs fd a)"
    and "0 < rv r"
  shows "wp (getAddrs E fd a type)
     (\<lambda>ips t. walk_addrs E (nat (rv r)) (oaddr r) = Inr ips \<and>
        fst (hd (trace t)) = (if type = LOCAL then C_sctp_freeladdrs else C_sctp_freepaddrs))
     (\<lambda>e t. walk_addrs E (nat (rv r)) (oaddr r) = Inl e \<and>
        fst (hd (trace t)) = (if type = LOCAL then C_sctp_getladdrs fd a else C_sctp_getpaddrs fd a)) s"
  using assms
  by (auto simp: getAddrs_def wp_simps checks_okE(1) failedGetaddrs_def split: sum.splits)

theorem getAddrs_releases_witness:
  "wp (getAddrs ((demo_env 1 [] [])\<lparr>os := (\<lambda>h c. reply 1)\<rparr>) 3 0 PEER)
     (\<lambda>ips t. False)
     (\<lambda>e t. e = Undefined ''sockaddr read out of bounds'' \<and> fst (hd (trace t)) = C_sctp_getpaddrs 3 0)
     \<lparr>trace = []\<rparr>"
proof -
  let ?E = "(demo_env 1 [] [])\<lparr>os := (\<lambda>h c. reply 1)\<rparr>"
  have c: "checks_ok ?E" by (simp add: checks_ok_def demo_check_def)
  show ?thesis
    by (rule wp_mono [OF getAddrs_releases [OF c refl, of \<open>\<lparr>trace = []\<rparr>\<close> PEER 3 0]])
      (auto simp: IPSocket_of_sockaddr_def)
qed

end
