(* ===== verification/SocketIO.thy ===== *)
theory SocketIO
  imports SctpGetAddrs
begin

text \<open>
  \<open>src/src/SocketIO.cpp\<close> and the output operator of \<open>IPSocket.cpp\<close>: the texts the program logs;
  the decimal numbers they and the command line contain; and the bytes of a buffer of characters.
\<close>

section \<open>Decimal numbers\<close>

definition digit_value :: "char \<Rightarrow> int" where
  "digit_value c = of_char c - 48"

definition is_digit :: "char \<Rightarrow> bool" where
  "is_digit c \<longleftrightarrow> 0 \<le> digit_value c \<and> digit_value c \<le> 9"

definition decimal :: "string \<Rightarrow> int" where
  "decimal ds = foldl (\<lambda>n c. 10 * n + digit_value c) 0 ds"

text \<open>The decimal text of a number, as \<open>std::to_string\<close> and the stream operators give it.\<close>

fun show_nat :: "nat \<Rightarrow> string" where
  "show_nat n = (if n < 10 then [char_of (48 + n)] else show_nat (n div 10) @ [char_of (48 + n mod 10)])"

declare show_nat.simps [simp del]

lemma digit_char:
  assumes "n < 10"
  shows "digit_value (char_of (48 + n)) = int n" and "is_digit (char_of (48 + n))"
    and "(char_of (48 + n) :: char) \<notin> {CHR 0x20, CHR 0x09, CHR 0x0A, CHR 0x0B, CHR 0x0C, CHR 0x0D, CHR ''-'', CHR ''+'', NUL}"
proof -
  have "of_char (char_of (48 + n) :: char) = 48 + n" using assms by simp
  then have of: "(of_char (char_of (48 + n) :: char) :: int) = 48 + int n"
    by (metis of_char_of of_nat_add of_nat_numeral of_nat_of_char)
  then show "digit_value (char_of (48 + n)) = int n" and "is_digit (char_of (48 + n))"
    using assms by (simp_all add: digit_value_def is_digit_def)
  show "(char_of (48 + n) :: char) \<notin> {CHR 0x20, CHR 0x09, CHR 0x0A, CHR 0x0B, CHR 0x0C, CHR 0x0D, CHR ''-'', CHR ''+'', NUL}"
    using of by auto
qed

lemma show_nat_chars:
  "c \<in> set (show_nat n) \<Longrightarrow> \<exists>k<10. c = char_of (48 + k :: nat)"
proof (induction n rule: show_nat.induct)
  case (1 n)
  then show ?case by (subst (asm) show_nat.simps) (auto split: if_splits intro: exI [of _ n] exI [of _ "n mod 10"])
qed

lemma decimal_show_nat: "decimal (show_nat n) = int n"
proof (induction n rule: show_nat.induct)
  case (1 n)
  show ?case
  proof (cases "n < 10")
    case True
    then show ?thesis by (subst show_nat.simps) (simp add: decimal_def digit_char)
  next
    case False
    then have "decimal (show_nat n) = 10 * decimal (show_nat (n div 10)) + int (n mod 10)"
      by (subst show_nat.simps) (simp add: decimal_def digit_char)
    moreover have "10 * int (n div 10) + int (n mod 10) = int n"
      by (metis mult_div_mod_eq of_nat_add of_nat_mult of_nat_numeral)
    ultimately show ?thesis using 1 [OF False] by metis
  qed
qed

definition show_int :: "int \<Rightarrow> string" where
  "show_int n = (if n < 0 then CHR ''-'' # show_nat (nat (- n)) else show_nat (nat n))"

section \<open>Texts\<close>

definition toString_family :: "family \<Rightarrow> string" where
  "toString_family fam =
     (if fam = AF_INET then ''AF_INET''
      else if fam = AF_INET6 then ''AF_INET6''
      else if fam = AF_UNIX then ''AF_UNIX''
      else if fam = AF_UNSPEC then ''AF_UNSPEC''
      else show_nat (unat fam))"

text \<open>The states of \<open><netinet/sctp.h>\<close>, \<open>SCTP_INACTIVE\<close> to \<open>SCTP_UNCONFIRMED\<close> from 0 on.\<close>

definition toString_spinfo_state :: "int \<Rightarrow> string" where
  "toString_spinfo_state state =
     (if state = 0 then ''SCTP_INACTIVE''
      else if state = 1 then ''SCTP_PF''
      else if state = 2 then ''SCTP_ACTIVE''
      else if state = 3 then ''SCTP_UNCONFIRMED''
      else if state = 0xFFFF then ''SCTP_UNKNOWN''
      else show_int state)"

definition IPSocket_text :: "IPSocket \<Rightarrow> string" where
  "IPSocket_text ip = addr ip @ '':'' @ show_nat (unat (port ip))"

section \<open>Bytes and characters\<close>

definition chars_of_bytes :: "bytes \<Rightarrow> string" where
  "chars_of_bytes bs = map (\<lambda>b. char_of (unat b)) bs"

definition bytes_of_chars :: "string \<Rightarrow> bytes" where
  "bytes_of_chars cs = map (\<lambda>c. word_of_nat (of_char c)) cs"

lemma char_byte [simp]: "word_of_nat (of_char (char_of (unat b) :: char)) = (b :: byte)"
  by (simp add: unat_byte_less)

lemma bytes_of_chars_of_bytes [simp]: "bytes_of_chars (chars_of_bytes bs) = bs"
  by (simp add: bytes_of_chars_def chars_of_bytes_def comp_def unat_byte_less)

lemma length_bytes_of_chars [simp]: "length (bytes_of_chars cs) = length cs"
  by (simp add: bytes_of_chars_def)

lemma chars_of_bytes_of_chars [simp]: "chars_of_bytes (bytes_of_chars cs) = cs"
proof -
  have "char_of (unat (word_of_nat (of_char c) :: byte)) = c" for c :: char
    by (simp add: unat_of_nat)
  then show ?thesis by (simp add: bytes_of_chars_def chars_of_bytes_def comp_def)
qed

lemma chars_of_bytes_append [simp]: "chars_of_bytes (a @ b) = chars_of_bytes a @ chars_of_bytes b"
  by (simp add: chars_of_bytes_def)

lemma length_chars_of_bytes [simp]: "length (chars_of_bytes bs) = length bs"
  by (simp add: chars_of_bytes_def)

lemma chars_of_bytes_replicate [simp]: "chars_of_bytes (replicate n 0) = replicate n NUL"
proof -
  have "char_of (0 :: nat) = NUL" by (simp add: char_of_def)
  then show ?thesis by (simp add: chars_of_bytes_def)
qed

lemma nul_notin_chars_of_bytes: "0 \<notin> set bs \<Longrightarrow> NUL \<notin> set (chars_of_bytes bs)"
proof
  assume "0 \<notin> set bs" and "NUL \<in> set (chars_of_bytes bs)"
  then obtain b where "b \<in> set bs" "char_of (unat b) = NUL" by (auto simp: chars_of_bytes_def)
  moreover from this(2) have "b = word_of_nat (of_char NUL)" by (metis char_byte)
  ultimately show False using \<open>0 \<notin> set bs\<close> by simp
qed

end
