(* ===== verification/SocketUnix.thy ===== *)
theory SocketUnix
  imports SocketClass SocketIO
begin

text \<open>
  \<open>src/src/SocketUnix.cpp\<close>: the datagram socket of the \<open>AF_UNIX\<close> family. It lets the
  kernel choose an abstract address; its peers are a \<open>std::set\<close> of paths, the names behind the
  leading NUL of such addresses.
\<close>

record SocketUnix = Socket +
  unix_peers :: "(string, unit) std_map"

section \<open>Addresses\<close>

text \<open>
  A \<open>sockaddr_un\<close> has the family in its first two bytes and \<open>sun_path\<close>, 108 characters, behind.
  \<open>sun_path + 1\<close> of a received address is read up to its first NUL; without one the reading leaves
  the object.
\<close>

definition sun_path_size :: nat where "sun_path_size = 108"

definition read_path :: "bytes \<Rightarrow> error + string" where
  "read_path from_storage =
     (let cs = chars_of_bytes (drop 3 from_storage) in
      if NUL \<in> set cs then Inr (c_str cs) else Inl (Undefined ''sun_path read out of bounds''))"

text \<open>
  What \<open>send\<close> builds: the path is copied behind the leading NUL of a zeroed \<open>sun_path\<close>; a path
  that does not fit is written past the object's end.
\<close>

definition unix_address :: "family \<Rightarrow> string \<Rightarrow> error + bytes" where
  "unix_address fam path =
     (if length path + 1 \<le> sun_path_size
      then Inr (le16 fam @ [0] @ bytes_of_chars path @ replicate (sun_path_size - 1 - length path) 0)
      else Inl (Undefined ''sun_path written out of bounds''))"

section \<open>Methods\<close>

definition unix_bind :: "env \<Rightarrow> FD \<Rightarrow> IPSocket list \<Rightarrow> ('z SocketUnix_scheme, unit) io" where
  "unix_bind E fd locals =
     bindE (sys E (C_bind fd (take 2 (le16 AF_UNIX @ replicate sun_path_size 0)))) (\<lambda>r.
     thenE (check E ''Bind'' (failedBind (rv r)))
     (bindE (sys E (C_getsockname fd)) (\<lambda>r'. check E ''Getsockname'' (failedGetsockname (rv r')))))"

definition unix_ctor :: "env \<Rightarrow> unit \<Rightarrow> ('z SocketUnix_scheme, unit) io" where
  "unix_ctor E = (\<lambda>_.
     thenE (Socket_ctor E [] SOCK_DGRAM default_protocol AF_UNIX False)
       (on_unwind
         (thenE (modify (\<lambda>s. s\<lparr>unix_peers := []\<rparr>))
           (bindE (gets (\<lambda>s. raw_fd (sk_fd s))) (\<lambda>fd.
             thenE (Socket_configure E fd) (unix_bind E fd []))))
         (Socket_dtor E)))"

text \<open>
  The line \<open>send\<close> logs ends with \<open>sun_path\<close> up to its first NUL: when the path fills the object,
  the reading leaves it. The length passed to \<open>sendto\<close> covers the family, the NUL and the path.
\<close>

definition unix_send_to :: "env \<Rightarrow> string \<Rightarrow> string \<Rightarrow> ('z SocketUnix_scheme, unit) io" where
  "unix_send_to E msg path =
     bindE (gets sk_family) (\<lambda>fam.
     bindE (lift_sum (unix_address fam path)) (\<lambda>saddr.
     bindE (lift_sum (read_path saddr)) (\<lambda>_.
     bindE (gets (\<lambda>s. raw_fd (sk_fd s))) (\<lambda>fd.
     bindE (sys E (C_sendto fd msg (take (2 + length path + 1) saddr))) (\<lambda>r.
     check E ''Send'' (failedSend (rv r)))))))"

definition unix_send :: "env \<Rightarrow> string \<Rightarrow> ('z SocketUnix_scheme, unit) io" where
  "unix_send E msg = bindE (gets unix_peers) (for_each (\<lambda>p. unix_send_to E msg (fst p)))"

definition unix_dtor :: "env \<Rightarrow> ('z SocketUnix_scheme, unit) io" where
  "unix_dtor E = thenE (no_throw (unix_send E quit_msg)) (Socket_dtor E)"

definition unix_handleCommUp :: "string \<Rightarrow> ('z SocketUnix_scheme, unit) io" where
  "unix_handleCommUp path = modify (\<lambda>s. s\<lparr>unix_peers := map_emplace path () (unix_peers s)\<rparr>)"

definition unix_handleGracefulShutdown :: "string \<Rightarrow> ('z SocketUnix_scheme, unit) io" where
  "unix_handleGracefulShutdown path = modify (\<lambda>s. s\<lparr>unix_peers := map_erase path (unix_peers s)\<rparr>)"

definition unix_connect :: "IPSocket list \<Rightarrow> ('z SocketUnix_scheme, unit) io" where
  "unix_connect = for_each (\<lambda>remote. unix_handleCommUp (addr remote))"

definition unix_handleMessage :: "env \<Rightarrow> FD \<Rightarrow> ('z SocketUnix_scheme, unit) io" where
  "unix_handleMessage E fd =
     bindE (Socket_getBuffer fd) (\<lambda>msg_buffer.
     bindE (sys E (C_recvfrom fd (length msg_buffer))) (\<lambda>r.
     thenE (check E ''Receive'' (failedReceive (rv r)))
     (bindE (lift_sum (store_received msg_buffer r)) (\<lambda>b.
     thenE (modify (\<lambda>s. s\<lparr>main_msg_buffer := b\<rparr>))
     (let msg = c_str b in
      thenE (log_received E msg)
      (bindE (lift_sum (read_path (storage r))) (\<lambda>path.
       if msg = quit_msg then unix_handleGracefulShutdown path
       else bindE (gets (\<lambda>s. map_of (unix_peers s) path)) (\<lambda>known.
         if known = None then unix_handleCommUp path else return ()))))))))"

definition unix_receive :: "env \<Rightarrow> ('z SocketUnix_scheme, unit) io" where
  "unix_receive E = Socket_receive E (Socket_selectFds E) (unix_handleMessage E)"

definition unix_ops :: "env \<Rightarrow> ('z SocketUnix_scheme, unit) io set" where
  "unix_ops E = range (Socket_listen E) \<union> range unix_connect \<union> range (unix_send E) \<union> {unix_receive E}"

section \<open>Invariant\<close>

definition unix_inv :: "'z SocketUnix_scheme \<Rightarrow> bool" where
  "unix_inv s \<longleftrightarrow> std_map_ok (unix_peers s) \<and> sole_fd s"

lemma unix_inv_other [simp]:
  "unix_inv (s\<lparr>fds := F\<rparr>) = unix_inv s" "unix_inv (s\<lparr>fd_max := m\<rparr>) = unix_inv s"
  "unix_inv (s\<lparr>selected_fds := l\<rparr>) = unix_inv s" "unix_inv (s\<lparr>main_msg_buffer := b\<rparr>) = unix_inv s"
  by (simp_all add: unix_inv_def)

lemma unix_inv_neutral [simp]: "neutral t \<Longrightarrow> unix_inv (s\<lparr>trace := t @ trace s\<rparr>) = unix_inv s"
  by (simp add: unix_inv_def)

lemma unix_inv_call [simp]: "neutral_call c \<Longrightarrow> unix_inv (s\<lparr>trace := (c, r) # trace s\<rparr>) = unix_inv s"
  by (simp add: unix_inv_def)

lemma unix_inv_peers [simp]:
  "unix_inv s \<Longrightarrow> unix_inv (s\<lparr>unix_peers := map_emplace k v (unix_peers s)\<rparr>)"
  "unix_inv s \<Longrightarrow> unix_inv (s\<lparr>unix_peers := map_erase k (unix_peers s)\<rparr>)"
  by (auto simp: unix_inv_def std_map_ok_emplace std_map_ok_erase)

lemma unix_inv_handled [simp]:
  assumes "unix_inv s" and "neutral_call c" and "neutral_call c'"
  shows "unix_inv (s\<lparr>main_msg_buffer := b, trace := (c, r) # (c', r') # trace s\<rparr>)"
    and "std_map_ok m \<Longrightarrow>
      unix_inv (s\<lparr>main_msg_buffer := b, trace := (c, r) # (c', r') # trace s, unix_peers := m\<rparr>)"
  using assms by (simp_all add: unix_inv_def)

lemma unix_inv_ok: "unix_inv s \<Longrightarrow> std_map_ok (unix_peers s)"
  by (simp add: unix_inv_def)

lemma keeps_unix_quiet: "quiet m \<Longrightarrow> keeps unix_inv m"
  by (rule quiet_keeps) (auto simp: stable_def)

lemma keeps_unix_set [keeps_intros]:
  "keeps unix_inv FDSet_reset" "keeps unix_inv (FDSet_set fd)" "keeps unix_inv (FDSet_select E t)"
  unfolding FDSet_reset_def FDSet_set_def FDSet_select_def FDSet_selectImpl_def
  by (intro keeps_intros keeps_modify keeps_unix_quiet quiet_intros; simp)+

lemma keeps_unix_peers [keeps_intros]:
  "keeps unix_inv (unix_handleCommUp path)" "keeps unix_inv (unix_handleGracefulShutdown path)"
  unfolding unix_handleCommUp_def unix_handleGracefulShutdown_def by (intro keeps_modify; simp)+

lemma quiet_unix [quiet_intros]: "quiet (unix_send_to E msg path)" "quiet (unix_send E msg)"
  "quiet (unix_bind E fd locals)"
  unfolding unix_send_def unix_send_to_def unix_bind_def by (intro quiet_intros; simp)+

section \<open>What the operations do\<close>

text \<open>The names of the peers.\<close>

definition unix_known :: "'z SocketUnix_scheme \<Rightarrow> string set" where
  "unix_known s = fst ` set (unix_peers s)"

lemma unix_known_other [simp]:
  "unix_known (s\<lparr>trace := h\<rparr>) = unix_known s" "unix_known (s\<lparr>main_msg_buffer := b\<rparr>) = unix_known s"
  by (simp_all add: unix_known_def)

lemma unix_known_update [simp]:
  "unix_known (s\<lparr>unix_peers := map_emplace k p (unix_peers s)\<rparr>) = insert k (unix_known s)"
  "unix_known (s\<lparr>unix_peers := map_erase k (unix_peers s)\<rparr>) = unix_known s - {k}"
  by (simp_all add: unix_known_def keys_map_emplace keys_map_erase)

lemma wp_unix_handleCommUp [wp_simps]:
  "wp (unix_handleCommUp path) Q R = (\<lambda>s. Q () (s\<lparr>unix_peers := map_emplace path () (unix_peers s)\<rparr>))"
  by (simp add: unix_handleCommUp_def wp_simps)

lemma wp_unix_handleGracefulShutdown [wp_simps]:
  "wp (unix_handleGracefulShutdown path) Q R =
     (\<lambda>s. Q () (s\<lparr>unix_peers := map_erase path (unix_peers s)\<rparr>))"
  by (simp add: unix_handleGracefulShutdown_def wp_simps)

text \<open>
  Handling a datagram, in terms of the received message and the sender's address: it never
  throws but for a failed receive, and touches the buffer, the history and the set of peers only.
\<close>

lemma wp_unix_handleMessage:
  fixes E s fd
  defines "r \<equiv> os E (trace s) (C_recvfrom fd (length (main_msg_buffer s)))"
  assumes "recv_ok E" and "checks_ok E" and "unix_inv s"
  shows "wp (unix_handleMessage E fd)
    (\<lambda>_ t. unix_inv t \<and> sk_family t = sk_family s \<and> (\<exists>path. read_path (storage r) = Inr path \<and>
       unix_known t = known_after path (c_str (odata r)) (unix_known s)))
    (\<lambda>e t. is_exception e \<longrightarrow> rv r < 0 \<and> unix_inv t \<and> unix_peers t = unix_peers s) s"
proof -
  have msg: "c_str b = c_str (odata r)" if "store_received (main_msg_buffer s) r = Inr b" "0 \<le> rv r" for b
    by (rule received_text [OF assms(2) _ that(2,1)]) (simp add: r_def)
  have bad: "\<not> is_exception e" if "store_received (main_msg_buffer s) r = Inl e" for e
    using that by (auto simp: store_received_def Let_def split: if_splits)
  have bad': "\<not> is_exception e" if "read_path (storage r) = Inl e" for e
    using that by (auto simp: read_path_def Let_def split: if_splits)
  show ?thesis
    using assms(4) bad bad' msg
    unfolding unix_handleMessage_def Socket_getBuffer_def log_received_def
    by (auto simp: wp_simps checks_ok_eq [OF assms(3)] r_def [symmetric] known_after_def quit_msg_def
        failedReceive_def insert_absorb map_of_eq_None_iff unix_known_def [of s] keys_map_emplace Let_def
        std_map_ok_emplace std_map_ok_erase unix_inv_ok split: sum.split)
qed


section \<open>Every operation keeps the invariant\<close>

lemma keeps_unix_handleMessage: "keeps unix_inv (unix_handleMessage E fd)"
  unfolding unix_handleMessage_def Socket_getBuffer_def Let_def
  by (intro keeps_intros keeps_modify) (simp_all add: keeps_unix_quiet quiet_intros)

lemma keeps_unix_ops: "m \<in> unix_ops E \<Longrightarrow> keeps unix_inv m"
proof -
  have "keeps unix_inv (unix_receive E)"
    unfolding unix_receive_def Socket_selectFds_def
    by (intro keeps_Socket_receive keeps_unix_handleMessage keeps_intros)
  moreover have "keeps unix_inv (unix_connect remotes)" for remotes
    unfolding unix_connect_def by (intro keeps_intros)
  ultimately show "m \<in> unix_ops E \<Longrightarrow> keeps unix_inv m"
    unfolding unix_ops_def
    using keeps_unix_quiet [OF quiet_Socket_listen] keeps_unix_quiet [OF quiet_unix(2)] by fastforce
qed

interpretation unix: socket_class descriptors_ok unix_ctor unix_ops unix_dtor trace unix_inv
proof unfold_locales
  fix E a and s :: "'a SocketUnix_scheme"
  assume "descriptors_ok E" and "accounts (trace s) {}"
  then show "wp (unix_ctor E a) (\<lambda>_. unix_inv) (\<lambda>e t. is_exception e \<longrightarrow> accounts (trace t) {}) s"
    unfolding unix_ctor_def
  proof (rule wp_construct)
    fix t :: "'a SocketUnix_scheme" and n
    assume t: "0 \<le> n" "sk_fd t = FileDescriptor_ctor n" "accounts (trace t) {n}"
    have q: "quiet (thenE (Socket_configure E n) (unix_bind E n []))" by (intro quiet_intros)
    show "wp (thenE (modify (\<lambda>s. s\<lparr>unix_peers := []\<rparr>)) (bindE (gets (\<lambda>s. raw_fd (sk_fd s))) (\<lambda>fd.
          thenE (Socket_configure E fd) (unix_bind E fd [])))) (\<lambda>_. unix_inv)
        (\<lambda>e u. is_exception e \<longrightarrow> sk_fd u = FileDescriptor_ctor n \<and> accounts (trace u) {n}) t"
      unfolding wp_thenE [of "modify f" for f] wp_modify wp_bindE [of "gets f" for f] wp_gets
      using t quiet_wp [OF q, of _ "t\<lparr>unix_peers := []\<rparr>"]
      by (auto simp: unix_inv_def std_map_ok_def FileDescriptor_ctor_def intro!: quiet_wp [OF q])
  qed simp
next
  fix E and m :: "('a SocketUnix_scheme, unit) io"
  assume "m \<in> unix_ops E"
  then show "keeps unix_inv m" by (rule keeps_unix_ops)
next
  fix E and s :: "'a SocketUnix_scheme"
  assume "unix_inv s"
  then show "wp (unix_dtor E) (\<lambda>_ t. accounts (trace t) {}) (\<lambda>e _. \<not> is_exception e) s"
    unfolding unix_dtor_def unix_inv_def by (intro wp_goodbye quiet_intros) simp
qed

section \<open>Properties\<close>

text \<open>
  Objects for the examples, and the address of a peer: the abstract name \<open>peer\<close>.
\<close>

definition demo_unix_from :: bytes where
  "demo_unix_from = [1, 0, 0, 112, 101, 101, 114]"

definition demo_unix :: SocketUnix where
  "demo_unix = \<lparr>trace = [(C_socket AF_UNIX SOCK_DGRAM 0, reply 3)], fds = {}, fd_max = 1, selected_fds = [],
     sk_fd = FileDescriptor_ctor 3, sk_family = AF_UNIX, sk_type = SOCK_DGRAM,
     main_msg_buffer = ''previous'', unix_peers = [(''other'', ())]\<rparr>"

lemma demo_unix_sel [simp]:
  "raw_fd (sk_fd demo_unix) = 3" "main_msg_buffer demo_unix = ''previous''" "unix_known demo_unix = {''other''}"
  "unix_peers demo_unix = [(''other'', ())]" "sk_family demo_unix = AF_UNIX"
  "trace demo_unix = [(C_socket AF_UNIX SOCK_DGRAM 0, reply 3)]"
  by (simp_all add: demo_unix_def unix_known_def)

lemma demo_unix_inv [simp]: "unix_inv demo_unix"
  by (simp add: unix_inv_def std_map_ok_def accounts_def demo_unix_def)

text \<open>
  C31. The set of peers of a UNIX socket implements the set of names: handling a datagram with the text
  \<open>msg\<close> refines \<open>known_after path msg\<close> for the name of its sender, and nothing but a failed receive
  raises an exception, which leaves the peers as they were.
\<close>

theorem unix_message_refines:
  fixes E s fd
  defines "r \<equiv> os E (trace s) (C_recvfrom fd (length (main_msg_buffer s)))"
  assumes "recv_ok E" and "checks_ok E" and "unix_inv s"
  shows "wp (unix_handleMessage E fd)
    (\<lambda>_ t. unix_inv t \<and> (\<exists>path. read_path (storage r) = Inr path \<and>
       unix_known t = known_after path (c_str (odata r)) (unix_known s)))
    (\<lambda>e t. is_exception e \<longrightarrow> rv r < 0 \<and> unix_inv t \<and> unix_known t = unix_known s) s"
  unfolding r_def
  by (rule wp_mono [OF wp_unix_handleMessage [OF assms(2-4)]]) (auto simp: unix_known_def)

lemma read_path_storage:
  assumes "oaddr r = le16 fam @ 0 # name" and "length name + 1 \<le> 108" and "0 \<notin> set name"
  shows "read_path (storage r) = Inr (chars_of_bytes name)"
proof -
  obtain a b where ab: "le16 fam = [a, b]" by (simp add: le16_def)
  have "storage r = a # b # 0 # name @ replicate (125 - length name) 0"
    using assms(1,2) by (simp add: storage_def ab)
  then have "drop 3 (storage r) = name @ replicate (125 - length name) 0"
    by (simp add: eval_nat_numeral)
  moreover have "0 < 125 - length name" using assms(2) by simp
  ultimately show ?thesis
    by (simp add: read_path_def c_str_pad nul_notin_chars_of_bytes [OF assms(3)])
qed

text \<open>What \<open>send\<close> does with a name: it leaves the bytes of the object, or sends to the whole name.\<close>

lemma read_path_address:
  "unix_address fam path = Inr saddr \<Longrightarrow> NUL \<notin> set path \<Longrightarrow>
     read_path saddr = (if length path + 1 < sun_path_size then Inr path else Inl (Undefined ''sun_path read out of bounds''))"
  by (auto simp: unix_address_def read_path_def le16_def sun_path_size_def c_str_pad Let_def split: if_splits)

lemma take_address:
  "unix_address fam path = Inr saddr \<Longrightarrow> take (2 + length path + 1) saddr = le16 fam @ 0 # bytes_of_chars path"
  by (auto simp: unix_address_def le16_def split: if_splits)

lemma unix_address_cases:
  "unix_address fam path = Inl e \<Longrightarrow> e = Undefined ''sun_path written out of bounds'' \<and> sun_path_size \<le> length path"
  "unix_address fam path = Inr saddr \<Longrightarrow> length path < sun_path_size"
  by (auto simp: unix_address_def split: if_splits)

lemma wp_unix_send_to:
  assumes "NUL \<notin> set path"
  shows "wp (unix_send_to E msg path) Q R s \<longleftrightarrow>
    (let c = C_sendto (raw_fd (sk_fd s)) msg (le16 (sk_family s) @ 0 # bytes_of_chars path); r = os E (trace s) c in
     if sun_path_size \<le> length path then R (Undefined ''sun_path written out of bounds'') s
     else if length path + 1 = sun_path_size then R (Undefined ''sun_path read out of bounds'') s
     else wp (check E ''Send'' (failedSend (rv r))) Q R (s\<lparr>trace := (c, r) # trace s\<rparr>))"
proof (cases "unix_address (sk_family s) path")
  case (Inl e)
  then show ?thesis
    using unix_address_cases(1) [OF Inl] by (simp add: unix_send_to_def wp_simps Let_def)
next
  case (Inr saddr)
  then show ?thesis
    using unix_address_cases(2) [OF Inr] take_address [OF Inr]
    by (auto simp: unix_send_to_def wp_simps Let_def read_path_address [OF Inr assms])
qed

text \<open>
  C32. A reply reaches the address a datagram came from: the name \<open>handleMessage\<close> stores for a
  sender with an abstract address is turned back by \<open>send\<close> into exactly the bytes the kernel reported,
  for every name without NUL that leaves room for one; \<open>send\<close> makes one call and throws only if that fails.
\<close>

theorem unix_reply_address:
  fixes s E msg
  defines "sent a \<equiv> (C_sendto (raw_fd (sk_fd s)) msg a, os E (trace s) (C_sendto (raw_fd (sk_fd s)) msg a))"
  assumes "oaddr r = le16 AF_UNIX @ 0 # name" and "length name + 1 < 108" and "0 \<notin> set name"
    and "sk_family s = AF_UNIX" and "checks_ok E"
  shows "\<exists>path. read_path (storage r) = Inr path \<and>
    wp (unix_send_to E msg path) (\<lambda>_ t. t = s\<lparr>trace := sent (oaddr r) # trace s\<rparr>)
      (\<lambda>e t. is_exception e \<and> failedSend (rv (snd (sent (oaddr r)))) \<and> t = s\<lparr>trace := sent (oaddr r) # trace s\<rparr>) s"
proof (intro exI conjI)
  show "read_path (storage r) = Inr (chars_of_bytes name)"
    using assms(2-4) by (intro read_path_storage) auto
  show "wp (unix_send_to E msg (chars_of_bytes name)) (\<lambda>_ t. t = s\<lparr>trace := sent (oaddr r) # trace s\<rparr>)
      (\<lambda>e t. is_exception e \<and> failedSend (rv (snd (sent (oaddr r)))) \<and> t = s\<lparr>trace := sent (oaddr r) # trace s\<rparr>) s"
    using assms(2-6)
    by (simp add: wp_unix_send_to nul_notin_chars_of_bytes sun_path_size_def sent_def Let_def wp_simps checks_ok_eq)
qed

theorem unix_reply_address_witness:
  "\<exists>path. read_path (storage ((reply 2)\<lparr>oaddr := demo_unix_from\<rparr>)) = Inr path \<and>
     wp (unix_send_to (demo_env 16 [] []) ''hi'' path) (\<lambda>_ t. fst (hd (trace t)) = C_sendto 3 ''hi'' demo_unix_from) (\<lambda>_ _. True) demo_unix"
  using unix_reply_address [of "(reply 2)\<lparr>oaddr := demo_unix_from\<rparr>" "[112, 101, 101, 114]" demo_unix "demo_env 16 [] []" "''hi''"]
  by (simp add: demo_unix_from_def le16_def family_defs) (elim exE conjE, intro exI conjI, assumption, erule wp_mono, simp_all)

theorem unix_message_refines_witness:
  "wp (unix_handleMessage (demo_env 16 ''hi'' demo_unix_from) 3) (\<lambda>_ t. unix_known t = {''other'', ''peer''})
     (\<lambda>_ _. True) demo_unix"
proof -
  let ?E = "demo_env 16 ''hi'' demo_unix_from"
  have "read_path (storage ((reply 2)\<lparr>odata := ''hi'', oaddr := demo_unix_from\<rparr>)) = Inr ''peer''"
    by (subst read_path_storage [of _ AF_UNIX "[112, 101, 101, 114]"])
      (simp_all add: demo_unix_from_def le16_def family_defs chars_of_bytes_def, code_simp)
  then show ?thesis
    by (intro wp_mono [OF unix_message_refines [of ?E demo_unix 3]]) (auto simp: known_after_def c_str_def)
qed

text \<open>
  C33. A peer whose name has 107 characters or more can be connected to: \<open>connect\<close> stores it like
  any other. The next \<open>send\<close> that gets to it leaves the bytes of the address object: it writes past its end,
  or, when the name fits to the last byte, the line it logs reads past it.
\<close>

theorem unix_long_path_overflows:
  assumes "unix_known s = {}" and "107 \<le> length (addr remote)" and "NUL \<notin> set (addr remote)"
  shows "wp (thenE (unix_connect [remote]) (unix_send E msg)) (\<lambda>_ _. False)
    (\<lambda>e _. e = Undefined (if length (addr remote) = 107 then ''sun_path read out of bounds''
       else ''sun_path written out of bounds'')) s"
proof -
  have "unix_peers s = []" using assms(1) by (simp add: unix_known_def)
  then show ?thesis
    using assms(2) by (auto simp: unix_connect_def unix_send_def wp_unix_send_to [OF assms(3)] sun_path_size_def wp_simps Let_def)
qed

theorem unix_long_path_overflows_witness:
  "wp (thenE (unix_connect [IPSocket (replicate 107 CHR ''a'') 0 AF_INET]) (unix_send (demo_env 16 [] []) ''hi''))
     (\<lambda>_ _. False) (\<lambda>e _. e = Undefined ''sun_path read out of bounds'') (demo_unix\<lparr>unix_peers := []\<rparr>)"
  using unix_long_path_overflows [of "demo_unix\<lparr>unix_peers := []\<rparr>" "IPSocket (replicate 107 CHR ''a'') 0 AF_INET"
      "demo_env 16 [] []" "''hi''"] by (simp add: unix_known_def)

end
