(* ===== verification/MutexDiscipline.thy ===== *)
theory MutexDiscipline
  imports SocketClass SctpGetAddrs
begin

text \<open>
  When an operation cannot deadlock. \<open>steady k m\<close>: run while the thread holds the mutex to the depth
  \<open>k\<close>, \<open>m\<close> does not end in a deadlock, and it leaves the depth as it was, whether it returns or
  throws. The rules follow the structure of a method; the mutex may be taken at depth 0 only.
\<close>

definition steady :: "nat \<Rightarrow> ('z GuardedSocket_scheme, 'a) io \<Rightarrow> bool" where
  "steady k m \<longleftrightarrow> (\<forall>s. peers_mtx s = k \<longrightarrow>
     wp m (\<lambda>_ t. peers_mtx t = k) (\<lambda>e t. e \<noteq> Deadlock \<and> (is_exception e \<longrightarrow> peers_mtx t = k)) s)"

named_theorems steady_intros "computations that cannot deadlock"

lemma steadyD:
  "steady k m \<Longrightarrow> peers_mtx s = k \<Longrightarrow>
     wp m (\<lambda>_ t. peers_mtx t = k) (\<lambda>e t. e \<noteq> Deadlock \<and> (is_exception e \<longrightarrow> peers_mtx t = k)) s"
  by (simp add: steady_def)

text \<open>The pure parts of the code never end in a deadlock.\<close>

definition live_sum :: "error + 'a \<Rightarrow> bool" where
  "live_sum r \<longleftrightarrow> r \<noteq> Inl Deadlock"

lemma live_sum_simps [simp]: "live_sum (Inr x)" "live_sum (Inl e) \<longleftrightarrow> e \<noteq> Deadlock"
  by (simp_all add: live_sum_def)

lemma live_checked_sum: "checks_ok E \<Longrightarrow> live_sum (checked_sum E name f x)"
  by (simp add: checked_sum_def checks_ok_eq)

lemma live_to_sockaddr: "checks_ok E \<Longrightarrow> live_sum (to_sockaddr_storage E ip)"
  by (auto simp: to_sockaddr_storage_def sockaddr_in6_of_def sockaddr_in_of_def checked_sum_def
      checks_ok_eq Let_def split: sum.split prod.split if_splits)

lemma live_toSockaddrs: "checks_ok E \<Longrightarrow> live_sum (toSockaddrs E ips)"
proof (induction ips)
  case Nil
  then show ?case by simp
next
  case (Cons ip ips)
  then show ?case using live_to_sockaddr [of E ip] by (auto simp: live_sum_def split: sum.split)
qed

lemma live_of_sockaddr: "checks_ok E \<Longrightarrow> live_sum (IPSocket_of_sockaddr E bs)"
  by (auto simp: IPSocket_of_sockaddr_def checked_sum_def checks_ok_eq Let_def split: prod.split option.split)

lemma live_walk_addrs: "checks_ok E \<Longrightarrow> live_sum (walk_addrs E n bs)"
proof (induction E n bs rule: walk_addrs.induct)
  case (2 E n bs)
  then show ?case using live_of_sockaddr [of E bs] by (auto simp: live_sum_def split: sum.split)
qed simp

lemma live_store_received: "live_sum (store_received buf r)"
  by (simp add: store_received_def Let_def)

section \<open>Rules\<close>

lemma steady_basic [steady_intros]:
  "steady k (return x)" "steady k (gets f)" "e \<noteq> Deadlock \<Longrightarrow> steady k (throw e)" "steady k (sys E c)"
  by (simp_all add: steady_def wp_simps)

lemma steady_modify: "(\<And>s. peers_mtx (f s) = peers_mtx s) \<Longrightarrow> steady k (modify f)"
  by (simp add: steady_def wp_simps)

lemma steady_lift_sum: "live_sum r \<Longrightarrow> steady k (lift_sum r)"
  by (auto simp: steady_def wp_simps live_sum_def split: sum.split)

lemma steady_check [steady_intros]: "checks_ok E \<Longrightarrow> steady k (check E name f)"
  by (simp add: steady_def wp_simps checks_ok_eq)

lemma steady_bindE [steady_intros]:
  assumes "steady k m" and "\<And>x. steady k (f x)"
  shows "steady k (bindE m f)"
  unfolding steady_def wp_bindE
proof (intro allI impI)
  fix s :: "'a GuardedSocket_scheme"
  assume s: "peers_mtx s = k"
  show "wp m (\<lambda>x. wp (f x) (\<lambda>_ t. peers_mtx t = k)
        (\<lambda>e t. e \<noteq> Deadlock \<and> (is_exception e \<longrightarrow> peers_mtx t = k)))
      (\<lambda>e t. e \<noteq> Deadlock \<and> (is_exception e \<longrightarrow> peers_mtx t = k)) s"
    by (rule wp_mono [OF steadyD [OF assms(1) s]]) (rule steadyD [OF assms(2)])
qed

lemma steady_thenE [steady_intros]: "steady k m \<Longrightarrow> steady k n \<Longrightarrow> steady k (thenE m n)"
  by (simp add: thenE_def steady_bindE)

lemma steady_checked [steady_intros]: "checks_ok E \<Longrightarrow> steady k (checked E name f r)"
  by (simp add: checked_def steady_intros)

lemma steady_if [steady_intros]: "steady k m \<Longrightarrow> steady k n \<Longrightarrow> steady k (if b then m else n)"
  by simp

lemma steady_for_each [steady_intros]: "(\<And>x. steady k (f x)) \<Longrightarrow> steady k (for_each f xs)"
  by (induction xs) (simp_all add: steady_intros)

lemma steady_case_option [steady_intros]:
  "steady k m \<Longrightarrow> (\<And>x. steady k (f x)) \<Longrightarrow> steady k (case o' of None \<Rightarrow> m | Some x \<Rightarrow> f x)"
  by (cases o') simp_all

lemma steady_on_unwind [steady_intros]:
  assumes "steady k m" and "steady k c"
  shows "steady k (on_unwind m c)"
  unfolding steady_def wp_on_unwind
proof (intro allI impI)
  fix s :: "'a GuardedSocket_scheme"
  let ?R = "\<lambda>e (t :: 'a GuardedSocket_scheme). e \<noteq> Deadlock \<and> (is_exception e \<longrightarrow> peers_mtx t = k)"
  assume s: "peers_mtx s = k"
  show "wp m (\<lambda>_ t. peers_mtx t = k) (\<lambda>e. if is_exception e then wp c (\<lambda>_. ?R e) (\<lambda>_. ?R Terminate) else ?R e) s"
  proof (rule wp_mono [OF steadyD [OF assms(1) s]])
    fix e t
    assume e: "?R e t"
    show "(if is_exception e then wp c (\<lambda>_. ?R e) (\<lambda>_. ?R Terminate) else ?R e) t"
    proof (cases "is_exception e")
      case True
      then have "peers_mtx t = k" using e by simp
      from wp_mono [OF steadyD [OF assms(2) this], where Q' = "\<lambda>_. ?R e" and R' = "\<lambda>_. ?R Terminate"]
      show ?thesis using True e by auto
    qed (use e in simp)
  qed
qed

lemma steady_with_lock:
  assumes "std_mutex E" and "steady 1 m"
  shows "steady 0 (with_lock E m)"
  unfolding steady_def
proof (intro allI impI)
  fix s :: "'a GuardedSocket_scheme"
  assume "peers_mtx s = 0"
  then show "wp (with_lock E m) (\<lambda>_ t. peers_mtx t = 0)
      (\<lambda>e t. e \<noteq> Deadlock \<and> (is_exception e \<longrightarrow> peers_mtx t = 0)) s"
    unfolding wp_with_lock_free [OF assms(1) \<open>peers_mtx s = 0\<close>]
    by (intro wp_mono [OF steadyD [OF assms(2)]]) auto
qed

lemma steady_run_tasks [steady_intros]:
  assumes "\<And>fd. steady k (h fd)"
  shows "steady k (run_tasks h xs)"
proof (induction xs)
  case Nil
  then show ?case by (simp add: steady_intros)
next
  case (Cons fd xs)
  have rest: "steady k (bindE (run_tasks h xs) (\<lambda>es. return (x # es)))" for x
    by (intro steady_intros Cons)
  show ?case
    unfolding steady_def
  proof (intro allI impI)
    fix s :: "'b GuardedSocket_scheme"
    assume s: "peers_mtx s = k"
    obtain r t where r: "h fd s = (r, t)" by force
    note h = steadyD [OF assms s, of fd]
    show "wp (run_tasks h (fd # xs)) (\<lambda>_ t. peers_mtx t = k)
        (\<lambda>e t. e \<noteq> Deadlock \<and> (is_exception e \<longrightarrow> peers_mtx t = k)) s"
    proof (cases r)
      case (Inl e)
      then have e: "e \<noteq> Deadlock" "is_exception e \<Longrightarrow> peers_mtx t = k" using h r by (simp_all add: wp_def)
      show ?thesis
        using e(1) steadyD [OF rest e(2)] r Inl by (simp add: wp_def)
    next
      case (Inr x)
      then have "peers_mtx t = k" using h r by (simp add: wp_def)
      from steadyD [OF rest this] show ?thesis using r Inr by (simp add: wp_def)
    qed
  qed
qed

text \<open>What \<open>join\<close> throws is an exception.\<close>

definition join_ok :: "env \<Rightarrow> bool" where
  "join_ok E \<longleftrightarrow> (\<forall>es e. join_tasks E es = Some e \<longrightarrow> is_exception e)"

lemma demo_join_ok [simp]: "join_ok (demo_env bsize msg from)"
  by (simp add: join_ok_def)

lemma steady_Socket_receive:
  assumes "join_ok E" and "steady k sel" and "\<And>fd. steady k (h fd)"
  shows "steady k (Socket_receive E sel h)"
proof -
  have "steady k (case join_tasks E es of None \<Rightarrow> return () | Some e \<Rightarrow> throw e)" for es
  proof (cases "join_tasks E es")
    case (Some e)
    then have "is_exception e" using assms(1) by (simp add: join_ok_def)
    then have "e \<noteq> Deadlock" by auto
    then show ?thesis using Some by (simp add: steady_basic)
  qed (simp add: steady_basic)
  then show ?thesis
    unfolding Socket_receive_def by (intro steady_bindE steady_basic steady_run_tasks assms(2,3))
qed

section \<open>The operations of the base class\<close>

lemma steady_fd_dtor [steady_intros]: "steady k (fd_dtor E d)"
  unfolding fd_dtor_def fd_close_def by (intro steady_intros)

lemma steady_FDSet [steady_intros]:
  "steady k FDSet_reset" "steady k (FDSet_set fd)" "checks_ok E \<Longrightarrow> steady k (FDSet_select E t)"
  unfolding FDSet_reset_def FDSet_set_def FDSet_select_def FDSet_selectImpl_def
  by (auto intro!: steady_intros steady_modify)

lemma steady_Socket [steady_intros]:
  "checks_ok E \<Longrightarrow> steady k (Socket_listen E n)" "checks_ok E \<Longrightarrow> steady k (Socket_connect_fd E fd remote)"
  "steady k (scheduleReestablishment E remote)" "steady k (log_received E msg)"
  "checks_ok E \<Longrightarrow> steady k (getsockopt E fd l opt)" "checks_ok E \<Longrightarrow> steady k (optInfo E fd opt a)"
  "checks_ok E \<Longrightarrow> steady k (getPaddrs E fd a)"
  unfolding Socket_listen_def Socket_connect_fd_def scheduleReestablishment_def log_received_def
    getsockopt_def optInfo_def getPaddrs_def getAddrs_def
  by (auto intro!: steady_intros steady_lift_sum live_to_sockaddr live_walk_addrs)

end
