(* ===== verification/NetworkConfiguration.thy ===== *)
theory NetworkConfiguration
  imports SocketIO DemoRuns
begin

text \<open>
  \<open>src/src/NetworkConfiguration.cpp\<close>, \<open>NetworkProtocol.hpp\<close>: the configuration of a network
  task, read from the command line, and the \<open>std::stoi\<close> it reads numbers with. The parser is written
  with the code's index into the arguments; a recursion over the list of arguments is its reference.
\<close>

datatype NetworkProtocol = SCTP | TCP | UDP | UDP_Lite | DCCP | Unix | UnixForked

definition isUnix :: "NetworkProtocol \<Rightarrow> bool" where
  "isUnix protocol \<longleftrightarrow> protocol \<in> {Unix, UnixForked}"

text \<open>\<open>Size\<close> is the unsigned 64-bit type of sizes.\<close>

record NetworkConfiguration =
  cfg_locals :: "IPSocket list"
  cfg_remotes :: "IPSocket list"
  cfg_protocol :: NetworkProtocol
  cfg_path_mtu :: int
  cfg_max_seg :: int
  cfg_big_msg_size :: "64 word"

section \<open>\<open>std::stoi\<close>\<close>

text \<open>
  White space, an optional sign, the longest run of decimal digits; what follows is ignored. No digit:
  \<open>invalid_argument\<close>. A value no \<open>int\<close> can hold: \<open>out_of_range\<close>.
\<close>

definition is_space :: "char \<Rightarrow> bool" where
  "is_space c \<longleftrightarrow> c \<in> {CHR 0x20, CHR 0x09, CHR 0x0A, CHR 0x0B, CHR 0x0C, CHR 0x0D}"

definition stoi_sign :: "string \<Rightarrow> int \<times> string" where
  "stoi_sign cs =
     (case cs of
        c # rest \<Rightarrow> if c = CHR ''-'' then (-1, rest) else if c = CHR ''+'' then (1, rest) else (1, cs)
      | [] \<Rightarrow> (1, cs))"

definition stoi :: "string \<Rightarrow> error + int" where
  "stoi str =
     (let (sign, rest) = stoi_sign (dropWhile is_space (c_str str));
          digits = takeWhile is_digit rest;
          n = sign * decimal digits
      in if digits = [] then Inl (Invalid_argument ''stoi'')
         else if - (2 ^ 31) \<le> n \<and> n < 2 ^ 31 then Inr n
         else Inl (Out_of_range ''stoi''))"

section \<open>The parser\<close>

text \<open>A map's \<open>operator[]\<close> with an unknown key makes a value-initialised protocol, the first one.\<close>

definition getProtocol :: "env \<Rightarrow> string \<Rightarrow> NetworkProtocol" where
  "getProtocol E arg =
     (case map_of [(''sctp'', SCTP), (''tcp'', TCP), (''udp'', UDP), (''udp_lite'', UDP_Lite),
          (''dccp'', DCCP), (''unix'', Unix), (''fork'', UnixForked)] (to_lower E arg) of
        Some p \<Rightarrow> p | None \<Rightarrow> SCTP)"

datatype Filling = Locals | Remotes

definition push_back :: "Filling \<Rightarrow> IPSocket \<Rightarrow> NetworkConfiguration \<Rightarrow> NetworkConfiguration" where
  "push_back filling ip cfg =
     (case filling of
        Locals \<Rightarrow> cfg\<lparr>cfg_locals := cfg_locals cfg @ [ip]\<rparr>
      | Remotes \<Rightarrow> cfg\<lparr>cfg_remotes := cfg_remotes cfg @ [ip]\<rparr>)"

definition arg_at :: "string list \<Rightarrow> nat \<Rightarrow> error + string" where
  "arg_at args i = (if i < length args then Inr (args ! i) else Inl (Undefined ''args read out of bounds''))"

text \<open>\<open>args.size() - 1\<close> in unsigned arithmetic.\<close>

definition last_index :: "string list \<Rightarrow> nat" where
  "last_index args = (if args = [] then 2 ^ 64 - 1 else length args - 1)"

text \<open>
  One run of the loop's body for the argument \<open>arg\<close> at the index \<open>i\<close>: the configuration, the list that
  is filled from now on and the index of the last argument used. \<open>front\<close> of an empty string is
  undefined.
\<close>

definition parse_step ::
  "env \<Rightarrow> string list \<Rightarrow> nat \<Rightarrow> Filling \<Rightarrow> NetworkConfiguration \<Rightarrow>
     error + (nat \<times> Filling \<times> NetworkConfiguration)" where
  "parse_step E args i filling cfg =
     (case arg_at args i of Inl e \<Rightarrow> Inl e | Inr arg \<Rightarrow>
      (case arg of
         [] \<Rightarrow> Inl (Undefined ''front of an empty string'')
       | c # _ \<Rightarrow>
         if c = CHR ''-'' then
           (if arg = ''-p'' then
              (case arg_at args (i + 1) of Inl e \<Rightarrow> Inl e
               | Inr a \<Rightarrow> Inr (i + 1, filling, cfg\<lparr>cfg_protocol := getProtocol E a\<rparr>))
            else if arg = ''-mtu'' then
              (case arg_at args (i + 1) of Inl e \<Rightarrow> Inl e
               | Inr a \<Rightarrow> (case stoi a of Inl e \<Rightarrow> Inl e
                 | Inr n \<Rightarrow> Inr (i + 1, filling, cfg\<lparr>cfg_path_mtu := n\<rparr>)))
            else if arg = ''-seg'' then
              (case arg_at args (i + 1) of Inl e \<Rightarrow> Inl e
               | Inr a \<Rightarrow> (case stoi a of Inl e \<Rightarrow> Inl e
                 | Inr n \<Rightarrow> Inr (i + 1, filling, cfg\<lparr>cfg_max_seg := n\<rparr>)))
            else if arg = ''-msg'' then
              (case arg_at args (i + 1) of Inl e \<Rightarrow> Inl e
               | Inr a \<Rightarrow> (case stoi a of Inl e \<Rightarrow> Inl e
                 | Inr n \<Rightarrow> Inr (i + 1, filling, cfg\<lparr>cfg_big_msg_size := word_of_int n\<rparr>)))
            else if arg = ''-r'' then Inr (i, Remotes, cfg)
            else Inr (i, filling, cfg))
         else
           (case arg_at args (i + 1) of Inl e \<Rightarrow> Inl e
            | Inr a \<Rightarrow> (case stoi a of Inl e \<Rightarrow> Inl e
              | Inr n \<Rightarrow> Inr (i + 1, filling, push_back filling (IPSocket_ctor E arg (word_of_int n)) cfg)))))"

lemma parse_step_index: "parse_step E args i filling cfg = Inr (j, f, c) \<Longrightarrow> i \<le> j"
  by (auto simp: parse_step_def split: sum.splits list.splits if_splits)

function parse_from ::
  "env \<Rightarrow> string list \<Rightarrow> nat \<Rightarrow> Filling \<Rightarrow> NetworkConfiguration \<Rightarrow> error + NetworkConfiguration" where
  "parse_from E args i filling cfg =
     (if i < last_index args
      then (case parse_step E args i filling cfg of
              Inl e \<Rightarrow> Inl e
            | Inr (j, filling', cfg') \<Rightarrow> parse_from E args (j + 1) filling' cfg')
      else Inr cfg)"
  by pat_completeness auto
termination
proof (relation "measure (\<lambda>(E, args, i, filling, cfg). last_index args - i)", goal_cases)
  case 1
  show ?case by (rule wf_measure)
next
  case (2 E args i filling cfg y j z filling' cfg')
  then have "i \<le> j" by (auto dest: parse_step_index)
  with 2(1) show ?case by simp
qed

declare parse_from.simps [simp del]

text \<open>\<open>uninit\<close> is the protocol's indeterminate initial value: the member has no initialiser.\<close>

definition NetworkConfiguration_ctor ::
  "env \<Rightarrow> NetworkProtocol \<Rightarrow> string list \<Rightarrow> error + NetworkConfiguration" where
  "NetworkConfiguration_ctor E uninit args =
     parse_from E args 1 Locals
       \<lparr>cfg_locals = [], cfg_remotes = [], cfg_protocol = uninit, cfg_path_mtu = 0, cfg_max_seg = 0,
        cfg_big_msg_size = 0\<rparr>"

section \<open>Equivalence with a recursion over the list of arguments\<close>

fun parse_list :: "env \<Rightarrow> string list \<Rightarrow> Filling \<Rightarrow> NetworkConfiguration \<Rightarrow> error + NetworkConfiguration" where
  "parse_list E (arg # a # rest) filling cfg =
     (if arg = [] then Inl (Undefined ''front of an empty string'')
      else if hd arg \<noteq> CHR ''-'' then
        (case stoi a of Inl e \<Rightarrow> Inl e
         | Inr n \<Rightarrow> parse_list E rest filling (push_back filling (IPSocket_ctor E arg (word_of_int n)) cfg))
      else if arg = ''-p'' then parse_list E rest filling (cfg\<lparr>cfg_protocol := getProtocol E a\<rparr>)
      else if arg = ''-mtu'' then
        (case stoi a of Inl e \<Rightarrow> Inl e | Inr n \<Rightarrow> parse_list E rest filling (cfg\<lparr>cfg_path_mtu := n\<rparr>))
      else if arg = ''-seg'' then
        (case stoi a of Inl e \<Rightarrow> Inl e | Inr n \<Rightarrow> parse_list E rest filling (cfg\<lparr>cfg_max_seg := n\<rparr>))
      else if arg = ''-msg'' then
        (case stoi a of Inl e \<Rightarrow> Inl e
         | Inr n \<Rightarrow> parse_list E rest filling (cfg\<lparr>cfg_big_msg_size := word_of_int n\<rparr>))
      else parse_list E (a # rest) (if arg = ''-r'' then Remotes else filling) cfg)"
| "parse_list E [arg] filling cfg = Inr cfg"
| "parse_list E [] filling cfg = Inr cfg"

lemma drop_Suc_nth: "drop i xs = x # ys \<Longrightarrow> i < length xs \<and> xs ! i = x \<and> drop (Suc i) xs = ys"
  by (metis Cons_nth_drop_Suc drop_eq_Nil2 leI list.distinct(1) list.inject)

lemma parse_from_list:
  assumes "args \<noteq> []"
  shows "parse_from E args i filling cfg = parse_list E (drop i args) filling cfg"
proof (induction "drop i args" arbitrary: i filling cfg rule: length_induct)
  case 1
  have IH: "length (drop j args) < length (drop i args) \<Longrightarrow>
      parse_from E args j f c = parse_list E (drop j args) f c" for j f c
    using 1 by blast
  consider "drop i args = []" | arg where "drop i args = [arg]"
    | arg a rest where "drop i args = arg # a # rest"
    by (metis list.exhaust)
  then show ?case
  proof cases
    case 3
    note i = drop_Suc_nth [OF 3] and i1 = drop_Suc_nth [OF conjunct2 [OF conjunct2 [OF drop_Suc_nth [OF 3]]]]
    have lt: "i < last_index args" using i1 assms by (auto simp: last_index_def)
    have at: "arg_at args i = Inr arg" "arg_at args (Suc i) = Inr a"
      using i i1 by (simp_all add: arg_at_def)
    have rest: "parse_from E args (Suc (Suc i)) f c = parse_list E rest f c"
      and next1: "parse_from E args (Suc i) f c = parse_list E (a # rest) f c" for f c
      using IH [of "Suc (Suc i)"] IH [of "Suc i"] i i1 3 by simp_all
    show ?thesis
      by (subst parse_from.simps)
        (cases arg; simp add: lt parse_step_def at 3 rest next1 split: sum.split)
  qed (use assms in \<open>auto simp: parse_from.simps last_index_def not_less dest!: drop_Suc_nth\<close>)
qed

text \<open>
  C39. Reading the command line with an index that the loop moves by one or two is the recursion over the
  list of arguments. In particular, for every command line that has at least the program's name, the
  index stays within the arguments: the loop never looks at the last argument as the beginning of a
  setting, so the value behind a setting is always there.
\<close>

theorem parsing_is_list_recursion:
  assumes "args \<noteq> []"
  shows "NetworkConfiguration_ctor E uninit args =
      parse_list E (tl args) Locals
        \<lparr>cfg_locals = [], cfg_remotes = [], cfg_protocol = uninit, cfg_path_mtu = 0, cfg_max_seg = 0,
         cfg_big_msg_size = 0\<rparr> \<and>
    NetworkConfiguration_ctor E uninit args \<noteq> Inl (Undefined ''args read out of bounds'')"
proof -
  have "parse_list E as f c \<noteq> Inl (Undefined ''args read out of bounds'')" for as f c
    by (induction E as f c rule: parse_list.induct)
      (auto simp: stoi_def Let_def split: sum.split prod.split)
  then show ?thesis
    by (simp add: NetworkConfiguration_ctor_def parse_from_list [OF assms] drop_Suc)
qed

theorem parsing_is_list_recursion_witness:
  "NetworkConfiguration_ctor (demo_env 1 [] []) SCTP [''prog'', ''HPAAAAAB'', ''70000'', ''-mtu'', ''-9x'', ''-r''] =
     Inr \<lparr>cfg_locals = [IPSocket ''HPAAAAAB'' 4464 AF_INET], cfg_remotes = [], cfg_protocol = SCTP,
       cfg_path_mtu = -9, cfg_max_seg = 0, cfg_big_msg_size = 0\<rparr>"
proof -
  have "stoi ''70000'' = Inr 70000" and "stoi ''-9x'' = Inr (-9)" by code_simp+
  then show ?thesis
    using parsing_is_list_recursion [of "[''prog'', ''HPAAAAAB'', ''70000'', ''-mtu'', ''-9x'', ''-r'']"
        "demo_env 1 [] []" SCTP]
    by (simp add: push_back_def)
qed

section \<open>What a command line means\<close>

lemma stoi_show_nat: "n < 2 ^ 31 \<Longrightarrow> stoi (show_nat n) = Inr (int n)"
proof -
  assume n: "n < 2 ^ 31"
  have ds: "is_digit c" "c \<notin> {CHR 0x20, CHR 0x09, CHR 0x0A, CHR 0x0B, CHR 0x0C, CHR 0x0D, CHR ''-'', CHR ''+'', NUL}"
    if digit: "c \<in> set (show_nat n)" for c
  proof -
    obtain k :: nat where k: "k < 10" "c = char_of (48 + k)" using show_nat_chars [OF digit] by blast
    show "is_digit c" "c \<notin> {CHR 0x20, CHR 0x09, CHR 0x0A, CHR 0x0B, CHR 0x0C, CHR 0x0D, CHR ''-'', CHR ''+'', NUL}"
      unfolding k(2) by (rule digit_char [OF k(1)])+
  qed
  have ne: "show_nat n \<noteq> []" by (simp add: show_nat.simps [of n])
  then obtain c cs where c: "show_nat n = c # cs" by (cases "show_nat n") auto
  have "NUL \<notin> set (show_nat n)" using ds(2) [of NUL] by auto
  then have 1: "c_str (show_nat n) = show_nat n" by (rule c_str_no_nul)
  have 2: "dropWhile is_space (show_nat n) = show_nat n"
    using ds(2) [of c] by (simp add: c is_space_def)
  have 3: "stoi_sign (show_nat n) = (1, show_nat n)"
    using ds(2) [of c] by (simp add: c stoi_sign_def)
  have 4: "takeWhile is_digit (show_nat n) = show_nat n"
    using ds(1) by (simp add: takeWhile_eq_all_conv)
  show ?thesis
    using n by (simp add: stoi_def Let_def 1 2 3 4 decimal_show_nat ne)
qed

text \<open>An address and a port, and the two arguments they are given as.\<close>

definition endpoint_args :: "string \<times> 16 word \<Rightarrow> string list" where
  "endpoint_args p = [fst p, show_nat (unat (snd p))]"

definition endpoint :: "env \<Rightarrow> string \<times> 16 word \<Rightarrow> IPSocket" where
  "endpoint E p = IPSocket_ctor E (fst p) (snd p)"

definition address_text :: "string \<Rightarrow> bool" where
  "address_text a \<longleftrightarrow> a \<noteq> [] \<and> hd a \<noteq> CHR ''-''"

lemma stoi_port: "stoi (show_nat (unat (p :: 16 word))) = Inr (int (unat p))"
proof (rule stoi_show_nat)
  have "unat p < 65536" using unsigned_less [of p] by simp
  then show "unat p < 2 ^ 31" by simp
qed

lemma parse_endpoint:
  "address_text (fst p) \<Longrightarrow> parse_list E (endpoint_args p @ rest) f cfg =
     parse_list E rest f (push_back f (endpoint E p) cfg)"
  by (simp add: endpoint_args_def endpoint_def address_text_def stoi_port)

lemma parse_endpoints:
  assumes "\<forall>p\<in>set ps. address_text (fst p)"
  shows "parse_list E (concat (map endpoint_args ps) @ rest) f cfg =
    parse_list E rest f (fold (push_back f) (map (endpoint E) ps) cfg)"
  using assms by (induction ps arbitrary: cfg) (simp_all add: parse_endpoint)

lemma fold_push_back:
  "fold (push_back Locals) ips cfg = cfg\<lparr>cfg_locals := cfg_locals cfg @ ips\<rparr>"
  "fold (push_back Remotes) ips cfg = cfg\<lparr>cfg_remotes := cfg_remotes cfg @ ips\<rparr>"
  by (induction ips arbitrary: cfg) (simp_all add: push_back_def)

text \<open>
  C40. The command line \<open>prog locals... -p protocol -r remotes...\<close>, with every port as its decimal
  text, is understood: local and remote endpoints arrive in order and complete, all 65536 ports
  included, and the protocol is the named one. Without the setting \<open>-p\<close> the protocol keeps
  the indeterminate value of the uninitialised member.
\<close>

theorem command_line_understood:
  assumes "\<forall>p\<in>set ls. address_text (fst p)" and "\<forall>p\<in>set rs. address_text (fst p)"
  shows "NetworkConfiguration_ctor E uninit (prog # concat (map endpoint_args ls) @
      (case proto of Some p \<Rightarrow> [''-p'', p] | None \<Rightarrow> []) @ ''-r'' # concat (map endpoint_args rs)) =
    Inr \<lparr>cfg_locals = map (endpoint E) ls, cfg_remotes = map (endpoint E) rs,
      cfg_protocol = (case proto of Some p \<Rightarrow> getProtocol E p | None \<Rightarrow> uninit),
      cfg_path_mtu = 0, cfg_max_seg = 0, cfg_big_msg_size = 0\<rparr>"
proof -
  have r: "parse_list E (''-r'' # concat (map endpoint_args rs)) Locals cfg =
      Inr (cfg\<lparr>cfg_remotes := cfg_remotes cfg @ map (endpoint E) rs\<rparr>)" for cfg
  proof (cases "concat (map endpoint_args rs)")
    case Nil
    then show ?thesis by (cases rs) (simp_all add: endpoint_args_def)
  next
    case (Cons a as)
    then have "parse_list E (''-r'' # concat (map endpoint_args rs)) Locals cfg =
        parse_list E (concat (map endpoint_args rs) @ []) Remotes cfg"
      by simp
    then show ?thesis
      unfolding parse_endpoints [OF assms(2)] by (simp add: fold_push_back)
  qed
  show ?thesis
    unfolding NetworkConfiguration_ctor_def parse_from_list [OF list.distinct(2)]
    by (cases proto) (simp_all add: parse_endpoints [OF assms(1)] fold_push_back r)
qed

theorem command_line_understood_witness:
  "NetworkConfiguration_ctor (demo_env 1 [] []) TCP
      [''prog'', ''HPAAAAAB'', ''65535'', ''-p'', ''UDP_Lite'', ''-r'', ''HPAAAAAB'', ''7''] =
    Inr \<lparr>cfg_locals = [IPSocket ''HPAAAAAB'' 65535 AF_INET], cfg_remotes = [IPSocket ''HPAAAAAB'' 7 AF_INET],
      cfg_protocol = UDP_Lite, cfg_path_mtu = 0, cfg_max_seg = 0, cfg_big_msg_size = 0\<rparr>"
proof -
  have "show_nat 65535 = ''65535''" and "show_nat 7 = ''7''"
    by (simp_all add: show_nat.simps char_of_def bit_0)
  moreover have "map ascii_lower ''UDP_Lite'' = ''udp_lite''"
    by (simp add: ascii_lower_def char_of_def bit_0)
  ultimately show ?thesis
    using command_line_understood [of "[(''HPAAAAAB'', 65535)]" "[(''HPAAAAAB'', 7)]" "demo_env 1 [] []" TCP
        "''prog''" "Some ''UDP_Lite''"]
    by (simp add: address_text_def endpoint_args_def endpoint_def getProtocol_def)
qed

end
