(* ===== verification/SocketSctp.thy ===== *)
theory SocketSctp
  imports MutexDiscipline NetworkConfiguration CallScripts
begin

text \<open>
  \<open>src/src/SocketSctp.cpp\<close>: the SCTP socket. All associations begin on one descriptor; the kernel
  reports their changes by notifications, received like messages. An association that is up is
  peeled off to a descriptor of its own, kept in \<open>sctp_peers\<close>, an \<open>unordered_map\<close> from the
  association's number, guarded by the mutex \<open>peers_mtx\<close>.
\<close>

unbundle bit_operations_syntax

record SctpPeer =
  assoc_fd :: FileDescriptor
  assoc_msg_buffer :: string

record SocketSctp = GuardedSocket +
  sctp_peers :: "(int \<times> SctpPeer) list"
  sctp_config :: NetworkConfiguration

section \<open>Notifications\<close>

text \<open>
  The members of the union \<open>sctp_notification\<close> the code reads, at the offsets of
  \<open><netinet/sctp.h>\<close>, and the enumerators of that header.
\<close>

record sctp_notification =
  sn_type :: "16 word"
  sac_state :: "16 word"
  sac_assoc_id :: int
  spc_aaddr :: bytes
  spc_state :: int
  spc_assoc_id :: int

definition le32_int :: "bytes \<Rightarrow> int" where
  "le32_int b = (case b of
     w # x # y # z # _ \<Rightarrow>
       sint (ucast w OR push_bit 8 (ucast x) OR push_bit 16 (ucast y) OR push_bit 24 (ucast z) :: 32 word)
   | _ \<Rightarrow> 0)"

definition sizeof_notification :: nat where "sizeof_notification = 148"

definition notification_of :: "string \<Rightarrow> error + sctp_notification" where
  "notification_of msg_buffer =
     (let b = bytes_of_chars msg_buffer in
      if sizeof_notification \<le> length b
      then Inr \<lparr>sn_type = of_le16 b, sac_state = of_le16 (drop 8 b), sac_assoc_id = le32_int (drop 16 b),
        spc_aaddr = take 128 (drop 8 b), spc_state = le32_int (drop 136 b), spc_assoc_id = le32_int (drop 144 b)\<rparr>
      else Inl (Undefined ''msg_buffer read out of bounds''))"

definition MSG_NOTIFICATION :: "32 word" where "MSG_NOTIFICATION = 0x8000"

definition SCTP_ASSOC_CHANGE :: "16 word" where "SCTP_ASSOC_CHANGE = 0x8001"
definition SCTP_PEER_ADDR_CHANGE :: "16 word" where "SCTP_PEER_ADDR_CHANGE = 0x8002"
definition SCTP_REMOTE_ERROR :: "16 word" where "SCTP_REMOTE_ERROR = 0x8004"
definition SCTP_SHUTDOWN_EVENT :: "16 word" where "SCTP_SHUTDOWN_EVENT = 0x8005"
definition SCTP_PARTIAL_DELIVERY_EVENT :: "16 word" where "SCTP_PARTIAL_DELIVERY_EVENT = 0x8006"
definition SCTP_ADAPTATION_INDICATION :: "16 word" where "SCTP_ADAPTATION_INDICATION = 0x8007"
definition SCTP_SENDER_DRY_EVENT :: "16 word" where "SCTP_SENDER_DRY_EVENT = 0x8009"

definition SCTP_COMM_UP :: "16 word" where "SCTP_COMM_UP = 0"
definition SCTP_COMM_LOST :: "16 word" where "SCTP_COMM_LOST = 1"
definition SCTP_RESTART :: "16 word" where "SCTP_RESTART = 2"
definition SCTP_SHUTDOWN_COMP :: "16 word" where "SCTP_SHUTDOWN_COMP = 3"
definition SCTP_CANT_STR_ASSOC :: "16 word" where "SCTP_CANT_STR_ASSOC = 4"

lemmas notification_defs = SCTP_ASSOC_CHANGE_def SCTP_PEER_ADDR_CHANGE_def SCTP_REMOTE_ERROR_def
  SCTP_SHUTDOWN_EVENT_def SCTP_PARTIAL_DELIVERY_EVENT_def SCTP_ADAPTATION_INDICATION_def
  SCTP_SENDER_DRY_EVENT_def SCTP_COMM_UP_def SCTP_COMM_LOST_def SCTP_RESTART_def
  SCTP_SHUTDOWN_COMP_def SCTP_CANT_STR_ASSOC_def

definition isAssocChange :: "sctp_notification \<Rightarrow> bool" where
  "isAssocChange sn \<longleftrightarrow> sn_type sn = SCTP_ASSOC_CHANGE"

definition addr_state_text :: "int \<Rightarrow> string" where
  "addr_state_text state =
     (if state = 0 then ''SCTP_ADDR_AVAILABLE'' else if state = 1 then ''SCTP_ADDR_UNREACHABLE''
      else if state = 2 then ''SCTP_ADDR_REMOVED'' else if state = 3 then ''SCTP_ADDR_ADDED''
      else if state = 4 then ''SCTP_ADDR_MADE_PRIM'' else if state = 5 then ''SCTP_ADDR_CONFIRMED''
      else ''UNKNOWN'')"

text \<open>The output operator of notifications; it decodes an address, which may fail.\<close>

definition notification_text :: "env \<Rightarrow> sctp_notification \<Rightarrow> error + string" where
  "notification_text E sn =
     (let type = sn_type sn in
      if type = SCTP_ASSOC_CHANGE then
        Inr (let state = sac_state sn in
          if state = SCTP_COMM_UP then ''SCTP_ASSOC_CHANGE - SCTP_COMM_UP''
          else if state = SCTP_COMM_LOST then ''SCTP_ASSOC_CHANGE - SCTP_COMM_LOST''
          else if state = SCTP_RESTART then ''SCTP_ASSOC_CHANGE - SCTP_RESTART''
          else if state = SCTP_SHUTDOWN_COMP then ''SCTP_ASSOC_CHANGE - SCTP_SHUTDOWN_COMP''
          else if state = SCTP_CANT_STR_ASSOC then ''SCTP_ASSOC_CHANGE - SCTP_CANT_STR_ASSOC''
          else ''SCTP_ASSOC_CHANGE - UNKNOWN'')
      else if type = SCTP_PEER_ADDR_CHANGE then
        (case IPSocket_of_sockaddr E (spc_aaddr sn) of
           Inl e \<Rightarrow> Inl e
         | Inr ip \<Rightarrow> Inr (''SCTP_PEER_ADDR_CHANGE: assoc_id = '' @ show_int (spc_assoc_id sn) @ '', state = '' @
             addr_state_text (spc_state sn) @ '', addr = '' @ IPSocket_text ip))
      else if type = SCTP_REMOTE_ERROR then Inr ''SCTP_REMOTE_ERROR''
      else if type = SCTP_SHUTDOWN_EVENT then Inr ''SCTP_SHUTDOWN_EVENT''
      else if type = SCTP_ADAPTATION_INDICATION then Inr ''SCTP_ADAPTATION_INDICATION''
      else if type = SCTP_PARTIAL_DELIVERY_EVENT then Inr ''SCTP_PARTIAL_DELIVERY_EVENT''
      else if type = SCTP_SENDER_DRY_EVENT then Inr ''SCTP_SENDER_DRY_EVENT''
      else Inr ''UNKNOWN SCTP NOTIFICATION'')"

section \<open>Methods\<close>

definition sctp_configure :: "env \<Rightarrow> FD \<Rightarrow> ('z SocketSctp_scheme, unit) io" where
  "sctp_configure E fd =
     thenE (Socket_configure E fd)
     (thenE (configureNoDelay E fd)
     (thenE (configureReceivingEvents E fd)
     (thenE (configureInitParams E fd 5 5000)
     (thenE (configureRto E fd 1000 1000 5000 ignore_assoc)
     (thenE (configureSack E fd 2 200 ignore_assoc)
     (thenE (configureMaxRetrans E fd 5 ignore_assoc)
     (thenE (configureIPv4AddressMapping E fd)
     (bindE (gets sctp_config) (\<lambda>config.
      thenE (configurePeerAddressParams E fd 10000 3 (cfg_path_mtu config) ignore_assoc)
        (configureMaxSeg E fd (cfg_max_seg config) ignore_assoc))))))))))"

definition checkPorts :: "IPSocket list \<Rightarrow> error + unit" where
  "checkPorts locals =
     (if 1 < length (remdups (map port locals))
      then Inl (Runtime_error ''More than one port supplied for binding - all ports must be the same!'')
      else Inr ())"

definition sctp_bind :: "env \<Rightarrow> FD \<Rightarrow> IPSocket list \<Rightarrow> ('z SocketSctp_scheme, unit) io" where
  "sctp_bind E fd locals =
     thenE (lift_sum (checkPorts locals))
     (bindE (lift_sum (toSockaddrs E locals)) (\<lambda>saddrs.
      bindE (sys E (C_sctp_bindx fd saddrs (length locals))) (\<lambda>r.
      thenE (check E ''Bind'' (failedBind (rv r)))
        (thenE (getLaddrs E fd ignore_assoc) (return ())))))"

definition sctp_ctor :: "env \<Rightarrow> NetworkConfiguration \<Rightarrow> ('z SocketSctp_scheme, unit) io" where
  "sctp_ctor E cfg =
     thenE (Socket_ctor E (cfg_locals cfg) SOCK_SEQPACKET default_protocol AF_UNSPEC False)
       (on_unwind
         (thenE (modify (\<lambda>s. s\<lparr>sctp_peers := [], peers_mtx := 0, sctp_config := cfg\<rparr>))
           (bindE (gets (\<lambda>s. raw_fd (sk_fd s))) (\<lambda>fd.
             thenE (sctp_configure E fd) (sctp_bind E fd (cfg_locals cfg)))))
         (Socket_dtor E))"

text \<open>
  A loop over the \<open>unordered_map\<close>, or its destruction, visits the peers in the order
  \<open>hash_order\<close> gives.
\<close>

definition sctp_entries :: "env \<Rightarrow> 'z SocketSctp_scheme \<Rightarrow> (int \<times> SctpPeer) list" where
  "sctp_entries E s =
     map (\<lambda>k. (k, the (map_of (sctp_peers s) k))) (hash_order E (trace s) (map fst (sctp_peers s)))"

definition sctp_destroy_peers :: "env \<Rightarrow> ('z SocketSctp_scheme, unit) io" where
  "sctp_destroy_peers E =
     bindE (gets (sctp_entries E)) (\<lambda>peers.
     thenE (for_each (\<lambda>p. fd_dtor E (assoc_fd (snd p))) peers)
       (modify (\<lambda>s. s\<lparr>sctp_peers := []\<rparr>)))"

definition sctp_dtor :: "env \<Rightarrow> ('z SocketSctp_scheme, unit) io" where
  "sctp_dtor E = thenE (sctp_destroy_peers E) (Socket_dtor E)"

definition sctp_connect :: "env \<Rightarrow> IPSocket list \<Rightarrow> ('z SocketSctp_scheme, unit) io" where
  "sctp_connect E =
     for_each (\<lambda>remote. bindE (gets (\<lambda>s. raw_fd (sk_fd s))) (\<lambda>fd. Socket_connect_fd E fd remote))"

definition sctp_connectMultihomed :: "env \<Rightarrow> IPSocket list \<Rightarrow> ('z SocketSctp_scheme, unit) io" where
  "sctp_connectMultihomed E remotes =
     (if remotes = [] then return ()
      else bindE (lift_sum (toSockaddrs E remotes)) (\<lambda>saddrs.
        bindE (gets (\<lambda>s. raw_fd (sk_fd s))) (\<lambda>fd.
        bindE (sys E (C_sctp_connectx fd saddrs (length remotes))) (\<lambda>r.
          check E ''Connect'' (failedConnect (rv r) (err r))))))"

text \<open>\<open>resize\<close> beyond \<open>max_size()\<close> throws.\<close>

definition string_max_size :: nat where "string_max_size = 2 ^ 63 - 1"

definition sctp_send_fd :: "env \<Rightarrow> FD \<Rightarrow> string \<Rightarrow> ('z world_scheme, unit) io" where
  "sctp_send_fd E fd p_msg = bindE (sys E (C_send fd p_msg)) (\<lambda>r. check E ''Send'' (failedSend (rv r)))"

definition sctp_sendBigMessage :: "env \<Rightarrow> FD \<Rightarrow> ('z SocketSctp_scheme, unit) io" where
  "sctp_sendBigMessage E fd =
     bindE (gets (\<lambda>s. unat (cfg_big_msg_size (sctp_config s)))) (\<lambda>size.
     if size \<le> string_max_size then sctp_send_fd E fd (replicate size CHR ''x'')
     else throw (Length_error ''basic_string''))"

definition sctp_send :: "env \<Rightarrow> string \<Rightarrow> ('z SocketSctp_scheme, unit) io" where
  "sctp_send E msg =
     with_lock E (bindE (gets (sctp_entries E)) (for_each (\<lambda>p.
       bindE (gets sctp_config) (\<lambda>config.
       if cfg_big_msg_size config \<noteq> 0 then sctp_sendBigMessage E (raw_fd (assoc_fd (snd p)))
       else sctp_send_fd E (raw_fd (assoc_fd (snd p))) msg))))"

definition sctp_selectFds :: "env \<Rightarrow> ('z SocketSctp_scheme, FD list) io" where
  "sctp_selectFds E =
     with_lock E
       (thenE FDSet_reset
       (bindE (gets (\<lambda>s. raw_fd (sk_fd s))) (\<lambda>fd.
        thenE (FDSet_set fd)
        (bindE (gets (sctp_entries E)) (\<lambda>peers.
         thenE (for_each (\<lambda>p. FDSet_set (raw_fd (assoc_fd (snd p)))) peers)
           (FDSet_select E select_timeout))))))"

text \<open>
  \<open>getBuffer\<close> gives a reference: the key of the peer the buffer belongs to, or none for the socket's
  own buffer, and its content. \<open>sctp_setBuffer\<close> writes through it. \<open>find_if\<close> gives \<open>end()\<close> when no
  peer has the descriptor.
\<close>

definition sctp_getBuffer :: "env \<Rightarrow> FD \<Rightarrow> ('z SocketSctp_scheme, int option \<times> string) io" where
  "sctp_getBuffer E fd =
     with_lock E
       (bindE (gets (\<lambda>s. raw_fd (sk_fd s))) (\<lambda>this_fd.
        if fd = this_fd then gets (\<lambda>s. (None, main_msg_buffer s))
        else bindE (gets (sctp_entries E)) (\<lambda>peers.
          case find (\<lambda>p. raw_fd (assoc_fd (snd p)) = fd) peers of
            None \<Rightarrow> throw (Undefined ''end() dereferenced'')
          | Some (k, peer) \<Rightarrow> return (Some k, assoc_msg_buffer peer))))"

definition sctp_setBuffer :: "int option \<Rightarrow> string \<Rightarrow> ('z SocketSctp_scheme, unit) io" where
  "sctp_setBuffer owner b =
     (case owner of
        None \<Rightarrow> modify (\<lambda>s. s\<lparr>main_msg_buffer := b\<rparr>)
      | Some k \<Rightarrow> modify (\<lambda>s. s\<lparr>sctp_peers := map_update k (\<lambda>p. p\<lparr>assoc_msg_buffer := b\<rparr>) (sctp_peers s)\<rparr>))"

definition logPeerInfo :: "env \<Rightarrow> FD \<Rightarrow> int \<Rightarrow> ('z world_scheme, unit) io" where
  "logPeerInfo E fd assoc_id =
     thenE (getsockopt E fd IPPROTO_SCTP SCTP_STATUS)
     (thenE (optInfo E fd SCTP_PEER_ADDR_PARAMS ignore_assoc)
     (thenE (getPaddrs E fd ignore_assoc) (return ())))"

text \<open>
  \<open>peers.emplace\<close>: when the number is there already, the new peer is destroyed with its descriptor.
\<close>

definition sctp_emplace :: "env \<Rightarrow> int \<Rightarrow> FileDescriptor \<Rightarrow> ('z SocketSctp_scheme, unit) io" where
  "sctp_emplace E assoc_id peeled_fd =
     bindE (gets (\<lambda>s. pool_get E (trace s) pool_buffer_size)) (\<lambda>buf.
     bindE (gets (\<lambda>s. assoc_id \<in> fst ` set (sctp_peers s))) (\<lambda>present.
     let (fd', moved) = fd_move peeled_fd in
     thenE
       (if present then fd_dtor E fd'
        else modify (\<lambda>s. s\<lparr>sctp_peers :=
          umap_emplace assoc_id \<lparr>assoc_fd = fd', assoc_msg_buffer = buf\<rparr> (sctp_peers s)\<rparr>))
       (fd_dtor E moved)))"

definition sctp_peelOff :: "env \<Rightarrow> int \<Rightarrow> ('z SocketSctp_scheme, unit) io" where
  "sctp_peelOff E assoc_id =
     with_lock E
       (bindE (gets (\<lambda>s. raw_fd (sk_fd s))) (\<lambda>fd.
        bindE (sys E (C_sctp_peeloff fd assoc_id)) (\<lambda>r.
        bindE (checked E ''Peeloff'' (failedPeeloff (rv r)) (rv r)) (\<lambda>n.
        let peeled_fd = FileDescriptor_ctor n in
        thenE (on_unwind (logPeerInfo E n assoc_id) (fd_dtor E peeled_fd))
          (sctp_emplace E assoc_id peeled_fd)))))"

definition sctp_remove :: "env \<Rightarrow> int \<Rightarrow> ('z SocketSctp_scheme, unit) io" where
  "sctp_remove E assoc_id =
     with_lock E
       (bindE (gets (\<lambda>s. map_of (sctp_peers s) assoc_id)) (\<lambda>p.
        case p of
          None \<Rightarrow> return ()
        | Some peer \<Rightarrow>
            thenE (modify (\<lambda>s. s\<lparr>sctp_peers := map_erase assoc_id (sctp_peers s)\<rparr>))
              (fd_dtor E (assoc_fd peer))))"

definition sctp_handleCommUp :: "env \<Rightarrow> int \<Rightarrow> ('z SocketSctp_scheme, unit) io" where
  "sctp_handleCommUp E assoc_id = sctp_peelOff E assoc_id"

definition sctp_handleEstablishmentFailure :: "env \<Rightarrow> IPSocket \<Rightarrow> ('z SocketSctp_scheme, unit) io" where
  "sctp_handleEstablishmentFailure E remote = scheduleReestablishment E remote"

definition sctp_handleGracefulShutdown :: "env \<Rightarrow> int \<Rightarrow> ('z SocketSctp_scheme, unit) io" where
  "sctp_handleGracefulShutdown E assoc_id = sctp_remove E assoc_id"

definition sctp_handleCommLost :: "env \<Rightarrow> int \<Rightarrow> IPSocket \<Rightarrow> ('z SocketSctp_scheme, unit) io" where
  "sctp_handleCommLost E assoc_id remote = thenE (sctp_remove E assoc_id) (scheduleReestablishment E remote)"

text \<open>\<open>sctp_handle\<close> is the handler of notifications.\<close>

definition sctp_handle :: "env \<Rightarrow> IPSocket \<Rightarrow> sctp_notification \<Rightarrow> ('z SocketSctp_scheme, unit) io" where
  "sctp_handle E from sn =
     thenE (bindE (lift_sum (notification_text E sn)) (\<lambda>_. return ()))
       (if isAssocChange sn then
          (let state = sac_state sn; assoc_id = sac_assoc_id sn in
           if state = SCTP_COMM_UP then sctp_handleCommUp E assoc_id
           else if state = SCTP_CANT_STR_ASSOC then sctp_handleEstablishmentFailure E from
           else if state = SCTP_SHUTDOWN_COMP then sctp_handleGracefulShutdown E assoc_id
           else if state = SCTP_COMM_LOST then sctp_handleCommLost E assoc_id from
           else return ())
        else return ())"

definition sctp_handleMessage :: "env \<Rightarrow> FD \<Rightarrow> ('z SocketSctp_scheme, unit) io" where
  "sctp_handleMessage E fd =
     bindE (sctp_getBuffer E fd) (\<lambda>(owner, msg_buffer).
     bindE (sys E (C_sctp_recvmsg fd (length msg_buffer))) (\<lambda>r.
     thenE (check E ''Receive'' (failedReceive (rv r)))
     (bindE (lift_sum (store_received msg_buffer r)) (\<lambda>b.
     thenE (sctp_setBuffer owner b)
     (if oflags r AND MSG_NOTIFICATION \<noteq> 0
      then bindE (lift_sum (IPSocket_of_sockaddr E (storage r))) (\<lambda>from.
           bindE (lift_sum (notification_of b)) (sctp_handle E from))
      else bindE (lift_sum (IPSocket_of_sockaddr E (storage r))) (\<lambda>_.
           log_received E (if length (c_str b) < 100 then c_str b else ''BIG'')))))))"

definition sctp_receive :: "env \<Rightarrow> ('z SocketSctp_scheme, unit) io" where
  "sctp_receive E = Socket_receive E (sctp_selectFds E) (sctp_handleMessage E)"

definition sctp_ops :: "env \<Rightarrow> ('z SocketSctp_scheme, unit) io set" where
  "sctp_ops E = range (Socket_listen E) \<union> range (sctp_connect E) \<union> range (sctp_connectMultihomed E) \<union>
     range (sctp_send E) \<union> {sctp_receive E}"

section \<open>Invariant\<close>

text \<open>
  Every peer owns a descriptor of its own, different from the others' and from the socket's; the
  descriptors opened and not closed are exactly these.
\<close>

definition assoc_fds :: "(int \<times> SctpPeer) list \<Rightarrow> FD list" where
  "assoc_fds ps = map (\<lambda>p. raw_fd (assoc_fd (snd p))) ps"

definition assoc_ok :: "int \<times> SctpPeer \<Rightarrow> bool" where
  "assoc_ok p \<longleftrightarrow> 0 \<le> raw_fd (assoc_fd (snd p)) \<and> should_close (assoc_fd (snd p))"

definition sctp_shape :: "FD set \<Rightarrow> 'z SocketSctp_scheme \<Rightarrow> bool" where
  "sctp_shape L s \<longleftrightarrow> umap_ok (sctp_peers s) \<and> (\<forall>p\<in>set (sctp_peers s). assoc_ok p) \<and>
     distinct (assoc_fds (sctp_peers s)) \<and>
     (\<exists>n. 0 \<le> n \<and> sk_fd s = FileDescriptor_ctor n \<and> n \<notin> set (assoc_fds (sctp_peers s)) \<and>
        L = insert n (set (assoc_fds (sctp_peers s))))"

definition sctp_inv :: "'z SocketSctp_scheme \<Rightarrow> bool" where
  "sctp_inv s \<longleftrightarrow> (\<exists>L. sctp_shape L s \<and> accounts (trace s) L)"

lemma assoc_ok_owns: "assoc_ok p \<Longrightarrow> owns (assoc_fd (snd p)) = {raw_fd (assoc_fd (snd p))}"
  by (simp add: assoc_ok_def owns_def invalid_fd_def)

lemma sctp_shape_other [simp]:
  "sctp_shape L (s\<lparr>trace := h\<rparr>) = sctp_shape L s" "sctp_shape L (s\<lparr>peers_mtx := k\<rparr>) = sctp_shape L s"
  "sctp_shape L (s\<lparr>fds := F\<rparr>) = sctp_shape L s" "sctp_shape L (s\<lparr>fd_max := m\<rparr>) = sctp_shape L s"
  "sctp_shape L (s\<lparr>selected_fds := l\<rparr>) = sctp_shape L s" "sctp_shape L (s\<lparr>main_msg_buffer := b\<rparr>) = sctp_shape L s"
  by (simp_all add: sctp_shape_def)

lemma sctp_invE:
  assumes "sctp_inv s"
  obtains L where "sctp_shape L s" and "accounts (trace s) L"
  using assms by (auto simp: sctp_inv_def)

lemma sctp_inv_trace: "sctp_shape L s \<Longrightarrow> accounts h L \<Longrightarrow> sctp_inv (s\<lparr>trace := h\<rparr>)"
  by (auto simp: sctp_inv_def)

lemma sctp_inv_other [simp]:
  "sctp_inv (s\<lparr>peers_mtx := k\<rparr>) = sctp_inv s" "sctp_inv (s\<lparr>fds := F\<rparr>) = sctp_inv s"
  "sctp_inv (s\<lparr>fd_max := m\<rparr>) = sctp_inv s" "sctp_inv (s\<lparr>selected_fds := l\<rparr>) = sctp_inv s"
  "sctp_inv (s\<lparr>main_msg_buffer := b\<rparr>) = sctp_inv s"
  by (simp_all add: sctp_inv_def)

lemma keeps_sctp_lock [keeps_intros]: "keeps sctp_inv m \<Longrightarrow> keeps sctp_inv (with_lock E m)"
  by (rule keeps_with_lock) simp_all

lemma keeps_sctp_quiet: "quiet m \<Longrightarrow> keeps sctp_inv m"
  by (rule quiet_keeps) (auto simp: stable_def sctp_inv_def)

lemma keeps_sctp_set [keeps_intros]:
  "keeps sctp_inv FDSet_reset" "keeps sctp_inv (FDSet_set fd)" "keeps sctp_inv (FDSet_select E t)"
  unfolding FDSet_reset_def FDSet_set_def FDSet_select_def FDSet_selectImpl_def
  by (intro keeps_intros keeps_modify keeps_sctp_quiet quiet_intros; simp)+

lemma quiet_sctp [quiet_intros]:
  "quiet (sctp_configure E fd)" "quiet (sctp_bind E fd locals)" "quiet (sctp_send_fd E fd msg)"
  "quiet (sctp_sendBigMessage E fd)" "quiet (logPeerInfo E fd a)"
  unfolding sctp_configure_def sctp_bind_def sctp_send_fd_def sctp_sendBigMessage_def logPeerInfo_def
  by (intro quiet_intros; simp)+

lemma quiet_sctp_connect [quiet_intros]:
  "quiet (sctp_connect E remotes)" "quiet (sctp_connectMultihomed E remotes)"
  unfolding sctp_connect_def sctp_connectMultihomed_def by (intro quiet_intros; simp)+

text \<open>A buffer written does not change what is owned.\<close>

lemma assoc_fds_update: "assoc_fds (map_update k (\<lambda>p. p\<lparr>assoc_msg_buffer := b\<rparr>) m) = assoc_fds m"
  by (simp add: assoc_fds_def map_update_def) (auto split: prod.split)

lemma sctp_shape_update [simp]:
  "sctp_shape L s \<Longrightarrow>
     sctp_shape L (s\<lparr>sctp_peers := map_update k (\<lambda>p. p\<lparr>assoc_msg_buffer := b\<rparr>) (sctp_peers s)\<rparr>)"
  by (auto simp: sctp_shape_def umap_ok_update assoc_fds_update set_map_update assoc_ok_def split: if_splits)

lemma keeps_sctp_setBuffer [keeps_intros]: "keeps sctp_inv (sctp_setBuffer owner b)"
proof (cases owner)
  case None
  then show ?thesis by (auto simp: sctp_setBuffer_def intro: keeps_modify)
next
  case (Some k)
  show ?thesis
    unfolding sctp_setBuffer_def Some option.case
  proof (rule keeps_modify, elim sctp_invE)
    fix s :: "'a SocketSctp_scheme" and L
    assume "sctp_shape L s" and "accounts (trace s) L"
    then show "sctp_inv (s\<lparr>sctp_peers := map_update k (\<lambda>p. p\<lparr>assoc_msg_buffer := b\<rparr>) (sctp_peers s)\<rparr>)"
      unfolding sctp_inv_def by (intro exI [of _ L] conjI sctp_shape_update) simp_all
  qed
qed

section \<open>Associations come and go\<close>

lemma sctp_shape_emplace:
  assumes "sctp_shape L s" and "0 \<le> n" and "n \<notin> L" and "k \<notin> fst ` set (sctp_peers s)"
  shows "sctp_shape (insert n L) (s\<lparr>sctp_peers :=
    umap_emplace k \<lparr>assoc_fd = FileDescriptor_ctor n, assoc_msg_buffer = b\<rparr> (sctp_peers s)\<rparr>)"
  using assms by (auto simp: sctp_shape_def umap_emplace_def umap_ok_def assoc_fds_def assoc_ok_def)

lemma wp_sctp_emplace:
  assumes "sctp_shape L s" and "0 \<le> n" and "n \<notin> L" and "accounts (trace s) (insert n L)"
    and "\<And>b. k \<notin> fst ` set (sctp_peers s) \<Longrightarrow>
      Q () (s\<lparr>sctp_peers := umap_emplace k \<lparr>assoc_fd = FileDescriptor_ctor n, assoc_msg_buffer = b\<rparr> (sctp_peers s)\<rparr>)"
    and "\<And>h. k \<in> fst ` set (sctp_peers s) \<Longrightarrow> accounts h L \<Longrightarrow> Q () (s\<lparr>trace := h\<rparr>)"
  shows "wp (sctp_emplace E k (FileDescriptor_ctor n)) Q R s"
proof (cases "k \<in> fst ` set (sctp_peers s)")
  case True
  have "wp (fd_dtor E (FileDescriptor_ctor n)) (\<lambda>_. Q ()) R s"
    by (rule wp_fd_dtor [OF assms(4)]) (use assms(2,3,6) True in auto)
  then show ?thesis
    using True by (simp add: sctp_emplace_def Let_def split_beta wp_simps)
next
  case False
  then show ?thesis
    using assms(5) by (simp add: sctp_emplace_def Let_def split_beta wp_simps)
qed

text \<open>
  Peeling off: the new descriptor ends up in the map, or, when the association is known already,
  closed; when it fails, nothing is left open.
\<close>

lemma wp_sctp_peeled:
  assumes "descriptors_ok E" and "sctp_shape L s" and "accounts (trace s) L"
    and "\<And>h n b. 0 \<le> n \<Longrightarrow> n \<notin> L \<Longrightarrow> accounts h (insert n L) \<Longrightarrow> k \<notin> fst ` set (sctp_peers s) \<Longrightarrow>
      Q () (s\<lparr>trace := h, sctp_peers :=
        umap_emplace k \<lparr>assoc_fd = FileDescriptor_ctor n, assoc_msg_buffer = b\<rparr> (sctp_peers s)\<rparr>)"
    and "\<And>h. k \<in> fst ` set (sctp_peers s) \<Longrightarrow> accounts h L \<Longrightarrow> Q () (s\<lparr>trace := h\<rparr>)"
    and "\<And>e h. is_exception e \<longrightarrow> accounts h L \<Longrightarrow> R e (s\<lparr>trace := h\<rparr>)"
  shows "wp (bindE (gets (\<lambda>s. raw_fd (sk_fd s))) (\<lambda>fd.
        bindE (sys E (C_sctp_peeloff fd k)) (\<lambda>r.
        bindE (checked E ''Peeloff'' (failedPeeloff (rv r)) (rv r)) (\<lambda>n.
        let peeled_fd = FileDescriptor_ctor n in
        thenE (on_unwind (logPeerInfo E n k) (fd_dtor E peeled_fd))
          (sctp_emplace E k peeled_fd))))) Q R s"
proof -
  let ?c = "C_sctp_peeloff (raw_fd (sk_fd s)) k"
  let ?r = "os E (trace s) ?c"
  let ?h = "(?c, ?r) # trace s"
  have ok: "checks_ok E" and fr: "fresh_fds E" using assms(1) by (auto simp: descriptors_ok_def)
  have fresh: "0 \<le> rv ?r \<Longrightarrow> rv ?r \<notin> L"
    using fr assms(3) by (auto simp: fresh_fds_def accounts_def dest!: spec [of _ "trace s"] spec [of _ ?c])
  have opn: "0 \<le> rv ?r \<Longrightarrow> accounts ?h (insert (rv ?r) L)"
    using assms(3) by (intro accounts_open) auto
  have bad: "rv ?r < 0 \<Longrightarrow> accounts ?h L"
    using assms(3) by (simp add: accounts_def)
  have body: "wp (thenE (on_unwind (logPeerInfo E (rv ?r) k) (fd_dtor E (FileDescriptor_ctor (rv ?r))))
      (sctp_emplace E k (FileDescriptor_ctor (rv ?r)))) Q R (s\<lparr>trace := ?h\<rparr>)" if n: "0 \<le> rv ?r"
  proof -
    have undo: "wp (fd_dtor E (FileDescriptor_ctor (rv ?r))) (\<lambda>_. R e) (\<lambda>_. R Terminate)
        (s\<lparr>trace := t @ ?h\<rparr>)" if "neutral t" for t e
      by (rule wp_fd_dtor [of _ "insert (rv ?r) L"])
        (use that opn fresh n assms(6) in \<open>auto simp: insert_Diff_if\<close>)
    have emp: "wp (sctp_emplace E k (FileDescriptor_ctor (rv ?r))) Q R (s\<lparr>trace := t @ ?h\<rparr>)" if "neutral t" for t
      by (rule wp_sctp_emplace [of L]) (use that opn fresh n assms(2,4,5) in auto)
    show ?thesis
      unfolding wp_thenE wp_on_unwind
      by (rule quiet_wp [OF quiet_sctp(5)]) (use undo emp assms(6) in auto)
  qed
  show ?thesis
    using body bad assms(6)
    by (auto simp: wp_simps checks_ok_eq [OF ok] Let_def failedPeeloff_def)
qed

lemma keeps_sctp_peelOff:
  assumes "descriptors_ok E"
  shows "keeps sctp_inv (sctp_peelOff E k)"
  unfolding sctp_peelOff_def
proof (rule keeps_sctp_lock, rule keepsI, elim sctp_invE)
  fix s :: "'a SocketSctp_scheme" and L
  assume L: "sctp_shape L s" "accounts (trace s) L"
  show "wp (bindE (gets (\<lambda>s. raw_fd (sk_fd s))) (\<lambda>fd.
        bindE (sys E (C_sctp_peeloff fd k)) (\<lambda>r.
        bindE (checked E ''Peeloff'' (failedPeeloff (rv r)) (rv r)) (\<lambda>n.
        let peeled_fd = FileDescriptor_ctor n in
        thenE (on_unwind (logPeerInfo E n k) (fd_dtor E peeled_fd))
          (sctp_emplace E k peeled_fd))))) (\<lambda>_. sctp_inv) (safely sctp_inv) s"
  proof (rule wp_sctp_peeled [OF assms L])
    fix h n b
    assume "0 \<le> n" "n \<notin> L" "accounts h (insert n L)" "k \<notin> fst ` set (sctp_peers s)"
    then show "sctp_inv (s\<lparr>trace := h, sctp_peers :=
        umap_emplace k \<lparr>assoc_fd = FileDescriptor_ctor n, assoc_msg_buffer = b\<rparr> (sctp_peers s)\<rparr>)"
      using sctp_shape_emplace [of L "s\<lparr>trace := h\<rparr>" n k b] L(1) by (auto simp: sctp_inv_def)
  qed (use L(1) in \<open>auto simp: safely_def intro: sctp_inv_trace\<close>)
qed

lemma sctp_shape_erase:
  assumes "sctp_shape L s" and "map_of (sctp_peers s) k = Some peer"
  shows "owns (assoc_fd peer) = {raw_fd (assoc_fd peer)}" and "raw_fd (assoc_fd peer) \<in> L"
    and "sctp_shape (L - {raw_fd (assoc_fd peer)}) (s\<lparr>sctp_peers := map_erase k (sctp_peers s)\<rparr>)"
proof -
  let ?m = "sctp_peers s" and ?g = "\<lambda>p :: int \<times> SctpPeer. raw_fd (assoc_fd (snd p))"
  have sh: "umap_ok ?m" "\<forall>p\<in>set ?m. assoc_ok p" "distinct (map ?g ?m)"
    using assms(1) by (simp_all add: sctp_shape_def assoc_fds_def)
  have m: "(k, peer) \<in> set ?m" using assms(2) by (rule map_of_SomeD)
  then show "owns (assoc_fd peer) = {raw_fd (assoc_fd peer)}" using sh(2) assoc_ok_owns by fastforce
  show in_L: "raw_fd (assoc_fd peer) \<in> L"
    using m assms(1) by (force simp: sctp_shape_def assoc_fds_def)
  have "set (map_erase k ?m) = set ?m - {(k, peer)}"
    using sh(1) m by (auto simp: set_map_erase umap_ok_def dest: eq_key_imp_eq_value)
  then have "set (assoc_fds (map_erase k ?m)) = set (assoc_fds ?m) - {raw_fd (assoc_fd peer)}"
    using inj_on_image_set_diff [of ?g "set ?m" "set ?m" "{(k, peer)}"] sh(3) m
    by (simp add: assoc_fds_def distinct_map)
  moreover have "distinct (assoc_fds (map_erase k ?m))"
    using sh(3) by (simp add: assoc_fds_def map_erase_def distinct_map_filter)
  moreover have "\<forall>p\<in>set (map_erase k ?m). assoc_ok p" using sh(2) by (simp add: set_map_erase)
  moreover have "raw_fd (assoc_fd peer) \<in> set (assoc_fds ?m)" using m by (force simp: assoc_fds_def)
  ultimately show "sctp_shape (L - {raw_fd (assoc_fd peer)}) (s\<lparr>sctp_peers := map_erase k ?m\<rparr>)"
    using assms(1) by (auto simp: sctp_shape_def umap_ok_erase)
qed

lemma keeps_sctp_remove [keeps_intros]: "keeps sctp_inv (sctp_remove E k)"
  unfolding sctp_remove_def
proof (rule keeps_sctp_lock, rule keepsI)
  fix s :: "'a SocketSctp_scheme"
  assume inv: "sctp_inv s"
  then obtain L where L: "sctp_shape L s" "accounts (trace s) L" by (rule sctp_invE)
  show "wp (bindE (gets (\<lambda>s. map_of (sctp_peers s) k)) (\<lambda>p.
        case p of
          None \<Rightarrow> return ()
        | Some peer \<Rightarrow>
            thenE (modify (\<lambda>s. s\<lparr>sctp_peers := map_erase k (sctp_peers s)\<rparr>)) (fd_dtor E (assoc_fd peer))))
      (\<lambda>_. sctp_inv) (safely sctp_inv) s"
  proof (cases "map_of (sctp_peers s) k")
    case None
    then show ?thesis using inv by (simp add: wp_simps)
  next
    case (Some peer)
    note e = sctp_shape_erase [OF L(1) Some]
    have "wp (fd_dtor E (assoc_fd peer)) (\<lambda>_. sctp_inv) (safely sctp_inv)
        (s\<lparr>sctp_peers := map_erase k (sctp_peers s)\<rparr>)"
      by (rule wp_fd_dtor [of _ L]) (use e L(2) sctp_inv_trace [OF e(3)] in auto)
    then show ?thesis using Some by (simp add: wp_simps)
  qed
qed

section \<open>Every operation keeps the invariant\<close>

lemma keeps_sctp_handle: "descriptors_ok E \<Longrightarrow> keeps sctp_inv (sctp_handle E from sn)"
  unfolding sctp_handle_def sctp_handleCommUp_def sctp_handleEstablishmentFailure_def
    sctp_handleGracefulShutdown_def sctp_handleCommLost_def Let_def
  by (intro keeps_intros keeps_sctp_peelOff) (simp_all add: keeps_sctp_quiet quiet_intros)

lemma keeps_sctp_getBuffer [keeps_intros]: "keeps sctp_inv (sctp_getBuffer E fd)"
  unfolding sctp_getBuffer_def
  by (intro keeps_intros) (auto intro!: keeps_intros split: option.split)

lemma keeps_sctp_handleMessage: "descriptors_ok E \<Longrightarrow> keeps sctp_inv (sctp_handleMessage E fd)"
  unfolding sctp_handleMessage_def split_def
  by (intro keeps_intros keeps_sctp_handle) (simp_all add: keeps_sctp_quiet quiet_intros)

lemma keeps_sctp_selectFds [keeps_intros]: "keeps sctp_inv (sctp_selectFds E)"
  unfolding sctp_selectFds_def by (intro keeps_intros)

lemma keeps_sctp_send: "keeps sctp_inv (sctp_send E msg)"
  unfolding sctp_send_def by (intro keeps_intros) (intro keeps_sctp_quiet quiet_intros)+

lemma keeps_sctp_ops: "descriptors_ok E \<Longrightarrow> m \<in> sctp_ops E \<Longrightarrow> keeps sctp_inv m"
proof -
  assume E: "descriptors_ok E"
  have "keeps sctp_inv (sctp_receive E)"
    unfolding sctp_receive_def by (intro keeps_Socket_receive keeps_intros keeps_sctp_handleMessage E)
  then show "m \<in> sctp_ops E \<Longrightarrow> keeps sctp_inv m"
    unfolding sctp_ops_def
    using keeps_sctp_send keeps_sctp_quiet [OF quiet_Socket_listen] keeps_sctp_quiet [OF quiet_sctp_connect(1)]
      keeps_sctp_quiet [OF quiet_sctp_connect(2)]
    by fastforce
qed

section \<open>Construction and destruction\<close>

text \<open>The loop visits every peer once, whatever order the hash table gives.\<close>

lemma mset_sctp_entries:
  assumes "hash_ok E" and "umap_ok (sctp_peers s)"
  shows "mset (sctp_entries E s) = mset (sctp_peers s)"
proof -
  have "mset (sctp_entries E s) =
      image_mset (\<lambda>k. (k, the (map_of (sctp_peers s) k))) (mset (map fst (sctp_peers s)))"
    using assms(1) by (simp add: sctp_entries_def hash_ok_def)
  also have "\<dots> = mset (map (\<lambda>p. (fst p, the (map_of (sctp_peers s) (fst p)))) (sctp_peers s))"
    by (simp add: multiset.map_comp comp_def)
  also have "map (\<lambda>p. (fst p, the (map_of (sctp_peers s) (fst p)))) (sctp_peers s) = sctp_peers s"
    using assms(2) by (auto simp: umap_ok_def intro!: map_idI)
  finally show ?thesis .
qed

lemma wp_destroy_assocs:
  assumes "\<forall>p\<in>set ps. assoc_ok p" and "distinct (assoc_fds ps)" and "accounts (trace s) (set (assoc_fds ps) \<union> L)"
    and "set (assoc_fds ps) \<inter> L = {}" and "\<And>h. accounts h L \<Longrightarrow> Q () (s\<lparr>trace := h\<rparr>)"
  shows "wp (for_each (\<lambda>p. fd_dtor E (assoc_fd (snd p))) ps) Q R s"
  using assms
proof (induction ps arbitrary: s)
  case Nil
  then show ?case using Nil(5) [of "trace s"] by (simp add: wp_simps assoc_fds_def)
next
  case (Cons p ps)
  let ?n = "raw_fd (assoc_fd (snd p))"
  have own: "owns (assoc_fd (snd p)) = {?n}" using Cons.prems(1) by (intro assoc_ok_owns) simp
  have rest: "(set (assoc_fds (p # ps)) \<union> L) - {?n} = set (assoc_fds ps) \<union> L"
    using Cons.prems(2,4) by (auto simp: assoc_fds_def)
  show ?case
    unfolding for_each.simps wp_thenE
  proof (rule wp_fd_dtor [OF Cons.prems(3)])
    fix h
    assume "accounts h (set (assoc_fds (p # ps)) \<union> L - owns (assoc_fd (snd p)))"
    then show "wp (for_each (\<lambda>p. fd_dtor E (assoc_fd (snd p))) ps) Q R (s\<lparr>trace := h\<rparr>)"
      by (intro Cons.IH) (use Cons.prems rest own in \<open>auto simp: assoc_fds_def\<close>)
  qed (use own in \<open>simp add: assoc_fds_def\<close>)
qed

lemma sctp_dtor_closes:
  assumes "hash_ok E" and "sctp_inv s"
  shows "wp (sctp_dtor E) (\<lambda>_ t. accounts (trace t) {}) (\<lambda>e _. \<not> is_exception e) s"
proof -
  obtain L where L: "sctp_shape L s" "accounts (trace s) L" using assms(2) by (rule sctp_invE)
  then obtain n where n: "0 \<le> n" "sk_fd s = FileDescriptor_ctor n" "n \<notin> set (assoc_fds (sctp_peers s))"
      "accounts (trace s) (set (assoc_fds (sctp_peers s)) \<union> {n})"
    by (auto simp: sctp_shape_def)
  have ms: "mset (sctp_entries E s) = mset (sctp_peers s)"
    using L(1) assms(1) by (intro mset_sctp_entries) (simp_all add: sctp_shape_def)
  then have st: "set (sctp_entries E s) = set (sctp_peers s)" by (rule mset_eq_setD)
  then have fd: "set (assoc_fds (sctp_entries E s)) = set (assoc_fds (sctp_peers s))" by (simp add: assoc_fds_def)
  have "mset (assoc_fds (sctp_entries E s)) = mset (assoc_fds (sctp_peers s))" by (simp add: assoc_fds_def ms)
  then have "distinct (assoc_fds (sctp_entries E s))"
    using L(1) mset_eq_imp_distinct_iff by (auto simp: sctp_shape_def)
  then show ?thesis
    unfolding sctp_dtor_def sctp_destroy_peers_def wp_thenE wp_bindE wp_gets wp_modify
    by (intro wp_destroy_assocs [where L = "{n}"] wp_Socket_dtor [of _ "{n}"])
      (use n L(1) st fd in \<open>auto simp: sctp_shape_def\<close>)
qed

lemma wp_sctp_ctor:
  assumes "descriptors_ok E" and "accounts (trace s) {}"
  shows "wp (sctp_ctor E cfg) (\<lambda>_. sctp_inv) (\<lambda>e t. is_exception e \<longrightarrow> accounts (trace t) {}) s"
  unfolding sctp_ctor_def
proof (rule wp_construct [OF assms])
  fix t :: "'a SocketSctp_scheme" and n
  assume t: "0 \<le> n" "sk_fd t = FileDescriptor_ctor n" "accounts (trace t) {n}"
  have q: "quiet (thenE (sctp_configure E n) (sctp_bind E n (cfg_locals cfg)))" by (intro quiet_intros)
  have inv: "sctp_inv (t\<lparr>sctp_peers := [], peers_mtx := 0, sctp_config := cfg, trace := h\<rparr>)" if "accounts h {n}" for h
    using t that by (auto simp: sctp_inv_def sctp_shape_def umap_ok_def assoc_fds_def)
  show "wp (thenE (modify (\<lambda>s. s\<lparr>sctp_peers := [], peers_mtx := 0, sctp_config := cfg\<rparr>))
         (bindE (gets (\<lambda>s. raw_fd (sk_fd s))) (\<lambda>fd.
           thenE (sctp_configure E fd) (sctp_bind E fd (cfg_locals cfg))))) (\<lambda>_. sctp_inv)
       (\<lambda>e u. is_exception e \<longrightarrow> sk_fd u = FileDescriptor_ctor n \<and> accounts (trace u) {n}) t"
    unfolding wp_thenE [of "modify f" for f] wp_modify wp_bindE [of "gets f" for f] wp_gets
    using t inv by (auto intro!: quiet_wp [OF q])
qed

definition sctp_good :: "env \<Rightarrow> bool" where
  "sctp_good E \<longleftrightarrow> descriptors_ok E \<and> hash_ok E"

interpretation sctp: socket_class sctp_good sctp_ctor sctp_ops sctp_dtor trace sctp_inv
proof unfold_locales
  fix E a and s :: "'a SocketSctp_scheme"
  assume "sctp_good E" and "accounts (trace s) {}"
  then show "wp (sctp_ctor E a) (\<lambda>_. sctp_inv) (\<lambda>e t. is_exception e \<longrightarrow> accounts (trace t) {}) s"
    by (intro wp_sctp_ctor) (simp add: sctp_good_def)
next
  fix E and m :: "('a SocketSctp_scheme, unit) io"
  assume "sctp_good E" and "m \<in> sctp_ops E"
  then show "keeps sctp_inv m" by (intro keeps_sctp_ops) (simp_all add: sctp_good_def)
next
  fix E and s :: "'a SocketSctp_scheme"
  assume "sctp_good E" and "sctp_inv s"
  then show "wp (sctp_dtor E) (\<lambda>_ t. accounts (trace t) {}) (\<lambda>e _. \<not> is_exception e) s"
    by (intro sctp_dtor_closes) (simp_all add: sctp_good_def)
qed

section \<open>No operation deadlocks\<close>

lemma live_notification [simp]: "live_sum (notification_of b)" "live_sum (checkPorts locals)"
  by (simp_all add: notification_of_def checkPorts_def Let_def)

lemma live_notification_text: "checks_ok E \<Longrightarrow> live_sum (notification_text E sn)"
  using live_of_sockaddr [of E "spc_aaddr sn"]
  by (auto simp: notification_text_def Let_def live_sum_def split: sum.split)

lemma steady_sctp_locked [steady_intros]:
  "checks_ok E \<Longrightarrow> steady k (sctp_send_fd E fd msg)" "checks_ok E \<Longrightarrow> steady k (sctp_sendBigMessage E fd)"
  "checks_ok E \<Longrightarrow> steady k (logPeerInfo E fd a)" "steady k (sctp_emplace E a d)"
  unfolding sctp_send_fd_def sctp_sendBigMessage_def logPeerInfo_def sctp_emplace_def split_def Let_def
  by (auto intro!: steady_intros steady_modify)

lemma steady_sctp_remove [steady_intros]: "std_mutex E \<Longrightarrow> steady 0 (sctp_remove E a)"
  unfolding sctp_remove_def by (intro steady_with_lock steady_intros steady_modify) simp_all

lemma steady_sctp_peelOff [steady_intros]: "std_mutex E \<Longrightarrow> checks_ok E \<Longrightarrow> steady 0 (sctp_peelOff E a)"
  unfolding sctp_peelOff_def Let_def by (intro steady_with_lock steady_intros)

lemma steady_sctp_getBuffer [steady_intros]: "std_mutex E \<Longrightarrow> steady 0 (sctp_getBuffer E fd)"
  unfolding sctp_getBuffer_def
  by (intro steady_with_lock steady_intros) (auto intro!: steady_intros split: option.split)

lemma steady_sctp_setBuffer [steady_intros]: "steady k (sctp_setBuffer owner b)"
  unfolding sctp_setBuffer_def by (intro steady_intros steady_modify) simp_all

lemma steady_sctp_handle: "std_mutex E \<Longrightarrow> checks_ok E \<Longrightarrow> steady 0 (sctp_handle E from sn)"
  unfolding sctp_handle_def sctp_handleCommUp_def sctp_handleEstablishmentFailure_def
    sctp_handleGracefulShutdown_def sctp_handleCommLost_def Let_def
  by (intro steady_intros steady_lift_sum live_notification_text)

lemma steady_sctp_handleMessage:
  "std_mutex E \<Longrightarrow> checks_ok E \<Longrightarrow> steady 0 (sctp_handleMessage E fd)"
  unfolding sctp_handleMessage_def split_def
  by (intro steady_intros steady_lift_sum live_store_received live_of_sockaddr live_notification
      steady_sctp_handle)

text \<open>
  C37. An SCTP socket never deadlocks on its mutex, and never leaves it locked: whatever the kernel
  does, every operation that starts with the mutex free ends with it free, by a return or an
  exception, or in undefined behaviour or termination for another reason.
\<close>

theorem sctp_never_deadlocks:
  assumes "std_mutex E" and "checks_ok E" and "join_ok E" and "m \<in> sctp_ops E" and "peers_mtx s = 0"
  shows "wp m (\<lambda>_ t. peers_mtx t = 0) (\<lambda>e t. e \<noteq> Deadlock \<and> (is_exception e \<longrightarrow> peers_mtx t = 0)) s"
proof -
  have "steady 0 (sctp_receive E)"
    unfolding sctp_receive_def sctp_selectFds_def
    using assms(1-3) by (intro steady_Socket_receive steady_with_lock steady_intros steady_sctp_handleMessage)
  moreover have "steady 0 (sctp_connectMultihomed E remotes)" "steady 0 (sctp_connect E remotes)"
      "steady 0 (Socket_listen E n)" for remotes n
    unfolding sctp_connectMultihomed_def sctp_connect_def
    using assms(2) by (intro steady_intros steady_lift_sum live_toSockaddrs; simp)+
  moreover have "steady 0 (sctp_send E msg)" for msg
    unfolding sctp_send_def using assms(1,2) by (intro steady_with_lock steady_intros)
  ultimately have "steady 0 m" using assms(4) by (auto simp: sctp_ops_def)
  then show ?thesis using assms(5) by (rule steadyD)
qed

section \<open>The set of associations\<close>

text \<open>
  What a notification means for the set of associations: one that comes up joins it, one that is shut
  down or lost leaves it, all else changes nothing.
\<close>

definition sctp_assocs :: "'z SocketSctp_scheme \<Rightarrow> int set" where
  "sctp_assocs s = fst ` set (sctp_peers s)"

definition assocs_after :: "sctp_notification \<Rightarrow> int set \<Rightarrow> int set" where
  "assocs_after sn K =
     (if sn_type sn \<noteq> SCTP_ASSOC_CHANGE then K
      else if sac_state sn = SCTP_COMM_UP then insert (sac_assoc_id sn) K
      else if sac_state sn \<in> {SCTP_SHUTDOWN_COMP, SCTP_COMM_LOST} then K - {sac_assoc_id sn}
      else K)"

lemma sctp_assocs_simps [simp]:
  "sctp_assocs (s\<lparr>trace := h\<rparr>) = sctp_assocs s" "sctp_assocs (s\<lparr>peers_mtx := n\<rparr>) = sctp_assocs s"
  "sctp_assocs (s\<lparr>sctp_peers := umap_emplace k p (sctp_peers s)\<rparr>) = insert k (sctp_assocs s)"
  "sctp_assocs (s\<lparr>sctp_peers := map_erase k (sctp_peers s)\<rparr>) = sctp_assocs s - {k}"
  by (auto simp: sctp_assocs_def umap_emplace_def keys_map_erase)

lemma sctp_known_iff: "k \<in> sctp_assocs s \<longleftrightarrow> map_of (sctp_peers s) k \<noteq> None"
  by (simp add: sctp_assocs_def map_of_eq_None_iff)

text \<open>Forgetting an association closes its descriptor, and nothing else happens.\<close>

lemma wp_sctp_remove:
  assumes "std_mutex E" and "peers_mtx s = 0" and "sctp_inv s"
    and "\<And>h. map fst h = (case map_of (sctp_peers s) k of None \<Rightarrow> [] | Some p \<Rightarrow> [C_close (raw_fd (assoc_fd p))]) @
        map fst (trace s) \<Longrightarrow> Q () (s\<lparr>sctp_peers := map_erase k (sctp_peers s), trace := h\<rparr>)"
  shows "wp (sctp_remove E k) Q R s"
proof (cases "map_of (sctp_peers s) k")
  case None
  then have "map_erase k (sctp_peers s) = sctp_peers s"
    by (intro map_erase_absent) (simp add: map_of_eq_None_iff)
  then show ?thesis
    using None assms(4) [of "trace s"] assms(2)
    by (cases s) (simp add: sctp_remove_def wp_with_lock_free [OF assms(1)] wp_simps)
next
  case (Some p)
  obtain L where L: "sctp_shape L s" using assms(3) by (rule sctp_invE)
  then have "assoc_ok (k, p)" using map_of_SomeD [OF Some] by (auto simp: sctp_shape_def)
  then show ?thesis
    using Some assms(2) assms(4) [of "(C_close (raw_fd (assoc_fd p)), r) # trace s" for r]
    by (cases s) (simp add: sctp_remove_def wp_with_lock_free [OF assms(1)] wp_simps fd_dtor_def fd_close_def
        assoc_ok_def invalid_fd_def)
qed

lemma wp_sctp_peelOff:
  assumes "descriptors_ok E" and "std_mutex E" and "peers_mtx s = 0" and "sctp_inv s"
  shows "wp (sctp_peelOff E k) (\<lambda>_ t. sctp_assocs t = insert k (sctp_assocs s))
    (\<lambda>e t. is_exception e \<longrightarrow> sctp_assocs t = sctp_assocs s) s"
proof -
  obtain L where L: "sctp_shape L s" "accounts (trace s) L" using assms(4) by (rule sctp_invE)
  show ?thesis
    unfolding sctp_peelOff_def wp_with_lock_free [OF assms(2,3)]
    by (rule wp_sctp_peeled [OF assms(1), of L]) (use L in \<open>auto simp: insert_absorb sctp_assocs_def umap_emplace_def\<close>)
qed

lemma wp_sctp_handle_text:
  "wp (bindE (lift_sum (notification_text E sn)) (\<lambda>_. return ())) Q R s =
     (case notification_text E sn of Inl e \<Rightarrow> R e s | Inr _ \<Rightarrow> Q () s)"
  by (simp add: wp_simps split: sum.split)

text \<open>An object for the examples: the association 5 has been peeled off to the descriptor 4.\<close>

definition demo_sctp :: SocketSctp where
  "demo_sctp = \<lparr>trace = [(C_sctp_peeloff 3 5, reply 4), (C_socket AF_INET SOCK_SEQPACKET 0, reply 3)],
     fds = {}, fd_max = 1, selected_fds = [], sk_fd = FileDescriptor_ctor 3, sk_family = AF_INET,
     sk_type = SOCK_SEQPACKET, main_msg_buffer = ''previous'', peers_mtx = 0,
     sctp_peers = [(5, \<lparr>assoc_fd = FileDescriptor_ctor 4, assoc_msg_buffer = []\<rparr>)],
     sctp_config = \<lparr>cfg_locals = [demo_addr], cfg_remotes = [], cfg_protocol = SCTP, cfg_path_mtu = 0,
       cfg_max_seg = 0, cfg_big_msg_size = 0\<rparr>\<rparr>"

definition demo_sn :: "16 word \<Rightarrow> sctp_notification" where
  "demo_sn state = \<lparr>sn_type = SCTP_ASSOC_CHANGE, sac_state = state, sac_assoc_id = 5, spc_aaddr = [],
     spc_state = 0, spc_assoc_id = 0\<rparr>"

lemma demo_sctp_sel [simp]:
  "raw_fd (sk_fd demo_sctp) = 3" "peers_mtx demo_sctp = 0" "sctp_assocs demo_sctp = {5}"
  "sctp_peers demo_sctp = [(5, \<lparr>assoc_fd = FileDescriptor_ctor 4, assoc_msg_buffer = []\<rparr>)]"
  "trace demo_sctp = [(C_sctp_peeloff 3 5, reply 4), (C_socket AF_INET SOCK_SEQPACKET 0, reply 3)]"
  "cfg_big_msg_size (sctp_config demo_sctp) = 0"
  by (simp_all add: demo_sctp_def sctp_assocs_def)

lemma demo_sctp_inv [simp]: "sctp_inv demo_sctp"
  unfolding sctp_inv_def
  by (rule exI [of _ "{3, 4}"])
    (auto simp: sctp_shape_def umap_ok_def assoc_fds_def assoc_ok_def accounts_def demo_sctp_def intro!: exI [of _ 3])

lemma demo_sn_sel [simp]:
  "sn_type (demo_sn state) = SCTP_ASSOC_CHANGE" "sac_state (demo_sn state) = state" "sac_assoc_id (demo_sn state) = 5"
  by (simp_all add: demo_sn_def)

text \<open>
  C34. The map of peers of an SCTP socket implements the set of associations: handling any
  notification refines the step \<open>assocs_after\<close> of that set and keeps the invariant that ties the
  descriptors to it; when it throws, the set is as it was.
\<close>

theorem sctp_notification_refines:
  assumes "descriptors_ok E" and "std_mutex E" and "sctp_inv s" and "peers_mtx s = 0"
  shows "wp (sctp_handle E from sn)
    (\<lambda>_ t. sctp_inv t \<and> sctp_assocs t = assocs_after sn (sctp_assocs s))
    (\<lambda>e t. is_exception e \<longrightarrow> sctp_inv t \<and> sctp_assocs t = sctp_assocs s) s"
proof -
  let ?Q = "\<lambda>_ t. sctp_assocs t = assocs_after sn (sctp_assocs s)"
  let ?R = "\<lambda>e t. is_exception e \<longrightarrow> sctp_assocs t = sctp_assocs s"
  have "wp (sctp_handle E from sn) ?Q ?R s"
  proof (cases "sn_type sn = SCTP_ASSOC_CHANGE")
    case False
    then show ?thesis
      by (simp add: sctp_handle_def wp_thenE wp_sctp_handle_text isAssocChange_def wp_return assocs_after_def
          split: sum.split)
  next
    case True
    have no_fail: "\<exists>w. notification_text E sn = Inr w" using True by (simp add: notification_text_def Let_def)
    have step: "wp (sctp_handle E from sn) ?Q ?R s \<longleftrightarrow>
        wp (if sac_state sn = SCTP_COMM_UP then sctp_peelOff E (sac_assoc_id sn)
           else if sac_state sn = SCTP_CANT_STR_ASSOC then scheduleReestablishment E from
           else if sac_state sn = SCTP_SHUTDOWN_COMP then sctp_remove E (sac_assoc_id sn)
           else if sac_state sn = SCTP_COMM_LOST
           then thenE (sctp_remove E (sac_assoc_id sn)) (scheduleReestablishment E from)
           else return ()) ?Q ?R s"
      using no_fail True by (auto simp: sctp_handle_def wp_thenE [of "bindE m f" for m f] wp_sctp_handle_text isAssocChange_def Let_def
          sctp_handleCommUp_def sctp_handleEstablishmentFailure_def sctp_handleGracefulShutdown_def
          sctp_handleCommLost_def)
    have lost: "wp (sctp_remove E (sac_assoc_id sn)) (\<lambda>_ t. sctp_assocs t = sctp_assocs s - {sac_assoc_id sn}) ?R s"
      by (rule wp_sctp_remove [OF assms(2,4,3)]) simp
    have again: "wp (scheduleReestablishment E from) (\<lambda>_ t. sctp_assocs t = K) R' = (\<lambda>u. sctp_assocs u = K)" for K R'
      by (simp add: fun_eq_iff scheduleReestablishment_def wp_simps)
    show ?thesis
      unfolding step
      using wp_sctp_peelOff [OF assms(1,2,4,3), of "sac_assoc_id sn"] lost True
      by (simp add: assocs_after_def again wp_thenE wp_return notification_defs)
  qed
  moreover have "wp (sctp_handle E from sn) (\<lambda>_. sctp_inv) (safely sctp_inv) s"
    by (rule keepsD [OF keeps_sctp_handle [OF assms(1)] assms(3)])
  ultimately show ?thesis
    by (rule wp_mono [OF wp_conj]) (auto simp: safely_def)
qed

theorem sctp_notification_refines_witness:
  "wp (sctp_handle (demo_env 1 [] demo_from) demo_addr (demo_sn SCTP_SHUTDOWN_COMP)) (\<lambda>_ t. sctp_assocs t = {})
     (\<lambda>e t. is_exception e \<longrightarrow> sctp_assocs t = {5}) demo_sctp"
  by (rule wp_mono [OF sctp_notification_refines [of "demo_env 1 [] demo_from" demo_sctp]])
    (auto simp: assocs_after_def notification_defs)

text \<open>
  C36. When an association is lost, its descriptor is closed and one reconnection to the sender of the
  notification is scheduled, five seconds later; when it could not be established, just the latter. The
  lost one is forgotten. Nothing else is asked of the system.
\<close>

theorem sctp_reestablishes:
  assumes "std_mutex E" and "sctp_inv s" and "peers_mtx s = 0"
    and "sn_type sn = SCTP_ASSOC_CHANGE" and "sac_state sn \<in> {SCTP_COMM_LOST, SCTP_CANT_STR_ASSOC}"
  shows "wp (sctp_handle E from sn)
    (\<lambda>_ t. map fst (trace t) = C_schedule (T_connect from) 5000 None #
        (case map_of (sctp_peers s) (sac_assoc_id sn) of
           Some p \<Rightarrow> if sac_state sn = SCTP_COMM_LOST then [C_close (raw_fd (assoc_fd p))] else []
         | None \<Rightarrow> []) @ map fst (trace s) \<and>
      (sac_state sn = SCTP_COMM_LOST \<longrightarrow> sac_assoc_id sn \<notin> sctp_assocs t)) (\<lambda>_ _. False) s"
proof -
  have no_fail: "\<exists>w. notification_text E sn = Inr w" using assms(4) by (simp add: notification_text_def Let_def)
  have lost: "wp (sctp_remove E (sac_assoc_id sn)) (\<lambda>_ t. map fst (trace t) =
      (case map_of (sctp_peers s) (sac_assoc_id sn) of None \<Rightarrow> [] | Some p \<Rightarrow> [C_close (raw_fd (assoc_fd p))]) @
        map fst (trace s) \<and> sac_assoc_id sn \<notin> sctp_assocs t) (\<lambda>_ _. False) s"
    by (rule wp_sctp_remove [OF assms(1,3,2)]) simp
  show ?thesis
  proof (cases "sac_state sn = SCTP_COMM_LOST")
    case True
    show ?thesis
      using no_fail True assms(4)
      by (auto simp: sctp_handle_def wp_thenE wp_sctp_handle_text isAssocChange_def Let_def sctp_handleCommLost_def
          scheduleReestablishment_def wp_simps reestablish_delay_def notification_defs
          intro!: wp_mono [OF lost] split: option.split)
  next
    case False
    then show ?thesis
      using no_fail assms(4,5)
      by (auto simp: sctp_handle_def wp_thenE wp_sctp_handle_text isAssocChange_def Let_def
          sctp_handleEstablishmentFailure_def scheduleReestablishment_def wp_simps reestablish_delay_def
          notification_defs split: option.split)
  qed
qed

theorem sctp_reestablishes_witness:
  "wp (sctp_handle (demo_env 1 [] demo_from) demo_addr (demo_sn SCTP_COMM_LOST))
     (\<lambda>_ t. sctp_assocs t \<subseteq> - {5} \<and> C_close 4 \<in> set (map fst (trace t)) \<and>
       C_schedule (T_connect demo_addr) 5000 None \<in> set (map fst (trace t))) (\<lambda>_ _. False) demo_sctp"
  by (rule wp_mono [OF sctp_reestablishes [of "demo_env 1 [] demo_from" demo_sctp "demo_sn SCTP_COMM_LOST"]])
    (auto simp del: set_map)

theorem sctp_never_deadlocks_witness:
  "wp (sctp_receive (demo_env 200 ''hi'' demo_from)) (\<lambda>_ t. peers_mtx t = 0)
     (\<lambda>e t. e \<noteq> Deadlock \<and> (is_exception e \<longrightarrow> peers_mtx t = 0)) demo_sctp"
  by (rule sctp_never_deadlocks [of "demo_env 200 ''hi'' demo_from"]) (simp_all add: sctp_ops_def)

section \<open>What sending does\<close>

abbreviation sctp_send_each :: "env \<Rightarrow> string \<Rightarrow> int \<times> SctpPeer \<Rightarrow> ('z SocketSctp_scheme, unit) io" where
  "sctp_send_each E msg p \<equiv> bindE (gets sctp_config) (\<lambda>config.
     if cfg_big_msg_size config \<noteq> 0 then sctp_sendBigMessage E (raw_fd (assoc_fd (snd p)))
     else sctp_send_fd E (raw_fd (assoc_fd (snd p))) msg)"

lemma script_sctp_sends:
  assumes "unat (cfg_big_msg_size (sctp_config s)) \<le> string_max_size"
  shows "script s {map (\<lambda>p. C_send (raw_fd (assoc_fd (snd p)))
      (if cfg_big_msg_size (sctp_config s) \<noteq> 0 then replicate (unat (cfg_big_msg_size (sctp_config s))) CHR ''x'' else msg)) ps}
    (for_each (sctp_send_each E msg) ps)"
proof (rule script_for_each)
  have one: "script s {[C_send fd m]} (sctp_send_fd E fd m)" for fd m
    unfolding sctp_send_fd_def by (intro script_intros)
  show "script s {[C_send (raw_fd (assoc_fd (snd p)))
      (if cfg_big_msg_size (sctp_config s) \<noteq> 0 then replicate (unat (cfg_big_msg_size (sctp_config s))) CHR ''x'' else msg)]}
    (sctp_send_each E msg p)" for p
    using assms one by (auto simp: sctp_sendBigMessage_def intro!: script_bind_gets)
qed

lemma grows_sctp_sends: "grows (for_each (sctp_send_each E msg) ps)"
  unfolding sctp_sendBigMessage_def sctp_send_fd_def by (intro grows_intros)

text \<open>
  C38. \<open>send\<close> on an SCTP socket offers the message, or the big message of the configured size in its
  place, to every association exactly once, in whatever order the hash table is visited; at the first
  failure it stops, having offered it to some of them, each at most once. The mutex is free afterwards.
\<close>

theorem sctp_send_reaches_every_association:
  fixes E s msg
  defines "big \<equiv> unat (cfg_big_msg_size (sctp_config s))"
  defines "offer \<equiv> \<lambda>p. C_send (raw_fd (assoc_fd (snd p))) (if big \<noteq> 0 then replicate big CHR ''x'' else msg)"
  assumes "std_mutex E" and "checks_ok E" and "hash_ok E" and "sctp_inv s" and "peers_mtx s = 0"
    and "big \<le> string_max_size"
  shows "wp (sctp_send E msg)
    (\<lambda>_ t. peers_mtx t = 0 \<and> (\<exists>u. trace t = u @ trace s \<and> mset (map fst u) = mset (map offer (sctp_peers s))))
    (\<lambda>e t. is_exception e \<longrightarrow> peers_mtx t = 0 \<and>
       (\<exists>u. trace t = u @ trace s \<and> mset (map fst u) \<subseteq># mset (map offer (sctp_peers s)))) s"
proof -
  let ?s = "s\<lparr>peers_mtx := 1\<rparr>"
  let ?ps = "sctp_entries E ?s"
  obtain L where "sctp_shape L s" using assms(6) by (rule sctp_invE)
  then have ms: "mset ?ps = mset (sctp_peers s)"
    using mset_sctp_entries [OF assms(5), of ?s] by (simp add: sctp_shape_def)
  have offer: "(\<lambda>p. C_send (raw_fd (assoc_fd (snd p)))
      (if cfg_big_msg_size (sctp_config ?s) \<noteq> 0 then replicate (unat (cfg_big_msg_size (sctp_config ?s))) CHR ''x'' else msg)) = offer"
    by (simp add: offer_def big_def unat_eq_0)
  have all: "mset (map offer ?ps) = mset (map offer (sctp_peers s))" by (simp only: mset_map ms)
  have sub: "mset (take n (map offer ?ps)) \<subseteq># mset (map offer (sctp_peers s))" for n
    by (metis all append_take_drop_id mset_append mset_subset_eq_add_left)
  have "unat (cfg_big_msg_size (sctp_config ?s)) \<le> string_max_size" using assms(8) by (simp add: big_def)
  note calls = script_added [OF script_sctp_sends [OF this, where ps = ?ps and msg = msg and E = E, unfolded offer] grows_sctp_sends]
  show ?thesis
    unfolding sctp_send_def wp_with_lock_free [OF assms(3,7)] wp_bindE wp_gets
    by (rule wp_mono [OF calls]) (use sub all in \<open>auto simp del: mset_map\<close>)
qed

theorem sctp_send_reaches_every_association_witness:
  "wp (sctp_send (demo_env 1 [] demo_from) ''hello'')
     (\<lambda>_ t. \<exists>u. trace t = u @ trace demo_sctp \<and> mset (map fst u) = {#C_send 4 ''hello''#})
     (\<lambda>_ _. True) demo_sctp"
  by (rule wp_mono [OF sctp_send_reaches_every_association [of "demo_env 1 [] demo_from" demo_sctp "''hello''"]])
    (auto simp: string_max_size_def)

text \<open>
  A negative number given for the size of the big message is a size near \<open>2 ^ 64\<close>: the
  configuration is accepted, and every later \<open>send\<close> to an association fails with a
  \<open>length_error\<close> before anything is sent.
\<close>

theorem negative_big_message_fails_every_send:
  assumes "stoi a = Inr n" and "n < 0" and "std_mutex E" and "checks_ok E" and "hash_ok E" and "umap_ok (sctp_peers s)"
    and "peers_mtx s = 0" and "sctp_peers s \<noteq> []"
    and "NetworkConfiguration_ctor E uninit [prog, ''-msg'', a] = Inr (sctp_config s)"
  shows "wp (sctp_send E msg) (\<lambda>_ _. False)
    (\<lambda>e t. e = Length_error ''basic_string'' \<and> trace t = trace s) s"
proof -
  have n: "- (2 ^ 31) \<le> n" using assms(1) by (auto simp: stoi_def Let_def split: prod.splits if_splits)
  have "sctp_config s = \<lparr>cfg_locals = [], cfg_remotes = [], cfg_protocol = uninit, cfg_path_mtu = 0,
      cfg_max_seg = 0, cfg_big_msg_size = word_of_int n\<rparr>"
    using assms(9) by (simp add: NetworkConfiguration_ctor_def parse_from_list assms(1))
  then have "cfg_big_msg_size (sctp_config s) = word_of_int n" by simp
  then have "uint (cfg_big_msg_size (sctp_config s)) = n mod 2 ^ 64" by (simp add: uint_word_of_int)
  also have "\<dots> = (n + 2 ^ 64) mod 2 ^ 64" by simp
  also have "\<dots> = n + 2 ^ 64" using n assms(2) by (intro mod_pos_pos_trivial) auto
  finally have "2 ^ 63 \<le> uint (cfg_big_msg_size (sctp_config s))" using n by simp
  then have "int (2 ^ 63) \<le> int (unat (cfg_big_msg_size (sctp_config s)))" by simp
  then have big: "2 ^ 63 \<le> unat (cfg_big_msg_size (sctp_config s))" by (simp only: zle_int)
  then have "\<not> unat (cfg_big_msg_size (sctp_config s)) \<le> string_max_size" and "cfg_big_msg_size (sctp_config s) \<noteq> 0"
    by (auto simp: string_max_size_def)
  moreover obtain p ps where "sctp_entries E (s\<lparr>peers_mtx := 1\<rparr>) = p # ps"
  proof (cases "sctp_entries E (s\<lparr>peers_mtx := 1\<rparr>)")
    case Nil
    then show ?thesis using mset_sctp_entries [of E "s\<lparr>peers_mtx := 1\<rparr>"] assms(5,6,8) by simp
  qed
  ultimately show ?thesis
    by (simp add: sctp_send_def wp_with_lock_free [OF assms(3,7)] wp_simps sctp_sendBigMessage_def)
qed

theorem negative_big_message_fails_every_send_witness:
  "wp (sctp_send (demo_env 1 [] demo_from) ''hello'') (\<lambda>_ _. False)
     (\<lambda>e t. e = Length_error ''basic_string'' \<and> trace t = trace demo_sctp)
     (demo_sctp\<lparr>sctp_config := \<lparr>cfg_locals = [], cfg_remotes = [], cfg_protocol = SCTP, cfg_path_mtu = 0,
       cfg_max_seg = 0, cfg_big_msg_size = -1\<rparr>\<rparr>)"
proof -
  let ?s = "demo_sctp\<lparr>sctp_config := \<lparr>cfg_locals = [], cfg_remotes = [], cfg_protocol = SCTP, cfg_path_mtu = 0,
       cfg_max_seg = 0, cfg_big_msg_size = -1\<rparr>\<rparr>"
  have a: "stoi ''-1'' = Inr (-1)" by code_simp
  have "NetworkConfiguration_ctor (demo_env 1 [] demo_from) SCTP [''prog'', ''-msg'', ''-1''] = Inr (sctp_config ?s)"
    by (simp add: NetworkConfiguration_ctor_def parse_from_list a)
  from negative_big_message_fails_every_send [OF a _ _ _ _ _ _ _ this, of "''hello''"]
  show ?thesis by (simp add: umap_ok_def)
qed

end
