(* ===== verification/Growth.thy ===== *)
theory Growth
  imports SocketDccp SocketUdp SocketUnix ForkedDescriptors SocketSctp
begin

text \<open>
  No operation of a socket takes back a call it made, and none touches the mailbox the threads share: every
  operation of every class only adds to the history, calls other than \<open>C_chat\<close>. The first, with a clock that
  advances with the calls, lets a network task come to its end; the second leaves all access to the mailbox to
  the task's own loop.
\<close>

section \<open>Rules\<close>

abbreviation mute :: "('z world_scheme, 'a) io \<Rightarrow> bool" where
  "mute \<equiv> only (\<lambda>c. \<forall>w. c \<noteq> C_chat w)"

lemma only_grows: "only P m \<Longrightarrow> grows m"
  unfolding only_def by (rule growsI) blast

lemma only_mono: "only P m \<Longrightarrow> (\<And>c. P c \<Longrightarrow> Q c) \<Longrightarrow> only Q m"
  unfolding only_def by metis

lemma only_catch_runtime [only_intros]:
  assumes "only P m" and "\<And>w. only P (h w)"
  shows "only P (catch_runtime m h)"
  unfolding only_def
proof
  fix s :: "'a world_scheme"
  obtain r t where r: "m s = (r, t)" by force
  obtain u where u: "trace t = u @ trace s" "\<forall>e\<in>set u. P (fst e)"
    using assms(1) [unfolded only_def, rule_format, of s] r by auto
  have "\<exists>v. trace (snd (h w t)) = v @ trace s \<and> (\<forall>e\<in>set v. P (fst e))" for w
  proof -
    obtain v where "trace (snd (h w t)) = v @ trace t" "\<forall>e\<in>set v. P (fst e)"
      using assms(2) unfolding only_def by blast
    then show ?thesis using u by (intro exI [of _ "v @ u"]) auto
  qed
  then show "\<exists>u. trace (snd (catch_runtime m h s)) = u @ trace s \<and> (\<forall>e\<in>set u. P (fst e))"
    using r u by (auto simp: catch_runtime_def split: sum.split error.split)
qed

lemma only_no_throw [only_intros]: "only P m \<Longrightarrow> only P (no_throw m)"
proof -
  have "snd (no_throw m s) = snd (m s)" for s by (simp add: no_throw_def split: sum.split prod.split)
  then show "only P m \<Longrightarrow> only P (no_throw m)" by (simp add: only_def)
qed

text \<open>A list of tasks is one task after the other, with their exceptions put aside.\<close>

lemma run_tasks_Cons_trace:
  "\<exists>e. snd (run_tasks h (x # xs) s) = snd (h x s) \<or>
    snd (run_tasks h (x # xs) s) = snd (bindE (run_tasks h xs) (\<lambda>es. return (e # es)) (snd (h x s)))"
  by (auto split: sum.split prod.split)

lemma only_run_tasks [only_intros]:
  assumes "\<And>x. only P (h x)"
  shows "only P (run_tasks h xs)"
proof (induction xs)
  case Nil
  then show ?case by (simp add: only_intros)
next
  case (Cons x xs)
  have rest: "only P (bindE (run_tasks h xs) (\<lambda>es. return (e # es)))" for e
    by (intro only_intros Cons)
  show ?case
    unfolding only_def
  proof
    fix s :: "'b world_scheme"
    obtain u where u: "trace (snd (h x s)) = u @ trace s" "\<forall>e\<in>set u. P (fst e)"
      using assms unfolding only_def by blast
    have "\<exists>v. trace (snd (bindE (run_tasks h xs) (\<lambda>es. return (e # es)) (snd (h x s)))) = v @ trace s \<and>
        (\<forall>e\<in>set v. P (fst e))" for e
    proof -
      obtain v where "trace (snd (bindE (run_tasks h xs) (\<lambda>es. return (e # es)) (snd (h x s)))) = v @ trace (snd (h x s))"
          "\<forall>e\<in>set v. P (fst e)"
        using rest unfolding only_def by blast
      then show ?thesis using u by (intro exI [of _ "v @ u"]) auto
    qed
    then show "\<exists>u. trace (snd (run_tasks h (x # xs) s)) = u @ trace s \<and> (\<forall>e\<in>set u. P (fst e))"
      using run_tasks_Cons_trace [of h x xs s] u by metis
  qed
qed

lemma only_rules [only_intros]:
  "only P m \<Longrightarrow> (\<And>x. only P (f x)) \<Longrightarrow> only P (case p of None \<Rightarrow> m | Some x \<Rightarrow> f x)"
  "(\<And>a b. only P (g a b)) \<Longrightarrow> only P (case q of (a, b) \<Rightarrow> g a b)"
  "only P m' \<Longrightarrow> (\<And>x ys. only P (k x ys)) \<Longrightarrow> only P (case xs of [] \<Rightarrow> m' | x # ys \<Rightarrow> k x ys)"
  by (simp_all split: option.split prod.split list.split)

lemma only_with_lock [only_intros]: "only P m \<Longrightarrow> only P (with_lock E m)"
  unfolding with_lock_def lock_peers_def unlock_peers_def by (intro only_intros only_modify; simp)

lemma mute_closing [only_intros]:
  "mute (fd_close E d)" "mute (fd_dtor E d)" "mute (fd_move_assign E same d d')" "mute (destroy_fds E ds)" "mute (Socket_dtor E)"
  unfolding Socket_dtor_def by (intro only_close only_intros only_modify; simp)+

section \<open>The base class\<close>

lemma mute_options [only_intros]:
  "mute (SETSOCKOPT E fd l n v)" "mute (optInfo E fd n a)" "mute (getsockopt E fd l n)" "mute (configureNonBlockingMode E fd)"
  unfolding SETSOCKOPT_def optInfo_def getsockopt_def configureNonBlockingMode_def by (intro only_intros; simp)+

lemmas configure_defs = configureNoDelay_def configureReuseAddr_def configureReceivingEvents_def
  configureInitParams_def configureRto_def configureSack_def configureMaxRetrans_def configureDscp_def
  configureIPv4AddressMapping_def configureTTL_def configurePeerAddressParams_def configureMaxSeg_def configureKeepAlive_def

lemma mute_configure [only_intros]: "mute (Socket_configure E fd)" "mute (sctp_configure E fd)" "mute (tcp_configure E fd)"
  unfolding Socket_configure_def sctp_configure_def tcp_configure_def configure_defs Let_def by (intro only_intros)+

lemma mute_set [only_intros]: "mute FDSet_reset" "mute (FDSet_set fd)" "mute (FDSet_select E t)"
  unfolding FDSet_reset_def FDSet_set_def FDSet_select_def FDSet_selectImpl_def
  by (intro only_intros only_modify; simp)+

lemma mute_addresses [only_intros]:
  "mute (Socket_getBoundAddresses E fd)" "mute (Socket_getPeerAddresses E fd)" "mute (getLaddrs E fd a)" "mute (getPaddrs E fd a)"
  unfolding Socket_getBoundAddresses_def Socket_getPeerAddresses_def getAddresses_def getLaddrs_def getPaddrs_def getAddrs_def
  by (intro only_intros; simp split: AddrType.split)+

lemma mute_Socket [only_intros]:
  "mute (Socket_ctor E locals type protocol fam defer)" "mute (Socket_listen E n)" "mute (Socket_connect remotes)"
  "mute (Socket_connect_fd E fd remote)" "mute (scheduleReestablishment E remote)" "mute (log_received E msg)"
  "mute (Socket_selectFds E)" "mute (Socket_getBuffer fd)" "mute (Socket_accept E)"
  unfolding Socket_ctor_def Socket_init_def Socket_create_def Socket_listen_def Socket_connect_def Socket_connect_fd_def
    scheduleReestablishment_def log_received_def Socket_selectFds_def Socket_getBuffer_def Socket_accept_def Let_def
  by (intro only_intros only_modify; simp)+

lemma mute_Socket_bind [only_intros]: "(\<And>fd. mute (b fd)) \<Longrightarrow> mute (Socket_bind E b fd locals)"
  unfolding Socket_bind_def by (intro only_intros) simp_all

lemma mute_Socket_receive [only_intros]: "mute m \<Longrightarrow> (\<And>fd. mute (h fd)) \<Longrightarrow> mute (Socket_receive E m h)"
  unfolding Socket_receive_def by (intro only_intros)

section \<open>The classes\<close>

lemma mute_tcp_parts [only_intros]:
  "mute (tcp_bind E fd locals)" "mute (tcp_emplace E d remote b)" "mute (tcp_getBuffer E fd)" "mute (tcp_handleCommUp E)"
  "mute (tcp_handleCommLost E fd)" "mute (tcp_handleGracefulShutdown E fd)" "mute (tcp_sendMessage E msg peer)"
  "mute (tcp_receiveMessage E fd)" "mute (tcp_createConnectSocket E)"
  unfolding tcp_bind_def tcp_emplace_def tcp_getBuffer_def tcp_peer_at_def tcp_handleCommUp_def tcp_handleCommLost_def
    tcp_handleGracefulShutdown_def tcp_remove_def tcp_erase_def tcp_sendMessage_def tcp_receiveMessage_def
    tcp_createConnectSocket_def Let_def
  by (intro only_intros only_bind_gets only_modify; simp)+

lemma mute_tcp [only_intros]:
  "mute (tcp_ctor E a)" "mute (dccp_ctor E locals)" "mute (tcp_connect E remotes)" "mute (tcp_send E msg)" "mute (tcp_receive E)"
  "mute (dccp_send E msg)" "mute (dccp_receive E)" "mute (tcp_dtor E)" "mute (dccp_dtor E)"
  unfolding tcp_ctor_def dccp_ctor_def tcp_init_members_def tcp_connect_def tcp_connect_one_def tcp_send_def dccp_send_def
    tcp_receive_def dccp_receive_def tcp_selectFds_def tcp_handleMessage_def dccp_handleMessage_def tcp_dtor_def dccp_dtor_def
    tcp_destroy_peers_def Let_def
  by (intro only_intros only_modify; simp)+

lemma mute_udp_parts [only_intros]:
  "mute (udp_handleCommUp E remote)" "mute (udp_send_to E msg remote)" "mute (udp_remove E remote)"
  "mute (udp_resetTasks E remote)"
  unfolding udp_handleCommUp_def udp_schedulePing_def udp_scheduleCommLost_def udp_send_to_def udp_remove_def
    udp_disableTasks_def udp_resetTasks_def udp_peer_ref_def task_lock_def
  by (intro only_intros only_modify; simp)+

lemma mute_udp [only_intros]:
  "mute (udp_ctor E a)" "mute (udp_connect E remotes)" "mute (udp_send E msg)" "mute (udp_receive E)" "mute (udp_dtor E)"
  unfolding udp_ctor_def udp_init_members_def udp_connect_def udp_send_def udp_receive_def udp_handleMessage_def udp_dispatch_def
    udp_handleGracefulShutdown_def udp_dtor_def
  by (intro only_intros only_modify; simp)+

lemma mute_udp_task [only_intros]: "mute (udp_task E t)"
  by (cases t) (simp_all add: udp_handleCommLost_def only_intros)

lemma mute_unix [only_intros]:
  "mute (unix_ctor E a)" "mute (unix_connect remotes)" "mute (unix_send E msg)" "mute (unix_receive E)" "mute (unix_dtor E)"
  unfolding unix_ctor_def unix_bind_def unix_connect_def unix_handleCommUp_def unix_send_def unix_send_to_def unix_receive_def
    unix_handleMessage_def unix_handleGracefulShutdown_def unix_dtor_def Let_def
  by (intro only_intros only_modify; simp)+

lemma mute_forked_sharing [only_intros]:
  "mute (printSemaphoreValues E)" "mute (sendOnMessageQueue E msg)" "mute (readPosixSharedMemory E)" "mute (readSysVSharedMemory E)"
  "mute (take_message E b r)"
  unfolding printSemaphoreValues_def sendOnMessageQueue_def readPosixSharedMemory_def readSysVSharedMemory_def
    isSemaphoreReady_def take_message_def
  by (intro only_intros only_modify; simp)+

lemma mute_forked_creation [only_intros]:
  "mute (createMessageQueues E)" "mute (createPosixSharedMemory E)" "mute (createSysVSharedMemory E)" "mute (createNamedSemaphore E)"
  "mute (createUnnamedSemaphore E)" "mute (createPipe E)" "mute (createNamedPipe E)" "mute (forked_take E d p np)"
  "mute (killChildOnParentDeath E)"
  unfolding createMessageQueues_def createPosixSharedMemory_def createSysVSharedMemory_def createNamedSemaphore_def
    createUnnamedSemaphore_def createPipe_def createNamedPipe_def forked_take_def killChildOnParentDeath_def
    checkParentAlive_def split_def
  by (intro only_intros only_modify; simp)+

lemma mute_forked_start [only_intros]: "mute (forked_start E)"
  unfolding forked_start_def forked_fork_def forkParent_def forkChild_def createSocketPair_def Let_def split_def
  by (intro only_intros only_bind_gets only_modify; simp)

lemma mute_forked [only_intros]:
  "mute (forked_ctor E a)" "mute (forked_send E msg)" "mute (forked_receive E)" "mute (forked_dtor E)"
  unfolding forked_ctor_def forked_init_members_def forked_destroy_members_def
    forked_send_def sendOnSocketPair_def sendOnPipe_def sendOnNamedPipe_def setPosixSharedMemory_def
    setSysVSharedMemory_def postNamedSemaphore_def postUnnamedSemaphore_def
    forked_receive_def forked_handleMessage_def receiveFromPipe_def receiveFromNamedPipe_def receiveFromMessageQueue_def
    forked_dtor_def cleanUpMessageQueues_def cleanUpSemaphores_def cleanUpSharedMemory_def
  by (intro only_intros only_modify; simp)+

lemma mute_sctp_parts [only_intros]:
  "mute (sctp_remove E a)" "mute (sctp_peelOff E a)" "mute (sctp_getBuffer E fd)" "mute (sctp_setBuffer owner b)"
  "mute (sctp_selectFds E)" "mute (sctp_bind E fd locals)"
  unfolding sctp_remove_def sctp_peelOff_def logPeerInfo_def sctp_emplace_def sctp_getBuffer_def sctp_setBuffer_def sctp_selectFds_def
    sctp_bind_def Let_def
  by (intro only_intros only_modify; simp)+

lemma mute_sctp [only_intros]:
  "mute (sctp_ctor E cfg)" "mute (sctp_connect E remotes)" "mute (sctp_send E msg)" "mute (sctp_receive E)" "mute (sctp_dtor E)"
  unfolding sctp_ctor_def sctp_connect_def sctp_send_def sctp_sendBigMessage_def sctp_send_fd_def sctp_receive_def
    sctp_handleMessage_def sctp_handle_def sctp_handleCommUp_def sctp_handleEstablishmentFailure_def
    sctp_handleGracefulShutdown_def sctp_handleCommLost_def sctp_dtor_def sctp_destroy_peers_def Let_def
  by (intro only_intros only_modify; simp)+

end
