(* ===== verification/DescriptorUse.thy ===== *)
theory DescriptorUse
  imports Growth
begin

text \<open>
  No call names a descriptor that is not open. \<open>uses c\<close> are the descriptors the call \<open>c\<close> works on; a
  history is sound when each of them was open at the time of its call. \<open>careful I m\<close>: run from a state that
  satisfies \<open>I\<close>, \<open>m\<close> leaves a sound history sound, however it ends. The rules follow the structure of a method;
  where a method learns of a descriptor, the predicate that the rest is run from says that it is open.
\<close>

section \<open>Calls and the descriptors they work on\<close>

text \<open>Closing is judged by \<open>sound_closes\<close>.\<close>

fun ipc_uses :: "ipc \<Rightarrow> FD set" where
  "ipc_uses (I_ftruncate fd n) = {fd}"
| "ipc_uses (I_mmap fd n) = {fd}"
| "ipc_uses (I_read fd n) = {fd}"
| "ipc_uses (I_write fd w) = {fd}"
| "ipc_uses c = {}"

fun uses :: "call \<Rightarrow> FD set" where
  "uses (C_bind fd a) = {fd}"
| "uses (C_listen fd n) = {fd}"
| "uses (C_connect fd a) = {fd}"
| "uses (C_accept4 fd) = {fd}"
| "uses (C_getsockname fd) = {fd}"
| "uses (C_getpeername fd) = {fd}"
| "uses (C_setsockopt fd l n v) = {fd}"
| "uses (C_fcntl_getfl fd) = {fd}"
| "uses (C_fcntl_setfl fd fl) = {fd}"
| "uses (C_select n S t) = S"
| "uses (C_recv fd n) = {fd}"
| "uses (C_recvfrom fd n) = {fd}"
| "uses (C_send fd w) = {fd}"
| "uses (C_sendto fd w a) = {fd}"
| "uses (C_sctp_recvmsg fd n) = {fd}"
| "uses (C_sctp_connectx fd a n) = {fd}"
| "uses (C_sctp_bindx fd a n) = {fd}"
| "uses (C_sctp_peeloff fd a) = {fd}"
| "uses (C_sctp_getladdrs fd a) = {fd}"
| "uses (C_sctp_getpaddrs fd a) = {fd}"
| "uses (C_getsockopt fd l n) = {fd}"
| "uses (C_sctp_opt_info fd a n) = {fd}"
| "uses (C_ipc c) = ipc_uses c"
| "uses c = {}"

primrec sound_uses :: "history \<Rightarrow> bool" where
  "sound_uses [] = True"
| "sound_uses (e # h) \<longleftrightarrow> uses (fst e) \<subseteq> live h \<and> sound_uses h"

abbreviation on :: "FD set \<Rightarrow> ('z world_scheme, 'a) io \<Rightarrow> bool" where
  "on F \<equiv> only (\<lambda>c. uses c \<subseteq> F)"

lemma live_neutral: "neutral t \<Longrightarrow> live (t @ h) = live h"
  by (induction t) auto

lemma sound_uses_neutral:
  "neutral t \<Longrightarrow> \<forall>e\<in>set t. uses (fst e) \<subseteq> F \<Longrightarrow> F \<subseteq> live h \<Longrightarrow> sound_uses (t @ h) \<longleftrightarrow> sound_uses h"
  by (induction t) (auto simp: live_neutral)

lemma sound_uses_none: "\<forall>e\<in>set t. uses (fst e) \<subseteq> {} \<Longrightarrow> sound_uses (t @ h) \<longleftrightarrow> sound_uses h"
  by (induction t) auto

section \<open>Careful computations\<close>

definition careful :: "('z world_scheme \<Rightarrow> bool) \<Rightarrow> ('z world_scheme, 'a) io \<Rightarrow> bool" where
  "careful I m \<longleftrightarrow> (\<forall>s. I s \<longrightarrow> sound_uses (trace s) \<longrightarrow> sound_uses (trace (snd (m s))))"

named_theorems careful_intros "computations that use open descriptors only"

lemma carefulI: "(\<And>s. I s \<Longrightarrow> sound_uses (trace s) \<Longrightarrow> sound_uses (trace (snd (m s)))) \<Longrightarrow> careful I m"
  by (simp add: careful_def)

lemma carefulD: "careful I m \<Longrightarrow> I s \<Longrightarrow> sound_uses (trace s) \<Longrightarrow> sound_uses (trace (snd (m s)))"
  by (simp add: careful_def)

lemma careful_mono: "careful I m \<Longrightarrow> (\<And>s. J s \<Longrightarrow> I s) \<Longrightarrow> careful J m"
  by (simp add: careful_def)

lemma careful_none: "on {} m \<Longrightarrow> careful I m"
proof (rule carefulI)
  fix s :: "'a world_scheme"
  assume "on {} m" and h: "sound_uses (trace s)"
  then obtain u where "trace (snd (m s)) = u @ trace s" "\<forall>e\<in>set u. uses (fst e) \<subseteq> {}"
    unfolding only_def by blast
  then show "sound_uses (trace (snd (m s)))" using h sound_uses_none by simp
qed

lemma careful_quiet:
  assumes "quiet m" and "on F m" and "\<And>s. I s \<Longrightarrow> F \<subseteq> live (trace s)"
  shows "careful I m"
proof (rule carefulI)
  fix s :: "'a world_scheme"
  assume s: "I s" "sound_uses (trace s)"
  obtain t where t: "snd (m s) = s\<lparr>trace := t @ trace s\<rparr>" "neutral t" using assms(1) unfolding quiet_def by blast
  moreover have "\<forall>e\<in>set t. uses (fst e) \<subseteq> F" using assms(2) [unfolded only_def, rule_format, of s] t(1) by auto
  ultimately show "sound_uses (trace (snd (m s)))" using s assms(3) by (simp add: sound_uses_neutral)
qed

lemma careful_sys: "(\<And>s. I s \<Longrightarrow> uses c \<subseteq> live (trace s)) \<Longrightarrow> careful I (sys E c)"
  by (rule carefulI) (simp add: sys_def Let_def)

lemma careful_bindE:
  assumes "careful I m" and "\<And>s. I s \<Longrightarrow> wp m J (\<lambda>_ _. True) s" and "\<And>x. careful (J x) (f x)"
  shows "careful I (bindE m f)"
proof (rule carefulI)
  fix s :: "'a world_scheme"
  assume s: "I s" "sound_uses (trace s)"
  obtain r t where r: "m s = (r, t)" by force
  have t: "sound_uses (trace t)" using carefulD [OF assms(1) s] r by simp
  show "sound_uses (trace (snd (bindE m f s)))"
  proof (cases r)
    case (Inl e)
    then show ?thesis using r t by (simp add: bindE_def)
  next
    case (Inr x)
    then have "J x t" using assms(2) [OF s(1)] r by (simp add: wp_def)
    then show ?thesis using carefulD [OF assms(3) _ t] r Inr by (simp add: bindE_def)
  qed
qed

lemma careful_thenE:
  "careful I m \<Longrightarrow> (\<And>s. I s \<Longrightarrow> wp m (\<lambda>_. J) (\<lambda>_ _. True) s) \<Longrightarrow> careful J n \<Longrightarrow> careful I (thenE m n)"
  unfolding thenE_def by (rule careful_bindE)

text \<open>When the first part keeps the invariant, the second starts from it.\<close>

lemma keeps_wp: "keeps I m \<Longrightarrow> I s \<Longrightarrow> wp m (\<lambda>_. I) (\<lambda>_ _. True) s"
  by (rule wp_mono [OF keepsD]) simp_all

lemma careful_bind_kept: "careful I m \<Longrightarrow> keeps I m \<Longrightarrow> (\<And>x. careful I (f x)) \<Longrightarrow> careful I (bindE m f)"
  by (rule careful_bindE [where J = "\<lambda>_. I"]) (simp_all add: keeps_wp)

lemma careful_then_kept: "careful I m \<Longrightarrow> keeps I m \<Longrightarrow> careful I n \<Longrightarrow> careful I (thenE m n)"
  unfolding thenE_def by (rule careful_bind_kept)

lemma careful_gets: "(\<And>v. careful (\<lambda>s. I s \<and> g s = v) (f v)) \<Longrightarrow> careful I (bindE (gets g) f)"
  by (auto simp: careful_def bindE_def gets_def)

lemma careful_gets_any: "(\<And>v. careful I (f v)) \<Longrightarrow> careful I (bindE (gets g) f)"
  by (rule careful_gets) (auto intro: careful_mono)

lemma careful_modify_then:
  "(\<And>s. trace (g s) = trace s) \<Longrightarrow> (\<And>s. I s \<Longrightarrow> J (g s)) \<Longrightarrow> careful J m \<Longrightarrow> careful I (thenE (modify g) m)"
  by (rule careful_thenE [where J = J]) (simp_all add: careful_def wp_def modify_def)

lemma careful_on_unwind:
  assumes "careful I m" and "on {} c"
  shows "careful I (on_unwind m c)"
proof (rule carefulI)
  fix s :: "'a world_scheme"
  assume s: "I s" "sound_uses (trace s)"
  obtain r t where r: "m s = (r, t)" by force
  have t: "sound_uses (trace t)" using carefulD [OF assms(1) s] r by simp
  then have "sound_uses (trace (snd (c t)))" using carefulD [OF careful_none [OF assms(2)], of "\<lambda>_. True" t] by simp
  then show "sound_uses (trace (snd (on_unwind m c s)))"
    using r t by (auto simp: on_unwind_def split: sum.split prod.split)
qed

lemma careful_on_unwind_kept:
  assumes "careful I m" and "keeps I m" and "careful I c"
  shows "careful I (on_unwind m c)" and "\<And>s. I s \<Longrightarrow> wp (on_unwind m c) (\<lambda>_. I) (\<lambda>_ _. True) s"
proof -
  show "careful I (on_unwind m c)"
  proof (rule carefulI)
    fix s :: "'a world_scheme"
    assume s: "I s" "sound_uses (trace s)"
    obtain r t where r: "m s = (r, t)" by force
    have t: "sound_uses (trace t)" using carefulD [OF assms(1) s] r by simp
    moreover have "sound_uses (trace (snd (c t)))" if "r = Inl e" "is_exception e" for e
      using carefulD [OF assms(3) keeps_raises [OF assms(2) s(1) _ that(2)] t] r that by simp
    ultimately show "sound_uses (trace (snd (on_unwind m c s)))"
      using r by (auto simp: on_unwind_def split: sum.split prod.split)
  qed
  show "wp (on_unwind m c) (\<lambda>_. I) (\<lambda>_ _. True) s" if "I s" for s
    unfolding wp_on_unwind
    by (rule wp_mono [OF keepsD [OF assms(2) that]]) (auto simp: wp_def split: prod.split sum.split)
qed

lemma careful_scoped: "careful I m \<Longrightarrow> on {} c \<Longrightarrow> careful I (scoped m c)"
  unfolding scoped_def
  by (intro careful_on_unwind careful_bindE [where J = "\<lambda>_ _. True"] careful_thenE [where J = "\<lambda>_. True"])
    (auto intro: careful_none only_basic simp: wp_def split: prod.split sum.split)

lemma careful_no_throw: "careful I m \<Longrightarrow> careful I (no_throw m)"
proof (rule carefulI)
  fix s :: "'a world_scheme"
  assume "careful I m" and "I s" and "sound_uses (trace s)"
  moreover have "snd (no_throw m s) = snd (m s)" by (simp add: no_throw_def split: sum.split prod.split)
  ultimately show "sound_uses (trace (snd (no_throw m s)))" by (simp add: carefulD)
qed

lemma careful_catch_runtime:
  assumes "careful I m" and "keeps I m" and "\<And>w. careful I (h w)"
  shows "careful I (catch_runtime m h)"
proof (rule carefulI)
  fix s :: "'a world_scheme"
  assume s: "I s" "sound_uses (trace s)"
  obtain r t where r: "m s = (r, t)" by force
  have t: "sound_uses (trace t)" using carefulD [OF assms(1) s] r by simp
  moreover have "sound_uses (trace (snd (h w t)))" if "r = Inl (Runtime_error w)" for w
    using carefulD [OF assms(3) keeps_raises [OF assms(2) s(1), of "Runtime_error w" t] t] r that by simp
  ultimately show "sound_uses (trace (snd (catch_runtime m h s)))"
    using r by (auto simp: catch_runtime_def split: sum.split error.split)
qed

lemma careful_for_each:
  assumes "\<And>x. x \<in> set xs \<Longrightarrow> careful I (f x)" and "\<And>x. x \<in> set xs \<Longrightarrow> keeps I (f x)"
  shows "careful I (for_each f xs)"
  using assms
proof (induction xs)
  case Nil
  then show ?case by (auto intro: careful_none only_basic)
next
  case (Cons x xs)
  then show ?case by (auto intro!: careful_then_kept)
qed

lemma careful_run_tasks:
  assumes "\<And>x. x \<in> set xs \<Longrightarrow> careful I (h x)" and "\<And>x. x \<in> set xs \<Longrightarrow> keeps I (h x)"
  shows "careful I (run_tasks h xs)"
  using assms
proof (induction xs)
  case Nil
  then show ?case by (auto intro: careful_none only_basic)
next
  case (Cons x xs)
  have rest: "careful I (bindE (run_tasks h xs) (\<lambda>es. return (e # es)))" for e
    using Cons by (intro careful_bindE [where J = "\<lambda>_ _. True"]) (auto intro: careful_none only_basic simp: wp_def split: prod.split sum.split)
  have x: "careful I (h x)" "keeps I (h x)" using Cons.prems by simp_all
  show ?case
  proof (rule carefulI)
    fix s :: "'b world_scheme"
    assume s: "I s" "sound_uses (trace s)"
    obtain r t where r: "h x s = (r, t)" by force
    have t: "sound_uses (trace t)" using carefulD [OF x(1) s] r by simp
    show "sound_uses (trace (snd (run_tasks h (x # xs) s)))"
    proof (cases "\<exists>e. r = Inl e \<and> \<not> is_exception e")
      case True
      then show ?thesis using r t by auto
    next
      case False
      then have "I t"
        using keeps_returns [OF x(2) s(1)] keeps_raises [OF x(2) s(1)] r by (cases r) blast+
      then show ?thesis
        using r t False carefulD [OF rest] by (auto split: sum.split)
    qed
  qed
qed

lemma careful_cases [careful_intros]:
  "careful I m \<Longrightarrow> careful I n \<Longrightarrow> careful I (if b then m else n)"
  "careful I m \<Longrightarrow> (\<And>x. careful I (f x)) \<Longrightarrow> careful I (case p of None \<Rightarrow> m | Some x \<Rightarrow> f x)"
  "(\<And>a b. careful I (g a b)) \<Longrightarrow> careful I (case q of (a, b) \<Rightarrow> g a b)"
  by (simp_all split: option.split prod.split)

lemma careful_basic [careful_intros]:
  "careful I (return x)" "careful I (throw e)" "careful I (gets g)" "careful I (lift_sum r)" "careful I (check E name b)"
  "careful I (checked E name b y)"
  by (rule careful_none, intro only_intros)+

lemma careful_modify: "(\<And>s. trace (g s) = trace s) \<Longrightarrow> careful I (modify g)"
  by (rule careful_none) (rule only_modify)

lemma careful_with_lock:
  assumes "\<And>s k. I s \<Longrightarrow> I (s\<lparr>peers_mtx := k\<rparr>)" and "careful I m"
  shows "careful I (with_lock E m)"
  unfolding with_lock_def
proof (rule careful_thenE [where J = I])
  show "careful I (lock_peers E)"
    unfolding lock_peers_def by (intro careful_gets_any careful_cases careful_basic careful_modify) simp
  show "wp (lock_peers E) (\<lambda>_. I) (\<lambda>_ _. True) s" if "I s" for s
    using that assms(1) by (auto simp: lock_peers_def wp_simps split: option.split)
  show "careful I (scoped m unlock_peers)"
    by (rule careful_scoped [OF assms(2)]) (simp add: unlock_peers_def only_modify)
qed

text \<open>What has been shown for every operation holds for what is made of them.\<close>

lemma careful_keeps:
  assumes "careful I m" and "keeps I m"
  shows "keeps (\<lambda>s. I s \<and> sound_uses (trace s)) m"
proof (rule keepsI)
  fix s :: "'a world_scheme"
  assume "I s \<and> sound_uses (trace s)"
  then show "wp m (\<lambda>_ s. I s \<and> sound_uses (trace s)) (safely (\<lambda>s. I s \<and> sound_uses (trace s))) s"
    using keepsD [OF assms(2), of s] carefulD [OF assms(1), of s]
    by (auto simp: wp_def safely_def split: prod.splits sum.splits)
qed

section \<open>Which descriptors the base class uses\<close>

lemma on_closing [only_intros]:
  "on F (fd_close E d)" "on F (fd_dtor E d)" "on F (fd_move_assign E same d d')" "on F (destroy_fds E ds)" "on F (Socket_dtor E)"
  unfolding Socket_dtor_def by (intro only_close only_intros only_modify; simp)+

lemma on_options [only_intros]:
  "on {fd} (SETSOCKOPT E fd l n v)" "on {fd} (optInfo E fd n a)" "on {fd} (getsockopt E fd l n)"
  "on {fd} (configureNonBlockingMode E fd)"
  unfolding SETSOCKOPT_def optInfo_def getsockopt_def configureNonBlockingMode_def by (intro only_intros; simp)+

lemma on_configure [only_intros]:
  "on {fd} (configureNoDelay E fd)" "on {fd} (configureReuseAddr E fd)"
  "on {fd} (configureReceivingEvents E fd)" "on {fd} (configureInitParams E fd a b)"
  "on {fd} (configureRto E fd a b c d)" "on {fd} (configureSack E fd a b d)"
  "on {fd} (configureMaxRetrans E fd a d)" "on {fd} (configureDscp E fd dscp fam)"
  "on {fd} (configureIPv4AddressMapping E fd)" "on {fd} (configureTTL E fd a)"
  "on {fd} (configurePeerAddressParams E fd a b c d)" "on {fd} (configureMaxSeg E fd a d)"
  "on {fd} (configureKeepAlive E fd a b c)"
  by (simp_all add: configureNoDelay_def configureReuseAddr_def configureReceivingEvents_def
      configureInitParams_def configureRto_def configureSack_def configureMaxRetrans_def
      configureDscp_def configureIPv4AddressMapping_def configureTTL_def
      configurePeerAddressParams_def configureMaxSeg_def configureKeepAlive_def Let_def only_intros)

lemma on_Socket [only_intros]:
  "on {fd} (Socket_configure E fd)" "on {fd} (Socket_getBoundAddresses E fd)" "on {fd} (Socket_getPeerAddresses E fd)"
  "on {fd} (Socket_connect_fd E fd remote)" "on F (scheduleReestablishment E remote)" "on F (log_received E msg)"
  "on F (Socket_getBuffer fd)"
  unfolding Socket_configure_def Socket_getBoundAddresses_def Socket_getPeerAddresses_def getAddresses_def Socket_connect_fd_def
    scheduleReestablishment_def log_received_def Socket_getBuffer_def
  by (intro only_intros; simp)+

lemma on_Socket_bind [only_intros]: "on {fd} (b fd) \<Longrightarrow> on {fd} (Socket_bind E b fd locals)"
  unfolding Socket_bind_def by (intro only_intros; simp)

lemma on_sctp_addrs [only_intros]: "on {fd} (getLaddrs E fd a)" "on {fd} (getPaddrs E fd a)"
  unfolding getLaddrs_def getPaddrs_def getAddrs_def by (intro only_intros; simp add: Let_def only_intros split: AddrType.split)+

lemma on_creation: "on F (Socket_ctor E locals type protocol fam defer)"
  unfolding Socket_ctor_def Socket_init_def Socket_create_def by (intro only_intros only_modify; simp)

section \<open>Waiting and receiving\<close>

text \<open>What \<open>select\<close> waits on are the descriptors put into the set since the last \<open>reset\<close>.\<close>

lemma careful_FDSet_select:
  assumes "\<And>s. I s \<Longrightarrow> fds s \<subseteq> live (trace s)"
  shows "careful I (FDSet_select E t)"
proof -
  have "careful (\<lambda>s. fds s \<subseteq> live (trace s)) (FDSet_selectImpl E t)"
    unfolding FDSet_selectImpl_def
    by (intro careful_gets_any careful_gets careful_bindE [where J = "\<lambda>_ _. True"] careful_sys careful_none only_intros only_modify)
      (auto simp: wp_simps)
  then show ?thesis
    unfolding FDSet_select_def
    by (intro careful_modify_then [where J = "\<lambda>s. fds s \<subseteq> live (trace s)"] careful_bindE [where J = "\<lambda>_ _. True"])
      (auto intro!: careful_none only_intros only_modify simp: assms wp_def split: prod.split sum.split)
qed

lemma on_FDSet_set [only_intros]: "on F (FDSet_set fd)" "on F FDSet_reset"
  unfolding FDSet_set_def FDSet_reset_def by (intro only_intros only_modify; simp)+

lemmas careful_FDSet_set = on_FDSet_set [THEN careful_none]

lemma wp_FDSet_set_within:
  assumes "\<And>s F. I s \<Longrightarrow> I (s\<lparr>fds := F\<rparr>)" and "\<And>s n. I s \<Longrightarrow> I (s\<lparr>fd_max := n\<rparr>)" and "I s" and "fds s \<subseteq> F" and "fd \<in> F"
  shows "wp (FDSet_set fd) (\<lambda>_ t. I t \<and> fds t \<subseteq> F) (\<lambda>_ _. True) s"
  using assms by (simp add: FDSet_set_def wp_simps)

lemma wp_FDSet_set_each:
  assumes "\<And>s F. I s \<Longrightarrow> I (s\<lparr>fds := F\<rparr>)" and "\<And>s n. I s \<Longrightarrow> I (s\<lparr>fd_max := n\<rparr>)" and "I s" and "fds s \<subseteq> F"
    and "\<forall>p\<in>set ps. k p \<in> F"
  shows "wp (for_each (\<lambda>p. FDSet_set (k p)) ps) (\<lambda>_ t. I t \<and> fds t \<subseteq> F) (\<lambda>_ _. True) s"
  using assms(3-5)
proof (induction ps arbitrary: s)
  case Nil
  then show ?case by (simp add: wp_simps)
next
  case (Cons p ps)
  show ?case
    unfolding for_each.simps wp_thenE
    by (rule wp_mono [OF wp_FDSet_set_within [OF assms(1,2) Cons.prems(1,2)]]) (use Cons in auto)
qed

lemma careful_selecting:
  assumes I: "\<And>s F. I s \<Longrightarrow> I (s\<lparr>fds := F\<rparr>)" "\<And>s n. I s \<Longrightarrow> I (s\<lparr>fd_max := n\<rparr>)"
    and "\<And>s. I s \<Longrightarrow> raw_fd (sk_fd s) \<in> live (trace s)" and "\<And>s p. I s \<Longrightarrow> p \<in> set (g s) \<Longrightarrow> k p \<in> live (trace s)"
  shows "careful I (thenE FDSet_reset
       (bindE (gets (\<lambda>s. raw_fd (sk_fd s))) (\<lambda>fd.
        thenE (FDSet_set fd)
        (bindE (gets g) (\<lambda>peers. thenE (for_each (\<lambda>p. FDSet_set (k p)) peers) (FDSet_select E t))))))"
proof -
  let ?I = "\<lambda>F s. I s \<and> live (trace s) = F" and ?J = "\<lambda>F s. (I s \<and> live (trace s) = F) \<and> fds s \<subseteq> F"
  note within = wp_FDSet_set_within [of "?I F" for F] and each = wp_FDSet_set_each [of "?I F" for F]
  have sel: "careful (?J F) (FDSet_select E t)" for F by (rule careful_FDSet_select) simp
  have rest: "careful (\<lambda>s. ?J F s \<and> g s = ps) (thenE (for_each (\<lambda>p. FDSet_set (k p)) ps) (FDSet_select E t))" for F ps
  proof (rule careful_thenE [OF _ _ sel [of F]])
    show "careful (\<lambda>s. ?J F s \<and> g s = ps) (for_each (\<lambda>p. FDSet_set (k p)) ps)"
      by (intro careful_none only_intros)
    show "wp (for_each (\<lambda>p. FDSet_set (k p)) ps) (\<lambda>_. ?J F) (\<lambda>_ _. True) s" if "?J F s \<and> g s = ps" for s
      by (rule each) (use that I assms(4) in auto)
  qed
  have one: "careful (\<lambda>s. ?J F s \<and> raw_fd (sk_fd s) = fd)
      (thenE (FDSet_set fd) (bindE (gets g) (\<lambda>ps. thenE (for_each (\<lambda>p. FDSet_set (k p)) ps) (FDSet_select E t))))" for F fd
  proof (rule careful_thenE [OF careful_FDSet_set(1) _ careful_gets [OF rest [of F]]])
    show "wp (FDSet_set fd) (\<lambda>_. ?J F) (\<lambda>_ _. True) s" if "?J F s \<and> raw_fd (sk_fd s) = fd" for s
      by (rule within) (use that I assms(3) in auto)
  qed
  show ?thesis
  proof (rule carefulI)
    fix s
    assume s: "I s" "sound_uses (trace s)"
    have "careful (?I (live (trace s))) (thenE FDSet_reset (bindE (gets (\<lambda>s. raw_fd (sk_fd s))) (\<lambda>fd.
        thenE (FDSet_set fd) (bindE (gets g) (\<lambda>ps. thenE (for_each (\<lambda>p. FDSet_set (k p)) ps) (FDSet_select E t))))))"
      by (rule careful_thenE [OF careful_FDSet_set(2) _ careful_gets [OF one [of "live (trace s)"]]])
        (use I in \<open>simp add: FDSet_reset_def wp_simps\<close>)
    then show "sound_uses (trace (snd (thenE FDSet_reset (bindE (gets (\<lambda>s. raw_fd (sk_fd s))) (\<lambda>fd.
        thenE (FDSet_set fd) (bindE (gets g) (\<lambda>ps. thenE (for_each (\<lambda>p. FDSet_set (k p)) ps) (FDSet_select E t))))) s)))"
      by (rule carefulD) (use s in simp_all)
  qed
qed

lemma careful_Socket_selectFds:
  fixes I :: "'z Socket_scheme \<Rightarrow> bool"
  assumes I: "\<And>s F. I s \<Longrightarrow> I (s\<lparr>fds := F\<rparr>)" "\<And>s n. I s \<Longrightarrow> I (s\<lparr>fd_max := n\<rparr>)"
    and "\<And>s. I s \<Longrightarrow> raw_fd (sk_fd s) \<in> live (trace s)"
  shows "careful I (Socket_selectFds E)"
proof -
  have "bindE (gets (\<lambda>_. [])) (\<lambda>peers :: unit list. thenE (for_each (\<lambda>p. FDSet_set 0) peers) m) = m" for m :: "('z Socket_scheme, FD list) io"
    by (simp add: fun_eq_iff io_defs)
  then show ?thesis
    using careful_selecting [of I "\<lambda>_. [] :: unit list" "\<lambda>_. 0" E select_timeout] assms by (simp add: Socket_selectFds_def)
qed

text \<open>A handler for whatever descriptor, and one for the socket's own.\<close>

lemma careful_Socket_receive:
  assumes "careful I sel" and "keeps I sel" and "\<And>fd. careful I (h fd)" and "\<And>fd. keeps I (h fd)"
  shows "careful I (Socket_receive E sel h)"
  unfolding Socket_receive_def
  by (intro careful_bind_kept assms keeps_gets keeps_run_tasks careful_run_tasks careful_basic)
    (auto intro: careful_none only_basic split: option.split)

lemma wp_selected_within:
  assumes "select_ok E"
  shows "wp (FDSet_select E t) (\<lambda>l u. set l \<subseteq> fds s \<and> sk_fd u = sk_fd s) (\<lambda>_ _. True) s"
proof -
  define r where "r = os E (trace s) (C_select (fd_max s) (fds s) (toTimeval E t))"
  have "ofds r \<subseteq> fds s" using assms unfolding select_ok_def r_def by blast
  then show ?thesis
    by (auto simp: FDSet_select_def FDSet_selectImpl_def wp_simps r_def [symmetric] split: option.split)
qed

lemma wp_own_selected:
  assumes "select_ok E"
  shows "wp (Socket_selectFds E) (\<lambda>l t. set l \<subseteq> {raw_fd (sk_fd s)} \<and> sk_fd t = sk_fd s) (\<lambda>_ _. True) s"
  unfolding Socket_selectFds_def FDSet_reset_def FDSet_set_def
  by (simp add: wp_thenE wp_bindE wp_gets wp_modify wp_throw)
    (intro impI conjI wp_mono [OF wp_selected_within [OF assms]]; simp)

lemma careful_receive_own:
  assumes "select_ok E" and "tasks_ok E" and "careful I (Socket_selectFds E)" and "keeps I (Socket_selectFds E)"
    and h: "\<And>d. careful (\<lambda>s. sk_fd s = d \<and> I s) (h (raw_fd d))" "\<And>d. keeps (\<lambda>s. sk_fd s = d \<and> I s) (h (raw_fd d))"
  shows "careful I (Socket_receive E (Socket_selectFds E) h)"
  unfolding Socket_receive_def
proof (rule careful_bindE [OF assms(3)])
  fix s
  assume "I s"
  then show "wp (Socket_selectFds E) (\<lambda>l t. I t \<and> set l \<subseteq> {raw_fd (sk_fd t)}) (\<lambda>_ _. True) s"
    by (intro wp_mono [OF wp_conj [OF keeps_wp [OF assms(4)] wp_own_selected [OF assms(1)]]]) auto
next
  fix l
  have run: "careful (\<lambda>s. sk_fd s = d \<and> I s) (run_tasks h ord)" if "set ord \<subseteq> {raw_fd d}" for ord d
    by (rule careful_run_tasks) (use that h in auto)
  show "careful (\<lambda>s. I s \<and> set l \<subseteq> {raw_fd (sk_fd s)}) (bindE (gets (\<lambda>s. task_order E (trace s) l)) (\<lambda>ord.
     bindE (run_tasks h ord) (\<lambda>es. case join_tasks E es of None \<Rightarrow> return () | Some e \<Rightarrow> throw e)))"
  proof (rule careful_gets, rule careful_bindE [where J = "\<lambda>_ _. True"])
    fix ord
    show "careful (\<lambda>s. (I s \<and> set l \<subseteq> {raw_fd (sk_fd s)}) \<and> task_order E (trace s) l = ord) (run_tasks h ord)"
    proof (rule carefulI)
      fix s
      assume s: "(I s \<and> set l \<subseteq> {raw_fd (sk_fd s)}) \<and> task_order E (trace s) l = ord" "sound_uses (trace s)"
      then have "set ord \<subseteq> {raw_fd (sk_fd s)}" using assms(2) by (auto simp: tasks_ok_def)
      then show "sound_uses (trace (snd (run_tasks h ord s)))"
        by (intro carefulD [OF run]) (use s in auto)
    qed
  qed (auto intro: careful_none only_basic simp: wp_def split: option.split prod.split sum.split)
qed

end
