(* ===== verification/NetworkTask.thy ===== *)
theory NetworkTask
  imports Growth
begin

text \<open>
  \<open>src/src/NetworkTask.cpp\<close>, \<open>StartTask.cpp\<close>, \<open>SocketFactory.cpp\<close> and \<open>main.cpp\<close>: the thread that owns a
  socket. It makes the socket the configuration asks for, and until its lifetime is over or the goodbye
  was read it runs the scheduled tasks, receives, and sends what it finds in the mailbox. A socket is
  used through its virtual functions: a record of them (\<open>socket_object\<close>) per class, and the locale
  \<open>network_socket\<close>, which every class fulfils, says what the thread relies on.
\<close>

section \<open>Objects\<close>

record 's socket_object =
  so_ctor :: "env \<Rightarrow> ('s, unit) io"
  so_listen :: "env \<Rightarrow> int \<Rightarrow> ('s, unit) io"
  so_connect :: "env \<Rightarrow> IPSocket list \<Rightarrow> ('s, unit) io"
  so_receive :: "env \<Rightarrow> ('s, unit) io"
  so_send :: "env \<Rightarrow> string \<Rightarrow> ('s, unit) io"
  so_task :: "env \<Rightarrow> task \<Rightarrow> ('s, unit) io"
  so_dtor :: "env \<Rightarrow> ('s, unit) io"

text \<open>What runs a socket schedules other than a datagram socket's: \<open>connect({remote})\<close>.\<close>

fun connect_task :: "(IPSocket list \<Rightarrow> ('s, unit) io) \<Rightarrow> task \<Rightarrow> ('s, unit) io" where
  "connect_task connect (T_connect remote) = connect [remote]"
| "connect_task connect t = return ()"

definition tcp_object :: "IPSocket list \<Rightarrow> SocketTcp socket_object" where
  "tcp_object locals = \<lparr>so_ctor = \<lambda>E. tcp_ctor E (locals, SOCK_STREAM), so_listen = Socket_listen, so_connect = tcp_connect,
     so_receive = tcp_receive, so_send = tcp_send, so_task = \<lambda>E. connect_task (tcp_connect E), so_dtor = tcp_dtor\<rparr>"

definition dccp_object :: "IPSocket list \<Rightarrow> SocketTcp socket_object" where
  "dccp_object locals = \<lparr>so_ctor = \<lambda>E. dccp_ctor E locals, so_listen = Socket_listen, so_connect = tcp_connect,
     so_receive = dccp_receive, so_send = dccp_send, so_task = \<lambda>E. connect_task (tcp_connect E), so_dtor = dccp_dtor\<rparr>"

definition udp_object :: "IPSocket list \<Rightarrow> int \<Rightarrow> SocketUdp socket_object" where
  "udp_object locals protocol = \<lparr>so_ctor = \<lambda>E. udp_ctor E (locals, protocol), so_listen = Socket_listen, so_connect = udp_connect,
     so_receive = udp_receive, so_send = udp_send, so_task = udp_task, so_dtor = udp_dtor\<rparr>"

definition unix_object :: "SocketUnix socket_object" where
  "unix_object = \<lparr>so_ctor = \<lambda>E. unix_ctor E (), so_listen = Socket_listen, so_connect = \<lambda>_. unix_connect,
     so_receive = unix_receive, so_send = unix_send, so_task = \<lambda>_. connect_task unix_connect, so_dtor = unix_dtor\<rparr>"

definition forked_object :: "SocketUnixForked socket_object" where
  "forked_object = \<lparr>so_ctor = \<lambda>E. forked_ctor E (), so_listen = Socket_listen, so_connect = \<lambda>_. Socket_connect,
     so_receive = forked_receive, so_send = forked_send, so_task = \<lambda>_. connect_task Socket_connect, so_dtor = forked_dtor\<rparr>"

definition sctp_object :: "NetworkConfiguration \<Rightarrow> SocketSctp socket_object" where
  "sctp_object config = \<lparr>so_ctor = \<lambda>E. sctp_ctor E config, so_listen = Socket_listen, so_connect = sctp_connect,
     so_receive = sctp_receive, so_send = sctp_send, so_task = \<lambda>E. connect_task (sctp_connect E), so_dtor = sctp_dtor\<rparr>"

text \<open>
  \<open>createSocket\<close>: the class for the protocol. The classes have states of different types, so what is
  done with the object is given once per class.
\<close>

definition IPPROTO_UDPLITE :: int where "IPPROTO_UDPLITE = 136"

definition createSocket ::
  "NetworkConfiguration \<Rightarrow> (SocketTcp socket_object \<Rightarrow> 'r) \<Rightarrow> (SocketUdp socket_object \<Rightarrow> 'r) \<Rightarrow>
     (SocketUnix socket_object \<Rightarrow> 'r) \<Rightarrow> (SocketUnixForked socket_object \<Rightarrow> 'r) \<Rightarrow> (SocketSctp socket_object \<Rightarrow> 'r) \<Rightarrow> 'r" where
  "createSocket config tcp udp unix forked sctp =
     (case cfg_protocol config of
        TCP \<Rightarrow> tcp (tcp_object (cfg_locals config))
      | UDP \<Rightarrow> udp (udp_object (cfg_locals config) default_protocol)
      | UDP_Lite \<Rightarrow> udp (udp_object (cfg_locals config) IPPROTO_UDPLITE)
      | DCCP \<Rightarrow> tcp (dccp_object (cfg_locals config))
      | Unix \<Rightarrow> unix unix_object
      | UnixForked \<Rightarrow> forked forked_object
      | SCTP \<Rightarrow> sctp (sctp_object config))"

section \<open>The task\<close>

text \<open>Delays and lifetimes are in milliseconds.\<close>

record NetworkTaskParams =
  np_config :: NetworkConfiguration
  np_name :: string
  np_delay :: int
  np_lifetime :: int

definition startTask :: "env \<Rightarrow> int \<Rightarrow> ('z world_scheme, unit) io" where
  "startTask E delay = thenE (sys E (C_ipc (I_sleep_ms (nat delay)))) (return ())"

text \<open>\<open>chat\<close> as a call: the reply carries what was in the mailbox.\<close>

definition chat :: "env \<Rightarrow> string \<Rightarrow> ('z world_scheme, string) io" where
  "chat E new_msg = bindE (sys E (C_chat new_msg)) (\<lambda>r. return (odata r))"

definition chatOrQuit :: "'z world_scheme socket_object \<Rightarrow> env \<Rightarrow> ('z world_scheme, string) io" where
  "chatOrQuit V E =
     bindE (chat E []) (\<lambda>msg.
     thenE (if msg \<noteq> [] then if msg \<noteq> quit_msg then so_send V E msg else thenE (chat E msg) (return ())
            else return ())
       (return msg))"

text \<open>\<open>launch\<close> runs the tasks that are due; what it does with their exceptions is its own affair.\<close>

definition launch :: "'z world_scheme socket_object \<Rightarrow> env \<Rightarrow> ('z world_scheme, unit) io" where
  "launch V E =
     bindE (gets (\<lambda>s. due_tasks E (trace s))) (\<lambda>ts.
     bindE (run_tasks (so_task V E) ts) (\<lambda>es.
       case launch_result E es of None \<Rightarrow> return () | Some e \<Rightarrow> throw e))"

definition establishSocket :: "'z world_scheme socket_object \<Rightarrow> env \<Rightarrow> NetworkConfiguration \<Rightarrow> ('z world_scheme, unit) io" where
  "establishSocket V E config = thenE (so_listen V E 10) (so_connect V E (cfg_remotes config))"

text \<open>
  The loop, for at most \<open>n\<close> rounds: \<open>True\<close> when it is over, \<open>False\<close> when it is still running.
\<close>

primrec network_loop ::
  "nat \<Rightarrow> 'z world_scheme socket_object \<Rightarrow> env \<Rightarrow> bool \<Rightarrow> int \<Rightarrow> string \<Rightarrow> ('z world_scheme, bool) io" where
  "network_loop 0 V E should_live_forever time_to_die send_msg = return False"
| "network_loop (Suc n) V E should_live_forever time_to_die send_msg =
     bindE (if should_live_forever then return True
            else bindE (sys E C_now) (\<lambda>r. return (rv r < time_to_die))) (\<lambda>alive.
     if alive \<and> send_msg \<noteq> quit_msg then
       thenE (launch V E)
       (thenE (so_receive V E)
       (bindE (chatOrQuit V E) (network_loop n V E should_live_forever time_to_die)))
     else return True)"

text \<open>
  The socket is destroyed when the function is left; after \<open>n\<close> rounds of a loop that is still running
  it is not.
\<close>

definition network_body :: "nat \<Rightarrow> 'z world_scheme socket_object \<Rightarrow> env \<Rightarrow> NetworkTaskParams \<Rightarrow> ('z world_scheme, bool) io" where
  "network_body n V E p =
     thenE (startTask E (np_delay p))
     (thenE (so_ctor V E)
     (bindE (on_unwind
        (thenE (establishSocket V E (np_config p))
        (bindE (sys E C_now) (\<lambda>now.
          network_loop n V E (np_lifetime p = 0) (rv now + np_lifetime p) [])))
        (so_dtor V E)) (\<lambda>ended.
      if ended then thenE (so_dtor V E) (return True) else return False)))"

text \<open>The handler of the function-try-block: it logs, and may let something out.\<close>

definition LOG_EXCEPTIONS :: "env \<Rightarrow> 'a \<Rightarrow> ('s, 'a) io \<Rightarrow> ('s, 'a) io" where
  "LOG_EXCEPTIONS E x m = (\<lambda>s. case m s of
     (Inl e, s') \<Rightarrow>
       (if is_exception e then case log_exceptions E e of None \<Rightarrow> (Inr x, s') | Some e' \<Rightarrow> (Inl e', s') else (Inl e, s'))
   | r \<Rightarrow> r)"

definition network_run ::
  "(history \<Rightarrow> 'z world_scheme) \<Rightarrow> nat \<Rightarrow> env \<Rightarrow> NetworkTaskParams \<Rightarrow> history \<Rightarrow> 'z world_scheme socket_object \<Rightarrow>
     (error + bool) \<times> history" where
  "network_run blank n E p h V =
     (let (r, s) = LOG_EXCEPTIONS E True (network_body n V E p) (blank h) in (r, trace s))"

text \<open>Objects before their construction; the constructors set every member the code initialises.\<close>

definition blank_tcp :: "history \<Rightarrow> SocketTcp" where
  "blank_tcp h = \<lparr>trace = h, fds = {}, fd_max = 1, selected_fds = [], sk_fd = FileDescriptor_ctor invalid_fd,
     sk_family = AF_UNSPEC, sk_type = SOCK_STREAM, main_msg_buffer = [], peers_mtx = 0, tcp_peers = [], tcp_local = [],
     tcp_type = SOCK_STREAM, tcp_protocol = 0\<rparr>"

definition blank_udp :: "history \<Rightarrow> SocketUdp" where
  "blank_udp h = \<lparr>trace = h, fds = {}, fd_max = 1, selected_fds = [], sk_fd = FileDescriptor_ctor invalid_fd,
     sk_family = AF_UNSPEC, sk_type = SOCK_DGRAM, main_msg_buffer = [], udp_peers = [], udp_local = []\<rparr>"

definition blank_unix :: "history \<Rightarrow> SocketUnix" where
  "blank_unix h = \<lparr>trace = h, fds = {}, fd_max = 1, selected_fds = [], sk_fd = FileDescriptor_ctor invalid_fd,
     sk_family = AF_UNSPEC, sk_type = SOCK_DGRAM, main_msg_buffer = [], unix_peers = []\<rparr>"

definition blank_forked :: "history \<Rightarrow> SocketUnixForked" where
  "blank_forked h = \<lparr>trace = h, fds = {}, fd_max = 1, selected_fds = [], sk_fd = FileDescriptor_ctor invalid_fd,
     sk_family = AF_UNSPEC, sk_type = SOCK_DGRAM, main_msg_buffer = [], fk_parent = 0, fk_pipe = FileDescriptor_ctor invalid_fd,
     fk_named_pipe = FileDescriptor_ctor invalid_fd, fk_mq = 0, fk_peer_mq = 0, fk_shm = FileDescriptor_ctor invalid_fd,
     fk_shm_id = 0, fk_shm_mmap = 0, fk_shm_shmat = 0, fk_sem_named = 0, fk_sem_unnamed = 0\<rparr>"

definition blank_sctp :: "NetworkConfiguration \<Rightarrow> history \<Rightarrow> SocketSctp" where
  "blank_sctp config h = \<lparr>trace = h, fds = {}, fd_max = 1, selected_fds = [], sk_fd = FileDescriptor_ctor invalid_fd,
     sk_family = AF_UNSPEC, sk_type = SOCK_SEQPACKET, main_msg_buffer = [], peers_mtx = 0, sctp_peers = [],
     sctp_config = config\<rparr>"

definition networkTask :: "nat \<Rightarrow> env \<Rightarrow> NetworkTaskParams \<Rightarrow> history \<Rightarrow> (error + bool) \<times> history" where
  "networkTask n E p h =
     createSocket (np_config p) (network_run blank_tcp n E p h) (network_run blank_udp n E p h)
       (network_run blank_unix n E p h) (network_run blank_forked n E p h) (network_run (blank_sctp (np_config p)) n E p h)"


section \<open>The contract with the sockets\<close>

definition so_ops :: "'z world_scheme socket_object \<Rightarrow> env \<Rightarrow> ('z world_scheme, unit) io set" where
  "so_ops V E = range (so_listen V E) \<union> range (so_connect V E) \<union> range (so_send V E) \<union> range (so_task V E) \<union> {so_receive V E}"

lemma so_opsI [simp]:
  "so_listen V E n \<in> so_ops V E" "so_connect V E r \<in> so_ops V E" "so_send V E m \<in> so_ops V E"
  "so_task V E t \<in> so_ops V E" "so_receive V E \<in> so_ops V E"
  by (simp_all add: so_ops_def)

locale network_socket =
  socket_class good "\<lambda>E (_ :: unit). so_ctor V E" "so_ops V" "so_dtor V" trace inv
  for good :: "env \<Rightarrow> bool" and V :: "'z world_scheme socket_object" and inv :: "'z world_scheme \<Rightarrow> bool" +
  assumes inv_stable: "stable inv"
begin

lemma keeps_op: "good E \<Longrightarrow> m \<in> so_ops V E \<Longrightarrow> keeps inv m"
  by (rule ops_inv)

lemma keeps_silent: "quiet m \<Longrightarrow> keeps inv m"
  by (rule quiet_keeps [OF _ inv_stable])

lemma keeps_chatOrQuit: "good E \<Longrightarrow> keeps inv (chatOrQuit V E)"
  unfolding chatOrQuit_def chat_def
  by (intro keeps_intros) (simp_all add: keeps_op keeps_silent quiet_intros)

lemma keeps_launch: "good E \<Longrightarrow> keeps inv (launch V E)"
  unfolding launch_def
  by (intro keeps_intros keeps_run_tasks) (auto simp: keeps_op intro: keeps_intros split: option.split)

lemma keeps_network_loop: "good E \<Longrightarrow> keeps inv (network_loop n V E forever die msg)"
proof (induction n arbitrary: msg)
  case 0
  then show ?case by (simp add: keeps_intros)
next
  case (Suc n)
  have "keeps inv (sys E C_now)" by (rule keeps_silent) (simp add: quiet_intros)
  then show ?case
    unfolding network_loop.simps
    by (intro keeps_intros keeps_launch keeps_chatOrQuit Suc keeps_op [OF Suc.prems]) simp_all
qed

lemma network_body_closes:
  assumes "good E" and "accounts (trace s) {}"
  shows "wp (network_body n V E p) (\<lambda>ended t. if ended then accounts (trace t) {} else inv t)
    (\<lambda>e t. is_exception e \<longrightarrow> accounts (trace t) {}) s"
proof -
  let ?R = "\<lambda>e t. is_exception e \<longrightarrow> accounts (trace t) {}"
  let ?work = "thenE (establishSocket V E (np_config p)) (bindE (sys E C_now) (\<lambda>now.
          network_loop n V E (np_lifetime p = 0) (rv now + np_lifetime p) []))"
  have now: "keeps inv (sys E C_now)" by (rule keeps_silent) (simp add: quiet_intros)
  have work: "keeps inv ?work"
    unfolding establishSocket_def
    by (intro keeps_intros now keeps_network_loop assms(1) keeps_op [OF assms(1)]) simp_all
  have undo: "wp (so_dtor V E) (\<lambda>_. ?R e) (\<lambda>_. ?R Terminate) t" if "inv t" for e t
    by (rule wp_mono [OF dtor_closes [OF assms(1) that]]) simp_all
  have close: "wp (so_dtor V E) (\<lambda>_. wp (return True) (\<lambda>ended t. if ended then accounts (trace t) {} else inv t) ?R) ?R t"
    if "inv t" for t
    by (rule wp_mono [OF dtor_closes [OF assms(1) that]]) (simp_all add: wp_return)
  have q: "quiet (startTask E (np_delay p) :: ('z world_scheme, unit) io)"
    unfolding startTask_def by (intro quiet_intros) simp_all
  have main: "wp (so_ctor V E) (\<lambda>_. wp (bindE (on_unwind ?work (so_dtor V E))
        (\<lambda>ended. if ended then thenE (so_dtor V E) (return True) else return False))
        (\<lambda>ended t. if ended then accounts (trace t) {} else inv t) ?R) ?R t"
    if "accounts (trace t) {}" for t
  proof (rule wp_mono [OF ctor_inv [OF assms(1) that]])
    fix x and u :: "'z world_scheme"
    assume "inv u"
    show "wp (bindE (on_unwind ?work (so_dtor V E)) (\<lambda>ended. if ended then thenE (so_dtor V E) (return True) else return False))
        (\<lambda>ended t. if ended then accounts (trace t) {} else inv t) ?R u"
      unfolding wp_bindE wp_on_unwind
    proof (rule wp_mono [OF keepsD [OF work \<open>inv u\<close>]])
      fix ended v
      assume "inv v"
      then show "wp (if ended then thenE (so_dtor V E) (return True) else return False)
          (\<lambda>ended t. if ended then accounts (trace t) {} else inv t) ?R v"
        using close by (simp add: wp_return wp_thenE)
    next
      fix e v
      assume "safely inv e v"
      then show "(if is_exception e then wp (so_dtor V E) (\<lambda>_. ?R e) (\<lambda>_. ?R Terminate) else ?R e) v"
        using undo [of v e] by (cases "is_exception e") (simp_all add: safely_def)
    qed
  qed
  show ?thesis
    unfolding network_body_def wp_thenE [of "startTask E d" for d] wp_thenE [of "so_ctor V E"]
    by (rule quiet_wp [OF q]) (use assms(2) main in simp_all)
qed

text \<open>However the task ends, it leaves nothing open; while it runs, what is open is accounted for.\<close>

lemma network_run_closes:
  assumes "good E" and "trace (blank h) = h" and "accounts h {}"
  shows "case network_run blank n E p h V of
      (Inr True, h') \<Rightarrow> accounts h' {} | (Inr False, _) \<Rightarrow> True | (Inl e, h') \<Rightarrow> is_exception e \<longrightarrow> accounts h' {}"
proof -
  obtain r t where rt: "network_body n V E p (blank h) = (r, t)" by force
  have "wp (network_body n V E p) (\<lambda>ended t. if ended then accounts (trace t) {} else inv t)
    (\<lambda>e t. is_exception e \<longrightarrow> accounts (trace t) {}) (blank h)"
    by (rule network_body_closes [OF assms(1)]) (simp add: assms(2,3))
  then show ?thesis
    by (auto simp: wp_def rt network_run_def LOG_EXCEPTIONS_def split: sum.splits bool.splits option.splits)
qed

end


section \<open>Every class of sockets fulfils it\<close>

text \<open>
  An object whose operations are those of its class, but for scheduled tasks it does not have.
\<close>

lemma network_socketI:
  fixes ctor :: "env \<Rightarrow> 'a \<Rightarrow> ('z world_scheme, unit) io"
  assumes cls: "socket_class good ctor ops dtor trace I" and "stable I"
    and "\<And>E. so_ctor V E = ctor E a" and "\<And>E. so_dtor V E = dtor E"
    and "\<And>E m. m \<in> so_ops V E \<Longrightarrow> m \<in> ops E \<or> m = return ()"
  shows "network_socket good V I"
proof unfold_locales
  fix E m
  assume "good E" and "m \<in> so_ops V E"
  then show "keeps I m"
    using socket_class.ops_inv [OF cls, of E m] assms(5) [of m E] keeps_return [of I "()"] by auto
qed (use assms(2-4) socket_class.ctor_inv [OF cls] socket_class.dtor_closes [OF cls] in auto)

lemma connect_task_range: "connect_task connect t \<in> range connect \<or> connect_task connect t = return ()"
  by (cases t) auto

lemma sctp_inv_stable: "stable sctp_inv"
  by (auto simp: stable_def sctp_inv_def)

lemma unix_inv_stable: "stable unix_inv"
  by (auto simp: stable_def unix_inv_def)

lemma forked_inv_stable: "stable forked_inv"
  by (auto simp: stable_def)

interpretation tcp_net: network_socket descriptors_ok "tcp_object locals" tcp_inv for locals
  by (rule network_socketI [OF tcp.socket_class_axioms tcp_inv_stable, of _ "(locals, SOCK_STREAM)"])
    (use connect_task_range in \<open>auto simp: tcp_object_def so_ops_def tcp_ops_def\<close>)

interpretation dccp_net: network_socket descriptors_ok "dccp_object locals" tcp_inv for locals
  by (rule network_socketI [OF dccp.socket_class_axioms tcp_inv_stable, of _ locals])
    (use connect_task_range in \<open>auto simp: dccp_object_def so_ops_def dccp_ops_def\<close>)

interpretation udp_net: network_socket descriptors_ok "udp_object locals protocol" udp_inv for locals protocol
  by (rule network_socketI [OF udp.socket_class_axioms udp_inv_stable, of _ "(locals, protocol)"])
    (auto simp: udp_object_def so_ops_def udp_ops_def)

interpretation unix_net: network_socket descriptors_ok unix_object unix_inv
  by (rule network_socketI [OF unix.socket_class_axioms unix_inv_stable, of _ "()"])
    (use connect_task_range in \<open>auto simp: unix_object_def so_ops_def unix_ops_def\<close>)

interpretation forked_net: network_socket forked_good forked_object forked_inv
  by (rule network_socketI [OF forked.socket_class_axioms forked_inv_stable, of _ "()"])
    (use connect_task_range in \<open>auto simp: forked_object_def so_ops_def forked_ops_def\<close>)

interpretation sctp_net: network_socket sctp_good "sctp_object config" sctp_inv for config
  by (rule network_socketI [OF sctp.socket_class_axioms sctp_inv_stable, of _ config])
    (use connect_task_range in \<open>auto simp: sctp_object_def so_ops_def sctp_ops_def\<close>)

section \<open>Sockets and time\<close>

text \<open>
  Time passes: after enough calls the clock has reached any given time. A \<open>timed_socket\<close> takes no call back, so
  every round of the loop brings the end of the lifetime closer.
\<close>

definition time_passes :: "env \<Rightarrow> bool" where
  "time_passes E \<longleftrightarrow> (\<forall>T. \<exists>k. \<forall>h. k \<le> length h \<longrightarrow> T \<le> rv (os E h C_now))"

lemma grows_length: "grows m \<Longrightarrow> wp m (\<lambda>_ t. length (trace s) \<le> length (trace t)) (\<lambda>_ _. True) s"
  by (rule wp_mono [OF grows_wp]) auto

locale timed_socket = network_socket good V inv
  for good :: "env \<Rightarrow> bool" and V :: "'z world_scheme socket_object" and inv :: "'z world_scheme \<Rightarrow> bool" +
  assumes adds_op: "m \<in> so_ops V E \<Longrightarrow> only (\<lambda>_. True) m"
begin

lemma grows_round: "grows (launch V E)" "grows (so_receive V E)" "grows (chatOrQuit V E)"
  unfolding launch_def chatOrQuit_def chat_def
  by (rule only_grows [of "\<lambda>_. True"], intro only_intros adds_op [of _ E]; simp)+

lemma network_loop_ends:
  assumes "\<And>h. k \<le> length h \<Longrightarrow> time_to_die \<le> rv (os E h C_now)" and "k \<le> length (trace s) + n"
  shows "wp (network_loop (Suc n) V E False time_to_die msg) (\<lambda>ended _. ended) (\<lambda>_ _. True) s"
  using assms(2)
proof (induction n arbitrary: s msg)
  case 0
  then have "\<not> rv (os E (trace s) C_now) < time_to_die" using assms(1) [of "trace s"] by simp
  then show ?case by (simp add: wp_simps)
next
  case (Suc n)
  let ?s = "s\<lparr>trace := (C_now, os E (trace s) C_now) # trace s\<rparr>"
  have "wp (launch V E) (\<lambda>_. wp (so_receive V E) (\<lambda>_. wp (chatOrQuit V E)
      (\<lambda>m. wp (network_loop (Suc n) V E False time_to_die m) (\<lambda>ended _. ended) (\<lambda>_ _. True)) (\<lambda>_ _. True)) (\<lambda>_ _. True))
      (\<lambda>_ _. True) ?s"
  proof (rule wp_mono [OF grows_length [OF grows_round(1)]])
    fix x :: unit and t :: "'z world_scheme"
    assume t: "length (trace ?s) \<le> length (trace t)"
    show "wp (so_receive V E) (\<lambda>_. wp (chatOrQuit V E)
      (\<lambda>m. wp (network_loop (Suc n) V E False time_to_die m) (\<lambda>ended _. ended) (\<lambda>_ _. True)) (\<lambda>_ _. True)) (\<lambda>_ _. True) t"
    proof (rule wp_mono [OF grows_length [OF grows_round(2)]])
      fix x :: unit and u :: "'z world_scheme"
      assume u: "length (trace t) \<le> length (trace u)"
      show "wp (chatOrQuit V E) (\<lambda>m. wp (network_loop (Suc n) V E False time_to_die m) (\<lambda>ended _. ended) (\<lambda>_ _. True))
          (\<lambda>_ _. True) u"
        by (rule wp_mono [OF grows_length [OF grows_round(3)]], rule Suc.IH) (use Suc.prems t u in simp_all)
    qed simp
  qed simp
  then show ?case
    by (simp add: network_loop.simps(2) [of "Suc n"] wp_bindE wp_thenE wp_return wp_sys del: network_loop.simps)
qed

lemma network_run_ends:
  assumes "time_passes E" and "np_lifetime p \<noteq> 0"
  shows "\<exists>k. \<forall>n\<ge>k. fst (network_run blank n E p h V) \<noteq> Inr False"
proof -
  have "\<exists>k. \<forall>n\<ge>k. wp (network_body n V E p) (\<lambda>ended _. ended) (\<lambda>_ _. True) (blank h)"
  proof -
    obtain r1 s1 where 1: "startTask E (np_delay p) (blank h) = (r1, s1)" by force
    obtain r2 s2 where 2: "so_ctor V E s1 = (r2, s2)" by force
    obtain r3 s3 where 3: "establishSocket V E (np_config p) s2 = (r3, s3)" by force
    let ?die = "rv (os E (trace s3) C_now) + np_lifetime p"
    obtain k where k: "\<And>h. k \<le> length h \<Longrightarrow> ?die \<le> rv (os E h C_now)"
      using assms(1) unfolding time_passes_def by blast
    have at: "wp (startTask E (np_delay p)) Q R (blank h) = (case r1 of Inl e \<Rightarrow> R e s1 | Inr x \<Rightarrow> Q x s1)"
        "wp (so_ctor V E) Q R s1 = (case r2 of Inl e \<Rightarrow> R e s2 | Inr x \<Rightarrow> Q x s2)"
        "wp (establishSocket V E (np_config p)) Q R s2 = (case r3 of Inl e \<Rightarrow> R e s3 | Inr x \<Rightarrow> Q x s3)" for Q R
      by (simp_all add: wp_def 1 2 3)
    have any: "wp (so_dtor V E) (\<lambda>_ _. True) (\<lambda>_ _. True) t" for t by (simp add: wp_snd)
    have loop: "wp (network_loop n V E False ?die [])
        (\<lambda>ended. wp (if ended then thenE (so_dtor V E) (return True) else return False) (\<lambda>ended _. ended) (\<lambda>_ _. True))
        (\<lambda>e. if is_exception e then wp (so_dtor V E) (\<lambda>_ _. True) (\<lambda>_ _. True) else (\<lambda>_. True)) t"
      if "Suc k \<le> n" for n t
    proof -
      note n = that
      obtain m where "n = Suc m" "k \<le> m" using n by (cases n) auto
      then show ?thesis
        by (simp del: network_loop.simps)
          (rule wp_mono [OF network_loop_ends [OF k]], use any in \<open>auto simp: wp_thenE wp_return\<close>)
    qed
    have "wp (network_body n V E p) (\<lambda>ended _. ended) (\<lambda>_ _. True) (blank h)" if "Suc k \<le> n" for n
      using loop [OF that] any assms(2)
      unfolding network_body_def wp_thenE wp_bindE wp_on_unwind
      by (simp add: at wp_sys split: sum.split)
    then show ?thesis by blast
  qed
  then show ?thesis
    by (fastforce simp: network_run_def LOG_EXCEPTIONS_def wp_def split: prod.splits sum.splits option.splits)
qed

end

text \<open>
  A \<open>mute_socket\<close> leaves the mailbox to the task: neither its constructor nor its operations nor its destructor
  call \<open>chat\<close>. What a computation only adds to the history makes it a \<open>timed_socket\<close>, too.
\<close>

locale mute_socket = network_socket good V inv
  for good :: "env \<Rightarrow> bool" and V :: "'z world_scheme socket_object" and inv :: "'z world_scheme \<Rightarrow> bool" +
  assumes mute_op: "m \<in> so_ops V E \<Longrightarrow> mute m"
    and mute_ctor: "mute (so_ctor V E)" and mute_dtor: "mute (so_dtor V E)"

sublocale mute_socket \<subseteq> timed_socket good V inv
  by unfold_locales (rule only_mono [OF mute_op], simp_all)

lemma mute_connect_task: "(\<And>r. mute (connect r)) \<Longrightarrow> mute (connect_task connect t)"
  by (cases t) (simp_all add: only_intros)

lemmas object_defs = so_ops_def tcp_object_def dccp_object_def udp_object_def unix_object_def forked_object_def sctp_object_def

interpretation tcp_mute: mute_socket descriptors_ok "tcp_object locals" tcp_inv for locals
  by unfold_locales (auto simp: object_defs intro!: mute_connect_task mute_tcp mute_Socket)

interpretation dccp_mute: mute_socket descriptors_ok "dccp_object locals" tcp_inv for locals
  by unfold_locales (auto simp: object_defs intro!: mute_connect_task mute_tcp mute_Socket)

interpretation udp_mute: mute_socket descriptors_ok "udp_object locals protocol" udp_inv for locals protocol
  by unfold_locales (auto simp: object_defs intro!: mute_udp mute_udp_task mute_Socket)

interpretation unix_mute: mute_socket descriptors_ok unix_object unix_inv
  by unfold_locales (auto simp: object_defs intro!: mute_connect_task mute_unix mute_Socket)

interpretation forked_mute: mute_socket forked_good forked_object forked_inv
  by unfold_locales (auto simp: object_defs intro!: mute_connect_task mute_forked mute_Socket)

interpretation sctp_mute: mute_socket sctp_good "sctp_object config" sctp_inv for config
  by unfold_locales (auto simp: object_defs intro!: mute_connect_task mute_sctp mute_Socket)

section \<open>Properties\<close>

text \<open>What the task relies on, for the protocol it is asked for.\<close>

definition network_good :: "env \<Rightarrow> NetworkProtocol \<Rightarrow> bool" where
  "network_good E protocol =
     (case protocol of SCTP \<Rightarrow> sctp_good E | UnixForked \<Rightarrow> forked_good E | _ \<Rightarrow> descriptors_ok E)"



definition demo_config :: "NetworkProtocol \<Rightarrow> NetworkConfiguration" where
  "demo_config protocol = \<lparr>cfg_locals = [demo_addr], cfg_remotes = [demo_addr], cfg_protocol = protocol, cfg_path_mtu = 0,
     cfg_max_seg = 0, cfg_big_msg_size = 0\<rparr>"

definition demo_params :: "NetworkProtocol \<Rightarrow> NetworkTaskParams" where
  "demo_params protocol = \<lparr>np_config = demo_config protocol, np_name = ''network'', np_delay = 0, np_lifetime = 5\<rparr>"


text \<open>
  The task that takes the goodbye from the mailbox ends in the same round, for every class of sockets,
  and its last call puts the goodbye back, so that the next task finds it. The socket is not asked to send it.
\<close>

theorem network_task_quits:
  assumes "\<And>h. odata (os E h (C_chat [])) = quit_msg"
  shows "wp (network_loop (Suc (Suc n)) V E True time_to_die [])
    (\<lambda>ended t. ended \<and> (\<exists>r h. trace t = (C_chat quit_msg, r) # h)) (\<lambda>_ _. True) s"
proof -
  have q: "quit_msg \<noteq> []" by (simp add: quit_msg_def)
  have end': "wp (chatOrQuit V E) (\<lambda>msg. wp (network_loop (Suc n) V E True time_to_die msg)
      (\<lambda>ended t. ended \<and> (\<exists>r h. trace t = (C_chat quit_msg, r) # h)) (\<lambda>_ _. True)) (\<lambda>_ _. True) t" for t
    using q by (simp add: chatOrQuit_def chat_def wp_simps assms)
  have true: "wp m (\<lambda>_ _. True) (\<lambda>_ _. True) t" for m :: "('a world_scheme, unit) io" and t
    by (simp add: wp_snd)
  have "wp (launch V E) (\<lambda>_. wp (so_receive V E) (\<lambda>_. wp (chatOrQuit V E) (\<lambda>msg. wp (network_loop (Suc n) V E True time_to_die msg)
      (\<lambda>ended t. ended \<and> (\<exists>r h. trace t = (C_chat quit_msg, r) # h)) (\<lambda>_ _. True)) (\<lambda>_ _. True)) (\<lambda>_ _. True)) (\<lambda>_ _. True) s"
    by (rule wp_mono [OF true], rule wp_mono [OF true], rule end') simp_all
  then show ?thesis
    by (simp add: network_loop.simps(2) [of "Suc n"] wp_bindE wp_thenE wp_return q [symmetric] del: network_loop.simps)
qed


theorem network_task_quits_witness:
  "wp (network_loop 2 unix_object ((demo_env 16 [] [])\<lparr>os := \<lambda>h c. if c = C_chat [] then (reply 0)\<lparr>odata := ''q''\<rparr>
       else demo_os [] [] h c\<rparr>) True 0 [])
    (\<lambda>ended t. ended \<and> (\<exists>r h. trace t = (C_chat quit_msg, r) # h)) (\<lambda>_ _. True) (blank_unix [])"
  unfolding numeral_2_eq_2 by (rule network_task_quits) (simp add: quit_msg_def)



section \<open>The program\<close>

text \<open>
  \<open>runPredefinedConfig\<close> and \<open>runNetwork\<close> of \<open>main.cpp\<close>: which tasks are started. \<open>IPSocket\<close>'s port is an unsigned
  16-bit integer.
\<close>

definition localhost :: string where "localhost = ''127.0.0.1''"
definition s1_port :: "16 word" where "s1_port = 36412"
definition x2_port :: "16 word" where "x2_port = 36422"

definition add_local :: "IPSocket list \<Rightarrow> NetworkConfiguration \<Rightarrow> NetworkConfiguration" where
  "add_local ips cfg = cfg\<lparr>cfg_locals := cfg_locals cfg @ ips\<rparr>"

definition add_remote :: "IPSocket list \<Rightarrow> NetworkConfiguration \<Rightarrow> NetworkConfiguration" where
  "add_remote ips cfg = cfg\<lparr>cfg_remotes := cfg_remotes cfg @ ips\<rparr>"

definition bump_last_remote :: "16 word \<Rightarrow> NetworkConfiguration \<Rightarrow> NetworkConfiguration" where
  "bump_last_remote d cfg =
     (let ip = last (cfg_remotes cfg) in
      cfg\<lparr>cfg_remotes := butlast (cfg_remotes cfg) @ [IPSocket (addr ip) (port ip + d) (family ip)]\<rparr>)"

definition runPredefinedConfig :: "env \<Rightarrow> NetworkConfiguration \<Rightarrow> NetworkTaskParams list" where
  "runPredefinedConfig E config =
     (let mme = add_local [IPSocket_ctor E localhost s1_port] config;
          enb1 = add_remote [hd (cfg_locals mme)] (add_local [IPSocket_ctor E localhost x2_port] config);
          enb2 = bump_last_remote 17 (add_remote (cfg_locals enb1)
                   (add_remote [hd (cfg_locals mme)] (add_local [IPSocket_ctor E localhost (x2_port + 1)] config))) in
      [\<lparr>np_config = mme, np_name = ''MME'', np_delay = 0, np_lifetime = 0\<rparr>,
       \<lparr>np_config = enb1, np_name = ''eNB1'', np_delay = 100, np_lifetime = 0\<rparr>,
       \<lparr>np_config = enb2, np_name = ''eNB2'', np_delay = 200, np_lifetime = 13000\<rparr>])"

definition runNetwork :: "env \<Rightarrow> NetworkConfiguration \<Rightarrow> NetworkTaskParams list" where
  "runNetwork E config =
     (if cfg_locals config \<noteq> [] \<or> isUnix (cfg_protocol config)
      then [\<lparr>np_config = config, np_name = ''network'', np_delay = 0, np_lifetime = 0\<rparr>]
      else runPredefinedConfig E config)"

text \<open>
  \<open>main\<close> starts the input thread first; the command line is parsed, and may be refused, when
  \<open>runNetwork\<close> is called.
\<close>

datatype thread = Io_thread | Network_thread NetworkTaskParams

definition main_threads :: "env \<Rightarrow> NetworkProtocol \<Rightarrow> string list \<Rightarrow> thread list \<times> error option" where
  "main_threads E uninit args =
     (case NetworkConfiguration_ctor E uninit args of
        Inl e \<Rightarrow> ([Io_thread], Some e)
      | Inr config \<Rightarrow> (Io_thread # map Network_thread (runNetwork E config), None))"


lemma port_IPSocket_ctor [simp]: "port (IPSocket_ctor E a p) = p"
  by (simp add: IPSocket_ctor_def)

text \<open>
  C21. No task is started that would read the first of no local addresses: every task whose class binds to an
  address has one, and all use the protocol that was asked for. Without local addresses on the command line
  the three tasks bind to three different ports, both eNBs connect to the MME's address, and the second
  remote of eNB2 is an address none of them is bound to.
\<close>

theorem started_tasks:
  fixes E config
  defines "ps \<equiv> runNetwork E config"
  shows "(\<forall>p\<in>set ps. cfg_protocol (np_config p) = cfg_protocol config \<and>
      (isUnix (cfg_protocol config) \<or> cfg_locals (np_config p) \<noteq> [])) \<and>
    (cfg_locals config = [] \<and> \<not> isUnix (cfg_protocol config) \<longrightarrow>
      length ps = 3 \<and> distinct (map (\<lambda>p. map port (cfg_locals (np_config p))) ps) \<and>
      hd (cfg_locals (np_config (ps ! 0))) \<in> set (cfg_remotes (np_config (ps ! 1))) \<inter> set (cfg_remotes (np_config (ps ! 2))) \<and>
      (\<forall>p\<in>set ps. port (last (cfg_remotes (np_config (ps ! 2)))) \<notin> port ` set (cfg_locals (np_config p))))"
proof (cases "cfg_locals config \<noteq> [] \<or> isUnix (cfg_protocol config)")
  case True
  then show ?thesis by (auto simp: ps_def runNetwork_def)
next
  case False
  then show ?thesis
    by (simp add: ps_def runNetwork_def runPredefinedConfig_def add_local_def add_remote_def bump_last_remote_def Let_def
        s1_port_def x2_port_def butlast_append)
qed

theorem started_tasks_witness:
  "port (last (cfg_remotes (np_config (runNetwork (demo_env 16 [] []) ((demo_config TCP)\<lparr>cfg_locals := []\<rparr>) ! 2)))) \<notin>
     port ` set (cfg_locals (np_config (runNetwork (demo_env 16 [] []) ((demo_config TCP)\<lparr>cfg_locals := []\<rparr>) ! 1)))"
proof -
  let ?c = "(demo_config TCP)\<lparr>cfg_locals := []\<rparr>" and ?E = "demo_env 16 [] []"
  have "cfg_locals ?c = []" "\<not> isUnix (cfg_protocol ?c)" by (simp_all add: demo_config_def isUnix_def)
  with started_tasks [where E = ?E and config = ?c]
  have *: "length (runNetwork ?E ?c) = 3"
    "\<forall>p\<in>set (runNetwork ?E ?c). port (last (cfg_remotes (np_config (runNetwork ?E ?c ! 2)))) \<notin> port ` set (cfg_locals (np_config p))"
    by blast+
  then show ?thesis by simp
qed

end
