(* ===== verification/OpenDescriptors.thy ===== *)
theory OpenDescriptors
  imports DescriptorUse NetworkTask
begin

text \<open>
  Every class of sockets works on open descriptors only, and so does every network task, from the start to
  the end, whatever the kernel does and however it ends.
\<close>

section \<open>Rules for methods\<close>

lemma careful_last: "careful I m \<Longrightarrow> (\<And>x. on {} (f x)) \<Longrightarrow> careful I (bindE m f)"
  by (rule careful_bindE [where J = "\<lambda>_ _. True"]) (auto intro: careful_none simp: wp_def split: prod.split sum.split)

lemma careful_last_call: "(\<And>s. I s \<Longrightarrow> uses c \<subseteq> live (trace s)) \<Longrightarrow> (\<And>r. on {} (f r)) \<Longrightarrow> careful I (bindE (sys E c) f)"
  by (rule careful_last [OF careful_sys])

lemma careful_last_then: "careful I m \<Longrightarrow> on {} n \<Longrightarrow> careful I (thenE m n)"
  unfolding thenE_def by (rule careful_last)

text \<open>An attempt whose failure is ignored makes the calls of what is attempted.\<close>

lemma attempt_state: "snd (catch_runtime m (\<lambda>_. return ()) s) = snd (m s)"
  by (simp add: catch_runtime_def return_def split: prod.split sum.split error.split)

lemma quiet_attempt [quiet_intros]: "quiet m \<Longrightarrow> quiet (catch_runtime m (\<lambda>_. return ()))"
  by (simp add: quiet_def attempt_state)

text \<open>One call or more for each of some open descriptors.\<close>

lemma careful_each_open:
  assumes "\<And>p. careful (\<lambda>s. k p \<in> live (trace s)) (f p)" and "\<And>p F. keeps (\<lambda>s. F \<subseteq> live (trace s)) (f p)"
    and "\<And>s p. I s \<Longrightarrow> p \<in> set (g s) \<Longrightarrow> k p \<in> live (trace s)"
  shows "careful I (bindE (gets g) (for_each f))"
proof (rule careful_gets)
  fix ps
  have "careful (\<lambda>s. k ` set ps \<subseteq> live (trace s)) (for_each f ps)"
    by (intro careful_for_each assms(2)) (auto intro: careful_mono [OF assms(1)])
  then show "careful (\<lambda>s. I s \<and> g s = ps) (for_each f ps)"
    by (rule careful_mono) (use assms(3) in auto)
qed

lemma stable_live: "stable (\<lambda>s. F \<subseteq> live (trace s))"
  by (simp add: stable_def live_neutral)

text \<open>Descriptors just opened.\<close>

lemma careful_own: "quiet m \<Longrightarrow> on {n} m \<Longrightarrow> (\<And>s. I s \<Longrightarrow> n \<in> live (trace s)) \<Longrightarrow> careful I m"
  by (rule careful_quiet [of m "{n}"]) auto

lemma careful_opening_with:
  assumes "checks_ok E" and "\<And>s. I s \<Longrightarrow> uses c \<subseteq> live (trace s)" and "\<And>s r. I s \<Longrightarrow> 0 \<le> rv r \<Longrightarrow> rv r \<in> opened (c, r)"
    and "\<And>s h. I s \<Longrightarrow> K (s\<lparr>trace := h\<rparr>)" and "\<And>r n. careful (\<lambda>s. K s \<and> n \<in> live (trace s)) (f r n)"
  shows "careful I (bindE (sys E c) (\<lambda>r. bindE (checked E name (rv r < 0) (rv r)) (f r)))"
proof (rule careful_bindE [where J = "\<lambda>r s. K s \<and> (0 \<le> rv r \<longrightarrow> rv r \<in> live (trace s))"])
  show "careful I (sys E c)" by (rule careful_sys) (rule assms(2))
  show "wp (sys E c) (\<lambda>r s. K s \<and> (0 \<le> rv r \<longrightarrow> rv r \<in> live (trace s))) (\<lambda>_ _. True) s" if "I s" for s
    using assms(3,4) [OF that] by (simp add: wp_simps)
  show "careful (\<lambda>s. K s \<and> (0 \<le> rv r \<longrightarrow> rv r \<in> live (trace s))) (bindE (checked E name (rv r < 0) (rv r)) (f r))" for r
    by (rule careful_bindE [where J = "\<lambda>n s. K s \<and> n \<in> live (trace s)"])
      (use assms(5) in \<open>auto simp: careful_basic wp_simps checks_ok_eq [OF assms(1)]\<close>)
qed

lemma careful_opening:
  assumes "checks_ok E" and "\<And>s. I s \<Longrightarrow> uses c \<subseteq> live (trace s)" and "\<And>s r. I s \<Longrightarrow> 0 \<le> rv r \<Longrightarrow> rv r \<in> opened (c, r)"
    and "\<And>r n. careful (\<lambda>s. n \<in> live (trace s)) (f r n)"
  shows "careful I (bindE (sys E c) (\<lambda>r. bindE (checked E name (rv r < 0) (rv r)) (f r)))"
  by (rule careful_opening_with [OF assms(1-3), where K = "\<lambda>_. True"]) (use assms(4) in simp_all)

lemma careful_gets_known: "(\<And>s. I s \<Longrightarrow> g s = v) \<Longrightarrow> careful I (f v) \<Longrightarrow> careful I (bindE (gets g) f)"
  by (simp add: careful_def bindE_def gets_def)

abbreviation own_fd_open :: "'z Socket_scheme \<Rightarrow> bool" where
  "own_fd_open s \<equiv> raw_fd (sk_fd s) \<in> live (trace s)"

lemma careful_construct:
  assumes "descriptors_ok E" and "careful own_fd_open m"
  shows "careful (\<lambda>s. accounts (trace s) {}) (thenE (Socket_ctor E locals type protocol fam False) (on_unwind m (Socket_dtor E)))"
proof (rule careful_thenE [OF careful_none [OF on_creation] _ careful_on_unwind [OF assms(2) on_closing(5)]])
  fix s :: "'a Socket_scheme"
  assume s: "accounts (trace s) {}"
  show "wp (Socket_ctor E locals type protocol fam False) (\<lambda>_. own_fd_open) (\<lambda>_ _. True) s"
    unfolding Socket_ctor_def Socket_init_def
    by (simp only: wp_thenE wp_modify if_True not_False_eq_True, rule wp_Socket_create [of _ _ "{}"])
      (use assms(1) s in \<open>auto simp: descriptors_ok_def FileDescriptor_ctor_def invalid_fd_def accounts_def\<close>)
qed

text \<open>The rest of a constructor works on the descriptor just made.\<close>

lemma careful_on_own_fd:
  "(\<And>fd. quiet (m fd)) \<Longrightarrow> (\<And>fd. on {fd} (m fd)) \<Longrightarrow> careful own_fd_open (bindE (gets (\<lambda>s. raw_fd (sk_fd s))) m)"
  by (rule careful_gets) (auto intro: careful_own)

section \<open>Stream sockets\<close>

lemma tcp_inv_live:
  assumes "tcp_inv s"
  shows "raw_fd (sk_fd s) \<in> live (trace s)" and "p \<in> set (tcp_peers s) \<Longrightarrow> raw_fd (peer_fd (snd p)) \<in> live (trace s)"
    and "fd \<in> fst ` set (tcp_peers s) \<Longrightarrow> fd \<in> live (trace s)"
  using assms by (auto simp: tcp_inv_def tcp_shape_def accounts_def peer_ok_def FileDescriptor_ctor_def)

lemma on_tcp [only_intros]:
  "on {fd} (tcp_configure E fd)" "on {fd} (tcp_bind E fd locals)" "on {raw_fd (peer_fd p)} (tcp_sendMessage E msg p)"
  "on F (tcp_emplace E d remote re)" "on F (tcp_peer_at fd)" "on F (tcp_erase E fd)"
  unfolding tcp_configure_def tcp_bind_def tcp_sendMessage_def tcp_emplace_def tcp_peer_at_def tcp_erase_def Let_def split_def
  by (intro only_intros only_modify; simp)+

lemma careful_tcp_lock: "careful tcp_inv m \<Longrightarrow> careful tcp_inv (with_lock E m)"
  by (rule careful_with_lock) simp_all

lemma careful_tcp_createConnectSocket: "checks_ok E \<Longrightarrow> careful I (tcp_createConnectSocket E)"
  unfolding tcp_createConnectSocket_def failedSocket_def Let_def
  by (rule careful_gets, rule careful_opening)
    (auto intro!: careful_on_unwind careful_own quiet_intros only_intros)

lemma careful_tcp_connect_one:
  assumes "descriptors_ok E"
  shows "careful tcp_inv (tcp_connect_one E remote)"
  unfolding tcp_connect_one_def
proof (rule careful_bindE [where J = "\<lambda>fd s. raw_fd fd \<in> live (trace s)"])
  show "careful tcp_inv (tcp_createConnectSocket E)"
    using assms by (intro careful_tcp_createConnectSocket) (simp add: descriptors_ok_def)
  show "wp (tcp_createConnectSocket E) (\<lambda>fd s. raw_fd fd \<in> live (trace s)) (\<lambda>_ _. True) s" if "tcp_inv s" for s
    using that by (elim tcp_invE) (rule wp_tcp_createConnectSocket [OF assms], auto simp: accounts_def)
  show "careful (\<lambda>s. raw_fd fd \<in> live (trace s))
      (thenE (on_unwind (Socket_connect_fd E (raw_fd fd) remote) (fd_dtor E fd)) (tcp_emplace E fd remote True))" for fd
  proof (rule careful_thenE [where J = "\<lambda>_. True"])
    show "careful (\<lambda>s. raw_fd fd \<in> live (trace s)) (on_unwind (Socket_connect_fd E (raw_fd fd) remote) (fd_dtor E fd))"
      by (rule careful_on_unwind [OF careful_own [OF quiet_Socket_connect_fd on_Socket(4)] on_closing(2)])
  qed (auto intro!: careful_none only_intros simp: wp_def split: prod.split sum.split)
qed

lemma careful_tcp_handleCommUp:
  assumes "descriptors_ok E"
  shows "careful tcp_inv (tcp_handleCommUp E)"
proof -
  have "careful tcp_inv (Socket_accept E)"
    unfolding Socket_accept_def Let_def split_def failedAccept_def
    by (rule careful_gets, rule careful_opening)
      (use assms tcp_inv_live(1) in \<open>auto intro!: careful_none only_intros simp: descriptors_ok_def\<close>)
  then show ?thesis
    unfolding tcp_handleCommUp_def
    by (intro careful_tcp_lock careful_last only_intros)
qed

text \<open>A handler that has found the peer knows that its descriptor is open.\<close>

lemma wp_tcp_peer_known:
  "wp (tcp_peer_at fd) (\<lambda>_ t. t = s \<and> fd \<in> fst ` set (tcp_peers s)) (\<lambda>_ _. True) s"
  by (force simp: tcp_peer_at_def wp_simps split: option.split dest: map_of_SomeD)

lemma wp_tcp_buffer_known: "wp (tcp_getBuffer E fd) (\<lambda>_ t. fd \<in> fst ` set (tcp_peers t)) (\<lambda>_ _. True) s"
  unfolding tcp_getBuffer_def with_lock_def lock_peers_def unlock_peers_def scoped_def
  by (auto simp: wp_simps tcp_peer_at_def split: option.split dest: map_of_SomeD intro: rev_image_eqI)

lemma tcp_buffer_live:
  assumes "tcp_inv s"
  shows "wp (tcp_getBuffer E fd) (\<lambda>_ t. tcp_inv t \<and> fd \<in> live (trace t)) (\<lambda>_ _. True) s"
  by (rule wp_mono [OF wp_conj [OF keepsD [OF keeps_tcp_getBuffer assms] wp_tcp_buffer_known]])
    (auto intro: tcp_inv_live(3))

lemma on_tcp_handlers [only_intros]:
  "on F (tcp_getBuffer E fd)" "on F (tcp_remove E fd)" "on F (tcp_handleGracefulShutdown E fd)" "on F (tcp_handleCommLost E fd)"
  unfolding tcp_getBuffer_def tcp_remove_def tcp_handleGracefulShutdown_def tcp_handleCommLost_def by (intro only_intros)+

lemma careful_tcp_buffer:
  "(\<And>b. careful (\<lambda>s. tcp_inv s \<and> fd \<in> live (trace s)) (f b)) \<Longrightarrow> careful tcp_inv (bindE (tcp_getBuffer E fd) f)"
  by (rule careful_bindE [OF careful_none tcp_buffer_live]) (rule on_tcp_handlers)

lemma careful_tcp_log:
  "careful (\<lambda>s. tcp_inv s \<and> fd \<in> live (trace s)) (bindE (Socket_getPeerAddresses E fd) (\<lambda>_. log_received E msg))"
  by (rule careful_own [of _ fd]) (auto intro!: quiet_intros only_intros)

lemma careful_tcp_receiveMessage: "careful tcp_inv (tcp_receiveMessage E fd)"
  unfolding tcp_receiveMessage_def by (intro careful_tcp_buffer careful_last_call only_intros only_modify) simp_all

lemma careful_tcp_handleMessage: "descriptors_ok E \<Longrightarrow> careful tcp_inv (tcp_handleMessage E fd)"
  unfolding tcp_handleMessage_def Let_def
  by (intro careful_gets_any careful_cases careful_tcp_handleCommUp careful_bind_kept careful_catch_runtime careful_then_kept
      careful_tcp_receiveMessage keeps_intros careful_basic careful_tcp_buffer careful_tcp_log careful_none on_tcp_handlers)

lemma careful_dccp_handleMessage: "descriptors_ok E \<Longrightarrow> careful tcp_inv (dccp_handleMessage E fd)"
  unfolding dccp_handleMessage_def Let_def
  by (intro careful_gets_any careful_cases careful_tcp_handleCommUp careful_then_kept careful_tcp_receiveMessage keeps_intros
      careful_tcp_buffer careful_tcp_log careful_none on_tcp_handlers)

lemma careful_tcp_selectFds: "careful tcp_inv (tcp_selectFds E)"
  unfolding tcp_selectFds_def
  by (intro careful_tcp_lock careful_selecting) (simp_all add: tcp_inv_live)

lemma careful_tcp_send: "careful tcp_inv (tcp_send E msg)"
  unfolding tcp_send_def
  by (intro careful_tcp_lock careful_each_open [where k = "\<lambda>p. raw_fd (peer_fd (snd p))"] quiet_keeps [OF _ stable_live])
    (auto intro!: careful_own quiet_intros only_intros simp: tcp_inv_live)

lemma careful_dccp_send: "careful tcp_inv (dccp_send E msg)"
  unfolding dccp_send_def
  by (intro careful_tcp_lock careful_each_open [where k = "\<lambda>p. raw_fd (peer_fd (snd p))"]
      quiet_keeps [OF _ stable_live])
    (auto intro!: careful_own quiet_intros only_intros simp: tcp_inv_live)

lemma careful_listen: "(\<And>s. I s \<Longrightarrow> raw_fd (sk_fd s) \<in> live (trace s)) \<Longrightarrow> careful I (Socket_listen E n)"
  unfolding Socket_listen_def by (intro careful_gets_any careful_cases careful_basic careful_gets careful_last_call only_intros) auto

lemma careful_tcp_ops: "descriptors_ok E \<Longrightarrow> m \<in> tcp_ops E \<union> dccp_ops E \<Longrightarrow> careful tcp_inv m"
proof -
  assume E: "descriptors_ok E"
  have "careful tcp_inv (tcp_receive E)" "careful tcp_inv (dccp_receive E)"
    unfolding tcp_receive_def dccp_receive_def
    by (intro careful_Socket_receive careful_tcp_selectFds keeps_tcp_selectFds careful_tcp_handleMessage careful_dccp_handleMessage
        keeps_tcp_handleMessage keeps_dccp_handleMessage E)+
  moreover have "careful tcp_inv (tcp_connect E remotes)" for remotes
    unfolding tcp_connect_def by (intro careful_tcp_lock careful_for_each careful_tcp_connect_one keeps_tcp_connect_one E)
  ultimately show "m \<in> tcp_ops E \<union> dccp_ops E \<Longrightarrow> careful tcp_inv m"
    unfolding tcp_ops_def dccp_ops_def
    using careful_tcp_send careful_dccp_send careful_listen [of tcp_inv] tcp_inv_live(1) by fastforce
qed

lemma careful_tcp_ctor:
  assumes "descriptors_ok E"
  shows "careful (\<lambda>s. accounts (trace s) {}) (tcp_ctor E lt)"
proof -
  have init: "careful own_fd_open (tcp_init_members E l t)" "keeps own_fd_open (tcp_init_members E l t)" for l t
    by (cases l; simp add: tcp_init_members_def careful_basic keeps_throw careful_modify keeps_modify)+
  show ?thesis
    unfolding tcp_ctor_def split_def
    by (intro careful_construct assms careful_then_kept init careful_on_own_fd quiet_intros only_intros)
qed

lemma on_tcp_dtor [only_intros]: "on F (tcp_dtor E)"
  unfolding tcp_dtor_def tcp_destroy_peers_def by (intro only_intros only_modify) simp

section \<open>Datagram sockets\<close>

lemma sole_fd_open: "sole_fd s \<Longrightarrow> own_fd_open s"
  by (elim exE conjE) (simp add: accounts_def)

lemma own_fd_live: "udp_inv s \<Longrightarrow> own_fd_open s" "unix_inv t \<Longrightarrow> own_fd_open t"
  by (rule sole_fd_open, simp add: udp_inv_def unix_inv_def)+

lemma on_udp_tasks [only_intros]:
  "on F (udp_schedulePing E remote)" "on F (udp_scheduleCommLost E remote)" "on F (task_lock E t)" "on F (udp_peer_ref remote)"
  unfolding udp_schedulePing_def udp_scheduleCommLost_def task_lock_def udp_peer_ref_def
  by (intro only_intros only_modify; simp)+

lemma on_udp [only_intros]:
  "on F (udp_handleCommUp E remote)" "on F (udp_resetTasks E remote)" "on F (udp_remove E remote)"
  unfolding udp_handleCommUp_def udp_resetTasks_def udp_remove_def udp_disableTasks_def
  by (intro only_intros only_modify; simp)+

lemma on_udp_connect [only_intros]: "on F (udp_connect E remotes)" "on F (udp_handleCommLost E remote)"
  unfolding udp_connect_def udp_handleCommLost_def by (intro only_intros)+

lemma careful_udp_send_to: "(\<And>s. I s \<Longrightarrow> own_fd_open s) \<Longrightarrow> careful I (udp_send_to E msg remote)"
  unfolding udp_send_to_def
  by (intro careful_bind_kept careful_basic keeps_lift_sum careful_gets careful_last_call only_intros) auto

lemma careful_udp_send: "careful udp_inv (udp_send E msg)"
  unfolding udp_send_def
  by (intro careful_gets_any careful_for_each careful_udp_send_to keeps_udp_quiet quiet_udp own_fd_live)

lemma careful_udp_dispatch:
  "careful own_fd_open (udp_dispatch E msg remote)"
  unfolding udp_dispatch_def udp_handleGracefulShutdown_def
  by (intro careful_cases careful_none [of "udp_remove E r" for r] careful_last_then careful_udp_send_to only_intros careful_basic)

text \<open>A socket whose only descriptor is its own keeps it open.\<close>

abbreviation stays_open :: "FileDescriptor \<Rightarrow> 'z Socket_scheme \<Rightarrow> bool" where
  "stays_open d s \<equiv> sk_fd s = d \<and> own_fd_open s"

lemma keeps_own_quiet: "quiet m \<Longrightarrow> keeps (stays_open d) m" "quiet m \<Longrightarrow> keeps own_fd_open m"
  by (erule quiet_keeps, auto simp: stable_def live_neutral)+

lemma keeps_option [keeps_intros]: "keeps I m \<Longrightarrow> (\<And>x. keeps I (f x)) \<Longrightarrow> keeps I (case p of None \<Rightarrow> m | Some x \<Rightarrow> f x)"
  by (simp split: option.split)

lemma keeps_own_selectFds [keeps_intros]: "keeps own_fd_open (Socket_selectFds E)"
  unfolding Socket_selectFds_def FDSet_reset_def FDSet_set_def FDSet_select_def FDSet_selectImpl_def
  by (intro keeps_intros keeps_modify keeps_own_quiet quiet_intros; simp)

lemma careful_own_receive:
  assumes "select_ok E" and "tasks_ok E" and "\<And>d. careful (stays_open d) (h (raw_fd d))" and "\<And>d. keeps (stays_open d) (h (raw_fd d))"
  shows "careful own_fd_open (Socket_receive E (Socket_selectFds E) h)"
  by (rule careful_receive_own [OF assms(1,2) careful_Socket_selectFds keeps_own_selectFds assms(3,4)]) simp_all

lemma keeps_own_udp_ref [keeps_intros]: "keeps (stays_open d) (udp_peer_ref remote)"
  unfolding udp_peer_ref_def by (intro keeps_intros keeps_modify; auto)

lemma keeps_own_udp [keeps_intros]:
  "keeps (stays_open d) (udp_handleCommUp E remote)" "keeps (stays_open d) (udp_resetTasks E remote)"
  "keeps (stays_open d) (udp_remove E remote)"
  unfolding udp_handleCommUp_def udp_resetTasks_def udp_remove_def udp_disableTasks_def
  by (intro keeps_intros keeps_modify keeps_own_quiet quiet_intros; auto)+

lemma careful_datagram:
  assumes "\<And>b r. careful own_fd_open (f b r)" and "\<And>b r. keeps (stays_open d) (f b r)"
  shows "careful (stays_open d) (bindE (Socket_getBuffer (raw_fd d)) (\<lambda>buf. bindE (sys E (C_recvfrom (raw_fd d) (length buf))) (\<lambda>r.
     thenE (check E ''Receive'' (failedReceive (rv r))) (bindE (lift_sum (store_received buf r)) (\<lambda>b.
     thenE (modify (\<lambda>s. s\<lparr>main_msg_buffer := b\<rparr>)) (f b r))))))" (is "careful _ ?m")
    and "keeps (stays_open d) (bindE (Socket_getBuffer (raw_fd d)) (\<lambda>buf. bindE (sys E (C_recvfrom (raw_fd d) (length buf))) (\<lambda>r.
     thenE (check E ''Receive'' (failedReceive (rv r))) (bindE (lift_sum (store_received buf r)) (\<lambda>b.
     thenE (modify (\<lambda>s. s\<lparr>main_msg_buffer := b\<rparr>)) (f b r))))))"
proof -
  have q: "keeps (stays_open d) (modify (\<lambda>s. s\<lparr>main_msg_buffer := b\<rparr>))" for b by (rule keeps_modify) auto
  have call: "careful (stays_open d) (sys E (C_recvfrom (raw_fd d) n))" for n by (rule careful_sys) auto
  show "careful (stays_open d) ?m"
    unfolding Socket_getBuffer_def
    by (intro careful_gets_any careful_bind_kept careful_then_kept call careful_basic careful_modify q keeps_intros keeps_own_quiet
        quiet_sys quiet_check careful_mono [OF assms(1)]) auto
  show "keeps (stays_open d) ?m"
    unfolding Socket_getBuffer_def
    by (intro keeps_intros q assms(2) keeps_own_quiet quiet_sys quiet_check) simp_all
qed

lemma udp_handleMessage_own:
  "careful (stays_open d) (udp_handleMessage E (raw_fd d))" "keeps (stays_open d) (udp_handleMessage E (raw_fd d))"
proof -
  let ?f = "\<lambda>b r. bindE (lift_sum (IPSocket_of_sockaddr E (storage r))) (\<lambda>remote.
      thenE (log_received E (c_str b)) (udp_dispatch E (c_str b) remote))"
  have f: "careful own_fd_open (?f b r)" for b r
    by (intro careful_bind_kept careful_then_kept careful_basic careful_udp_dispatch keeps_intros keeps_own_quiet
        careful_none on_Socket quiet_intros)
  have k: "keeps (stays_open d) (?f b r)" for b r
    unfolding udp_dispatch_def udp_handleGracefulShutdown_def
    by (intro keeps_intros keeps_own_quiet quiet_intros)
  show "careful (stays_open d) (udp_handleMessage E (raw_fd d))" "keeps (stays_open d) (udp_handleMessage E (raw_fd d))"
    unfolding udp_handleMessage_def using careful_datagram [of ?f, OF f k] by simp_all
qed

lemma careful_udp_ops:
  assumes "select_ok E" and "tasks_ok E" and "m \<in> udp_ops E"
  shows "careful udp_inv m"
proof -
  have "careful udp_inv (udp_receive E)"
    unfolding udp_receive_def
    by (rule careful_mono [OF careful_own_receive [OF assms(1,2) udp_handleMessage_own] own_fd_live(1)])
  moreover have "careful udp_inv (udp_task E t)" for t
    by (cases t) (simp_all add: careful_none [OF on_udp_connect(1)] careful_none [OF on_udp_connect(2)]
      careful_udp_send_to own_fd_live)
  ultimately show ?thesis
    using assms(3) careful_udp_send careful_listen [of udp_inv] own_fd_live(1) careful_none [OF on_udp_connect(1)]
    unfolding udp_ops_def by fastforce
qed

lemma careful_udp_ctor:
  assumes "descriptors_ok E"
  shows "careful (\<lambda>s. accounts (trace s) {}) (udp_ctor E lp)"
proof -
  have init: "careful own_fd_open (udp_init_members l)" "keeps own_fd_open (udp_init_members l)" for l
    by (cases l; simp add: udp_init_members_def careful_basic keeps_throw careful_modify keeps_modify)+
  show ?thesis
    unfolding udp_ctor_def split_def
    by (intro careful_construct assms careful_then_kept init careful_on_own_fd quiet_intros only_intros)
qed

text \<open>The destructors of the datagram sockets say goodbye, then close.\<close>

lemma careful_goodbye: "careful I m \<Longrightarrow> careful I (thenE (no_throw m) (Socket_dtor E))"
  by (intro careful_last_then careful_no_throw on_closing)

lemma careful_udp_dtor: "careful udp_inv (udp_dtor E)"
  unfolding udp_dtor_def by (rule careful_goodbye [OF careful_udp_send])

section \<open>UNIX sockets\<close>

lemma on_unix [only_intros]:
  "on F (unix_handleCommUp path)" "on F (unix_handleGracefulShutdown path)" "on F (unix_connect remotes)" "on {fd} (unix_bind E fd l)"
  unfolding unix_connect_def unix_handleCommUp_def unix_handleGracefulShutdown_def unix_bind_def
  by (intro only_intros only_modify; simp)+

lemma careful_unix_send: "careful unix_inv (unix_send E msg)"
proof -
  have "careful unix_inv (unix_send_to E msg path)" for path
    unfolding unix_send_to_def
    by (intro careful_gets_any careful_bind_kept careful_basic keeps_lift_sum careful_gets careful_last_call only_intros)
      (simp add: own_fd_live(2))
  then show ?thesis
    unfolding unix_send_def by (intro careful_gets_any careful_for_each keeps_unix_quiet quiet_unix)
qed

lemma unix_handleMessage_own:
  "careful (stays_open d) (unix_handleMessage E (raw_fd d))" "keeps (stays_open d) (unix_handleMessage E (raw_fd d))"
proof -
  let ?f = "\<lambda>b r. thenE (log_received E (c_str b)) (bindE (lift_sum (read_path (storage r))) (\<lambda>path.
       if c_str b = quit_msg then unix_handleGracefulShutdown path
       else bindE (gets (\<lambda>s. map_of (unix_peers s) path)) (\<lambda>known. if known = None then unix_handleCommUp path else return ())))"
  have f: "careful own_fd_open (?f b r)" for b r
    by (intro careful_none only_intros)
  have k: "keeps (stays_open d) (?f b r)" for b r
    unfolding unix_handleGracefulShutdown_def unix_handleCommUp_def
    by (intro keeps_intros keeps_modify keeps_own_quiet quiet_intros; auto)
  show "careful (stays_open d) (unix_handleMessage E (raw_fd d))" "keeps (stays_open d) (unix_handleMessage E (raw_fd d))"
    unfolding unix_handleMessage_def Let_def using careful_datagram [of ?f, OF f k] by simp_all
qed

lemma careful_unix_ops:
  assumes "select_ok E" and "tasks_ok E" and "m \<in> unix_ops E"
  shows "careful unix_inv m"
proof -
  have "careful unix_inv (unix_receive E)"
    unfolding unix_receive_def
    by (rule careful_mono [OF careful_own_receive [OF assms(1,2) unix_handleMessage_own] own_fd_live(2)])
  then show ?thesis
    using assms(3) careful_unix_send careful_listen [of unix_inv] own_fd_live(2) careful_none [OF on_unix(3)]
    unfolding unix_ops_def by fastforce
qed

lemma careful_unix_ctor:
  assumes "descriptors_ok E"
  shows "careful (\<lambda>s. accounts (trace s) {}) (unix_ctor E a)"
  unfolding unix_ctor_def
  by (intro careful_construct assms careful_then_kept careful_modify keeps_modify careful_on_own_fd quiet_intros only_intros) simp_all

lemma careful_unix_dtor: "careful unix_inv (unix_dtor E)"
  unfolding unix_dtor_def by (rule careful_goodbye [OF careful_unix_send])

section \<open>SCTP sockets\<close>

lemma sctp_inv_live:
  assumes "sctp_inv s"
  shows "own_fd_open s" and "p \<in> set (sctp_peers s) \<Longrightarrow> raw_fd (assoc_fd (snd p)) \<in> live (trace s)"
proof -
  obtain L where "sctp_shape L s" "accounts (trace s) L" using assms by (rule sctp_invE)
  then show "own_fd_open s" and "p \<in> set (sctp_peers s) \<Longrightarrow> raw_fd (assoc_fd (snd p)) \<in> live (trace s)"
    by (auto simp: sctp_shape_def accounts_def assoc_fds_def)
qed

lemma sctp_entries_live:
  assumes "hash_ok E" and "sctp_inv s" and "p \<in> set (sctp_entries E s)"
  shows "raw_fd (assoc_fd (snd p)) \<in> live (trace s)"
proof -
  have "umap_ok (sctp_peers s)" using assms(2) by (auto simp: sctp_inv_def sctp_shape_def)
  then have "set (sctp_entries E s) = set (sctp_peers s)" using mset_sctp_entries [OF assms(1)] mset_eq_setD by blast
  then show ?thesis using sctp_inv_live(2) assms(2,3) by blast
qed

lemma careful_sctp_lock: "careful sctp_inv m \<Longrightarrow> careful sctp_inv (with_lock E m)"
  by (rule careful_with_lock) simp_all

lemma on_sctp [only_intros]:
  "on {fd} (sctp_configure E fd)" "on {fd} (sctp_bind E fd locals)" "on {fd} (sctp_send_fd E fd msg)" "on {fd} (sctp_sendBigMessage E fd)"
  "on {fd} (logPeerInfo E fd a)" "on F (sctp_emplace E a d)" "on F (sctp_remove E a)" "on F (sctp_getBuffer E fd)"
  "on F (sctp_setBuffer owner b)" "on F (sctp_dtor E)"
  unfolding sctp_configure_def sctp_bind_def sctp_send_fd_def sctp_sendBigMessage_def logPeerInfo_def sctp_emplace_def sctp_remove_def
    sctp_getBuffer_def sctp_setBuffer_def sctp_dtor_def sctp_destroy_peers_def Let_def split_def
  by (intro only_intros only_modify; simp)+

lemma careful_sctp_peelOff:
  assumes "checks_ok E"
  shows "careful sctp_inv (sctp_peelOff E a)"
  unfolding sctp_peelOff_def failedPeeloff_def Let_def
  by (intro careful_sctp_lock, rule careful_gets, rule careful_opening [OF assms])
    (auto intro!: careful_last_then careful_on_unwind careful_own quiet_intros only_intros simp: sctp_inv_live)

lemma careful_sctp_handle: "descriptors_ok E \<Longrightarrow> careful sctp_inv (sctp_handle E src sn)"
  unfolding sctp_handle_def sctp_handleCommUp_def sctp_handleEstablishmentFailure_def
    sctp_handleGracefulShutdown_def sctp_handleCommLost_def Let_def
  by (intro careful_then_kept careful_bind_kept careful_cases careful_basic keeps_intros careful_sctp_peelOff careful_none only_intros)
    (simp_all add: descriptors_ok_def)

lemma find_in: "find P xs = Some x \<Longrightarrow> x \<in> set xs \<and> P x"
  by (auto simp: find_Some_iff)

lemma wp_sctp_buffer_known:
  "wp (sctp_getBuffer E fd) (\<lambda>_ t. fd = raw_fd (sk_fd t) \<or> (\<exists>p\<in>set (sctp_entries E t). fd = raw_fd (assoc_fd (snd p)))) (\<lambda>_ _. True) s"
proof -
  have free: "sctp_entries E (s\<lparr>peers_mtx := k\<rparr>) = sctp_entries E s" for k by (simp add: sctp_entries_def)
  show ?thesis
    unfolding sctp_getBuffer_def with_lock_def lock_peers_def unlock_peers_def scoped_def
    by (auto simp: wp_simps free split: option.split dest: find_in intro: bexI)
qed

lemma careful_sctp_buffer:
  assumes "hash_ok E" and "\<And>b. careful (\<lambda>s. sctp_inv s \<and> fd \<in> live (trace s)) (f b)"
  shows "careful sctp_inv (bindE (sctp_getBuffer E fd) f)"
proof (rule careful_bindE [OF careful_none _ assms(2)])
  fix s :: "'a SocketSctp_scheme"
  assume "sctp_inv s"
  then show "wp (sctp_getBuffer E fd) (\<lambda>_ s. sctp_inv s \<and> fd \<in> live (trace s)) (\<lambda>_ _. True) s"
    by (intro wp_mono [OF wp_conj [OF keepsD [OF keeps_sctp_getBuffer] wp_sctp_buffer_known]])
      (auto simp: sctp_inv_live dest: sctp_entries_live [OF assms(1)])
qed (rule on_sctp)

lemma careful_sctp_handleMessage:
  assumes "descriptors_ok E" and "hash_ok E"
  shows "careful sctp_inv (sctp_handleMessage E fd)"
proof -
  let ?I = "\<lambda>s. sctp_inv s \<and> fd \<in> live (trace s)"
  have rest: "careful sctp_inv (thenE (check E ''Receive'' (failedReceive (rv r)))
     (bindE (lift_sum (store_received buf r)) (\<lambda>b.
     thenE (sctp_setBuffer owner b)
     (if oflags r AND MSG_NOTIFICATION \<noteq> 0
      then bindE (lift_sum (IPSocket_of_sockaddr E (storage r))) (\<lambda>from. bindE (lift_sum (notification_of b)) (sctp_handle E from))
      else bindE (lift_sum (IPSocket_of_sockaddr E (storage r))) (\<lambda>_.
           log_received E (if length (c_str b) < 100 then c_str b else ''BIG''))))))" for r buf owner
    by (intro careful_then_kept careful_bind_kept careful_cases careful_basic keeps_intros careful_sctp_handle assms(1)
        careful_none [OF on_sctp(9)] careful_none [OF on_Socket(6)] keeps_sctp_quiet quiet_check)
  show ?thesis
    unfolding sctp_handleMessage_def
  proof (intro careful_sctp_buffer [OF assms(2)] careful_cases careful_bindE [OF careful_sys _ rest])
    fix owner buf s
    assume "?I s"
    then show "wp (sys E (C_sctp_recvmsg fd (length buf))) (\<lambda>_. sctp_inv) (\<lambda>_ _. True) s"
      by (intro keeps_wp keeps_sctp_quiet quiet_sys) simp_all
  qed simp
qed

lemma careful_sctp_selectFds: "hash_ok E \<Longrightarrow> careful sctp_inv (sctp_selectFds E)"
  unfolding sctp_selectFds_def
  by (intro careful_sctp_lock careful_selecting) (simp_all add: sctp_inv_live sctp_entries_live)

lemma careful_sctp_send:
  assumes "hash_ok E"
  shows "careful sctp_inv (sctp_send E msg)"
  unfolding sctp_send_def
  by (intro careful_sctp_lock careful_each_open [where k = "\<lambda>p. raw_fd (assoc_fd (snd p))"] quiet_keeps [OF _ stable_live])
    (use sctp_entries_live [OF assms] in \<open>auto intro!: careful_own quiet_intros only_intros\<close>)

lemma careful_sctp_ops:
  assumes "sctp_good E" and "m \<in> sctp_ops E"
  shows "careful sctp_inv m"
proof -
  have E: "descriptors_ok E" "hash_ok E" using assms(1) by (simp_all add: sctp_good_def)
  have "careful sctp_inv (sctp_receive E)"
    unfolding sctp_receive_def
    by (intro careful_Socket_receive careful_sctp_selectFds keeps_sctp_selectFds careful_sctp_handleMessage
        keeps_sctp_handleMessage E)
  moreover have "careful sctp_inv (sctp_connect E remotes)" for remotes
  proof -
    have "careful sctp_inv (bindE (gets (\<lambda>s. raw_fd (sk_fd s))) (\<lambda>fd. Socket_connect_fd E fd remote))" for remote
      by (rule careful_gets, rule careful_own [OF quiet_Socket_connect_fd on_Socket(4)]) (use sctp_inv_live(1) in auto)
    moreover have "keeps sctp_inv (bindE (gets (\<lambda>s. raw_fd (sk_fd s))) (\<lambda>fd. Socket_connect_fd E fd remote))" for remote
      by (intro keeps_sctp_quiet quiet_intros)
    ultimately show ?thesis unfolding sctp_connect_def by (intro careful_for_each)
  qed
  moreover have "careful sctp_inv (sctp_connectMultihomed E remotes)" for remotes
    unfolding sctp_connectMultihomed_def
    by (intro careful_cases careful_basic careful_bind_kept keeps_lift_sum careful_gets careful_last_call only_intros)
      (use sctp_inv_live(1) in auto)
  ultimately show ?thesis
    using assms(2) careful_sctp_send [OF E(2)] careful_listen [of sctp_inv] sctp_inv_live(1) unfolding sctp_ops_def by fastforce
qed

lemma careful_sctp_ctor:
  assumes "descriptors_ok E"
  shows "careful (\<lambda>s. accounts (trace s) {}) (sctp_ctor E cfg)"
  unfolding sctp_ctor_def
  by (intro careful_construct assms careful_then_kept careful_modify keeps_modify careful_on_own_fd quiet_intros only_intros) simp_all

section \<open>Forked sockets\<close>

lemma forked_inv_live:
  assumes "forked_inv s"
  shows "own_fd_open s" "raw_fd (fk_pipe s) \<in> live (trace s)" "raw_fd (fk_named_pipe s) \<in> live (trace s)"
  using assms by (auto simp: forked_inv_def accounts_def forked_owns_def)

lemma on_ipc [only_intros]:
  "ipc_uses c \<subseteq> F \<Longrightarrow> on F (ipc E c)" "ipc_uses c \<subseteq> F \<Longrightarrow> on F (ipc_checked E c name f)" "ipc_uses c \<subseteq> F \<Longrightarrow> on F (ipc_check E c name g)"
  by (rule only_ipc, simp)+

lemma on_forked_parts [only_intros]:
  "on F (printSemaphoreValues E)" "on F (sendOnMessageQueue E msg)" "on F (setPosixSharedMemory E n)" "on F (postNamedSemaphore E)"
  "on F (setSysVSharedMemory E n)" "on F (postUnnamedSemaphore E)" "on F (readPosixSharedMemory E)" "on F (readSysVSharedMemory E)"
  "on F (take_message E b r)" "on F (receiveFromMessageQueue E)"
  unfolding printSemaphoreValues_def sendOnMessageQueue_def setPosixSharedMemory_def setSysVSharedMemory_def postNamedSemaphore_def
    postUnnamedSemaphore_def readPosixSharedMemory_def readSysVSharedMemory_def isSemaphoreReady_def take_message_def
    receiveFromMessageQueue_def
  by (intro only_intros only_modify; simp)+

lemma quiet_sending [quiet_intros]:
  "quiet (sendOnSocketPair E msg)" "quiet (sendOnPipe E msg)" "quiet (sendOnNamedPipe E msg)" "quiet (sendOnMessageQueue E msg)"
  "quiet (setPosixSharedMemory E n)" "quiet (postNamedSemaphore E)" "quiet (setSysVSharedMemory E n)" "quiet (postUnnamedSemaphore E)"
  unfolding sendOnSocketPair_def sendOnPipe_def sendOnNamedPipe_def sendOnMessageQueue_def setPosixSharedMemory_def
    postNamedSemaphore_def setSysVSharedMemory_def postUnnamedSemaphore_def
  by (intro quiet_intros; simp)+

lemma careful_forked_send: "careful forked_inv (forked_send E msg)"
proof -
  have c: "careful forked_inv (sendOnSocketPair E msg)" "careful forked_inv (sendOnPipe E msg)" "careful forked_inv (sendOnNamedPipe E msg)"
    unfolding sendOnSocketPair_def sendOnPipe_def sendOnNamedPipe_def
    by (rule careful_gets, rule careful_own, (intro quiet_intros only_intros; simp)+, simp add: forked_inv_live)+
  show ?thesis
    unfolding forked_send_def
    by (intro careful_then_kept c on_forked_parts [THEN careful_none] keeps_forked_quiet quiet_sending)
qed

lemma on_received:
  "on F (thenE (check E name b) (bindE (lift_sum (store_received buf r)) (\<lambda>b.
     thenE (modify (\<lambda>s. s\<lparr>main_msg_buffer := b\<rparr>))
     (thenE (log_received E (c_str b)) (if c_str b = quit_msg then throw e else return ())))))"
  by (intro only_intros only_modify) simp

lemma forked_handleMessage_own:
  "careful (stays_open d) (forked_handleMessage E (raw_fd d))" "keeps (stays_open d) (forked_handleMessage E (raw_fd d))"
proof -
  show "careful (stays_open d) (forked_handleMessage E (raw_fd d))"
    unfolding forked_handleMessage_def Socket_getBuffer_def by (intro careful_gets_any careful_last_call on_received) auto
  show "keeps (stays_open d) (forked_handleMessage E (raw_fd d))"
    unfolding forked_handleMessage_def Socket_getBuffer_def by (intro keeps_intros keeps_modify keeps_own_quiet quiet_intros; auto)
qed

lemma careful_forked_receive:
  assumes "select_ok E" and "tasks_ok E"
  shows "careful forked_inv (forked_receive E)"
proof -
  have r: "careful forked_inv (Socket_receive E (Socket_selectFds E) (forked_handleMessage E))"
    by (rule careful_mono [OF careful_own_receive [OF assms forked_handleMessage_own] forked_inv_live(1)])
  have k: "keeps forked_inv (Socket_receive E (Socket_selectFds E) (forked_handleMessage E))"
    unfolding Socket_selectFds_def by (intro keeps_Socket_receive keeps_intros)
  have p: "careful forked_inv (receiveFromPipe E)" "careful forked_inv (receiveFromNamedPipe E)"
    unfolding receiveFromPipe_def receiveFromNamedPipe_def
    by (intro careful_gets_any careful_gets careful_last_call only_intros; simp add: forked_inv_live)+
  show ?thesis
    unfolding forked_receive_def
    by (intro careful_then_kept careful_gets_any careful_cases careful_basic r k p on_forked_parts [THEN careful_none] keeps_intros
        keeps_forked_quiet quiet_forked)
qed

lemma careful_forked_ops:
  assumes "select_ok E" and "tasks_ok E" and "m \<in> forked_ops E"
  shows "careful forked_inv m"
  using assms(3) careful_forked_receive [OF assms(1,2)] careful_forked_send careful_listen [of forked_inv] forked_inv_live(1)
    careful_basic(1,2) [of forked_inv]
  unfolding forked_ops_def Socket_connect_def childDied_def parentDied_def by fastforce

lemma on_forked_dtor: "on F (forked_dtor E)"
  unfolding forked_dtor_def cleanUpMessageQueues_def cleanUpSemaphores_def cleanUpSharedMemory_def forked_destroy_members_def
  by (intro only_intros; simp)

lemma on_forked_creation [only_intros]:
  "on F (createMessageQueues E)" "on F (createSysVSharedMemory E)" "on F (createNamedSemaphore E)" "on F (createUnnamedSemaphore E)"
  "on F (createPipe E)" "on F (createNamedPipe E)" "on F (forked_take E d p np)" "on F (killChildOnParentDeath E)"
  unfolding createMessageQueues_def createSysVSharedMemory_def createNamedSemaphore_def createUnnamedSemaphore_def createPipe_def
    createNamedPipe_def forked_take_def killChildOnParentDeath_def checkParentAlive_def split_def
  by (intro only_intros only_modify; simp)+

lemma on_createSocketPair [only_intros]: "on F (createSocketPair E)"
  unfolding createSocketPair_def by (intro only_bind_gets only_bindE only_thenE only_basic only_sys) simp

lemma on_forked_start [only_intros]: "on F (forked_start E)"
  unfolding forked_start_def forked_fork_def forkParent_def forkChild_def Let_def split_def
  by (intro only_intros only_modify; simp)

text \<open>The shared memory's descriptor is used as soon as it is a member.\<close>

lemma careful_createPosixSharedMemory:
  assumes "checks_ok E"
  shows "careful (\<lambda>s. fk_shm s = FileDescriptor_ctor invalid_fd) (createPosixSharedMemory E)"
proof -
  let ?none = "\<lambda>s. fk_shm s = FileDescriptor_ctor invalid_fd"
  let ?map = "\<lambda>n. thenE (ipc_check E (I_ftruncate n shm_size) ''Truncate'' failedTruncate)
      (bindE (ipc_checked E (I_mmap n shm_size) ''Mmap'' (\<lambda>r _. failedMmap (word_of_int r))) (\<lambda>p.
        modify (\<lambda>s. s\<lparr>fk_shm_mmap := word_of_int p\<rparr>)))"
  let ?rest = "\<lambda>n. bindE (gets fk_shm) (\<lambda>this.
     bindE (fd_move_assign E False this (FileDescriptor_ctor n)) (\<lambda>(this', tmp).
     thenE (modify (\<lambda>s. s\<lparr>fk_shm := this'\<rparr>)) (thenE (fd_dtor E tmp) (bindE (gets (\<lambda>s. raw_fd (fk_shm s))) ?map))))"
  have k: "keeps (\<lambda>s. n \<in> live (trace s)) (ipc_check E (I_ftruncate n shm_size) ''Truncate'' failedTruncate)" for n
    by (rule quiet_keeps [OF quiet_ipc(3)]) (auto simp: stable_def live_neutral)
  have map: "careful (\<lambda>s. n \<in> live (trace s)) (?map n)" for n
    by (intro careful_then_kept k careful_last only_modify careful_own [of _ n, OF quiet_ipc(3) on_ipc(3)]
        careful_own [of _ n, OF quiet_ipc(2) on_ipc(2)]) simp_all
  have moved: "bindE (fd_move_assign E False (FileDescriptor_ctor invalid_fd) (FileDescriptor_ctor n)) f =
      f (FileDescriptor_ctor n, (FileDescriptor_ctor n)\<lparr>should_close := False\<rparr>)" for n f
    by (simp add: fun_eq_iff fd_move_assign_def fd_close_def FileDescriptor_ctor_def io_defs)
  have got: "careful (\<lambda>s. raw_fd (fk_shm s) \<in> live (trace s)) (thenE (return ()) (bindE (gets (\<lambda>s. raw_fd (fk_shm s))) ?map))"
    by (intro careful_then_kept careful_basic keeps_return careful_gets careful_mono [OF map]) auto
  have rest: "careful (\<lambda>s. ?none s \<and> n \<in> live (trace s)) (?rest n)" for n
    by (rule careful_gets_known [where v = "FileDescriptor_ctor invalid_fd"])
      (auto simp: moved intro!: careful_modify_then [OF _ _ got])
  show ?thesis
    unfolding createPosixSharedMemory_def failedShmopen_def
    by (rule careful_opening_with [OF assms, where K = ?none]) (simp_all add: rest)
qed

lemma careful_forked_ctor:
  assumes "forked_good E"
  shows "careful (\<lambda>s. accounts (trace s) {}) (forked_ctor E a)"
proof -
  let ?H = "\<lambda>s. \<exists>d\<ge>0. holds (fresh_members d) s"
  have H: "wp m (\<lambda>_. ?H) (\<lambda>_ _. True) s" if "?H s" "\<And>M. keeps (holds M) m" for m :: "('a SocketUnixForked_scheme, unit) io" and s
    using that keeps_wp by (fastforce intro: wp_mono)
  have conf: "careful forked_inv (bindE (gets (\<lambda>s. raw_fd (sk_fd s))) (Socket_configure E))"
    by (rule careful_mono [OF careful_on_own_fd]) (auto intro: quiet_intros only_intros forked_inv_live(1))
  have start: "careful ?H (thenE (forked_start E) (bindE (gets (\<lambda>s. raw_fd (sk_fd s))) (Socket_configure E)))"
    by (rule careful_thenE [OF careful_none [OF on_forked_start] _ conf]) (auto intro: wp_forked_start [OF assms])
  have queues: "wp (createMessageQueues E) (\<lambda>_. holds (fresh_members invalid_fd)) (\<lambda>_ _. True) s"
    if "holds (fresh_members invalid_fd) s" for s :: "'a SocketUnixForked_scheme"
    by (rule keeps_wp [OF keeps_creation(1) that])
  have shm: "careful (holds (fresh_members invalid_fd)) (createPosixSharedMemory E)"
    by (rule careful_mono [OF careful_createPosixSharedMemory])
      (use assms in \<open>auto simp: forked_goodD holds_def members_def\<close>)
  have made: "wp (createPosixSharedMemory E) (\<lambda>_. ?H) (\<lambda>_ _. True) s"
    if "holds (fresh_members invalid_fd) s" for s :: "'a SocketUnixForked_scheme"
    by (rule wp_createPosixSharedMemory [OF assms that]) auto
  have body: "careful (holds (fresh_members invalid_fd)) (thenE (createMessageQueues E) (thenE (createPosixSharedMemory E)
      (thenE (createSysVSharedMemory E) (thenE (createNamedSemaphore E) (thenE (createUnnamedSemaphore E)
      (thenE (forked_start E) (bindE (gets (\<lambda>s. raw_fd (sk_fd s))) (Socket_configure E)))))))
      :: ('a SocketUnixForked_scheme, unit) io)"
    by (rule careful_thenE [OF careful_none [OF on_forked_creation(1)] queues], assumption, rule careful_thenE [OF shm made], assumption)
      (rule careful_thenE [OF careful_none [OF on_forked_creation(2)] H [OF _ keeps_creation(2)]]
        careful_thenE [OF careful_none [OF on_forked_creation(3)] H [OF _ keeps_creation(3)]]
        careful_thenE [OF careful_none [OF on_forked_creation(4)] H [OF _ keeps_creation(4)]] start | assumption)+
  have undo: "on {} (forked_destroy_members E)" unfolding forked_destroy_members_def by (intro only_intros)
  show ?thesis
    unfolding forked_ctor_def forked_init_members_def
  proof (rule careful_thenE [OF careful_none [OF on_creation]])
    show "wp (Socket_ctor E [] SOCK_DGRAM default_protocol AF_UNIX True)
        (\<lambda>_ s. sk_fd s = FileDescriptor_ctor invalid_fd \<and> accounts (trace s) {}) (\<lambda>_ _. True) s"
      if "accounts (trace s) {}" for s :: "'a SocketUnixForked_scheme"
      using that by (simp add: Socket_ctor_def Socket_init_def wp_simps)
  qed (rule careful_modify_then [OF _ _ careful_on_unwind [OF body undo]], auto simp: holds_def members_def owned_def invalid_fd_def)
qed

section \<open>Network tasks\<close>

text \<open>
  A class of which every operation, the constructor and the destructor are careful gives a task that is.
\<close>

definition waits_ok :: "env \<Rightarrow> bool" where
  "waits_ok E \<longleftrightarrow> select_ok E \<and> tasks_ok E"

locale careful_socket = network_socket good V inv
  for good :: "env \<Rightarrow> bool" and V :: "'z world_scheme socket_object" and inv :: "'z world_scheme \<Rightarrow> bool" +
  assumes careful_ctor: "good E \<Longrightarrow> careful (\<lambda>s. accounts (trace s) {}) (so_ctor V E)"
    and careful_op: "good E \<Longrightarrow> waits_ok E \<Longrightarrow> m \<in> so_ops V E \<Longrightarrow> careful inv m"
    and careful_dtor: "good E \<Longrightarrow> careful inv (so_dtor V E)"
begin

lemma careful_round:
  assumes "good E" and "waits_ok E"
  shows "careful inv (launch V E)" "careful inv (chatOrQuit V E)"
proof -
  show "careful inv (launch V E)"
    unfolding launch_def
    by (intro careful_gets_any careful_bind_kept careful_run_tasks keeps_run_tasks careful_cases careful_basic keeps_gets
        careful_op [OF assms] keeps_op [OF assms(1)] so_opsI)
  have "careful inv (chat E msg)" "keeps inv (chat E msg)" for msg
    unfolding chat_def by (intro careful_none only_intros keeps_silent quiet_intros; simp)+
  then show "careful inv (chatOrQuit V E)"
    unfolding chatOrQuit_def
    by (intro careful_bind_kept careful_then_kept careful_cases careful_basic keeps_intros
        careful_op [OF assms] keeps_op [OF assms(1)] so_opsI)
qed

lemma careful_network_loop:
  assumes "good E" and "waits_ok E"
  shows "careful inv (network_loop n V E forever die msg)"
proof (induction n arbitrary: msg)
  case 0
  then show ?case by (simp add: careful_basic)
next
  case (Suc n)
  have now: "careful inv (sys E C_now)" "keeps inv (sys E C_now)"
    by (intro careful_none only_intros keeps_silent quiet_intros; simp)+
  show ?case
    unfolding network_loop.simps
    by (intro careful_bind_kept careful_then_kept careful_cases careful_basic keeps_intros now careful_round [OF assms]
        keeps_launch [OF assms(1)] keeps_chatOrQuit [OF assms(1)] Suc careful_op [OF assms] keeps_op [OF assms(1)] so_opsI)
qed

lemma careful_network_body:
  assumes "good E" and "waits_ok E"
  shows "careful (\<lambda>s. accounts (trace s) {}) (network_body n V E p)"
proof -
  have now: "careful inv (sys E C_now)" "keeps inv (sys E C_now)"
    by (intro careful_none only_intros keeps_silent quiet_intros; simp)+
  have work: "careful inv (thenE (establishSocket V E (np_config p)) (bindE (sys E C_now) (\<lambda>now.
          network_loop n V E (np_lifetime p = 0) (rv now + np_lifetime p) [])))"
    unfolding establishSocket_def
    by (intro careful_then_kept careful_bind_kept keeps_thenE now careful_network_loop [OF assms] careful_op [OF assms]
        keeps_op [OF assms(1)] so_opsI)
  have kept: "keeps inv (thenE (establishSocket V E (np_config p)) (bindE (sys E C_now) (\<lambda>now.
          network_loop n V E (np_lifetime p = 0) (rv now + np_lifetime p) [])))"
    unfolding establishSocket_def
    by (intro keeps_intros now keeps_network_loop [OF assms(1)] keeps_op [OF assms(1)] so_opsI)
  have ends: "careful inv (bindE (on_unwind (thenE (establishSocket V E (np_config p)) (bindE (sys E C_now) (\<lambda>now.
          network_loop n V E (np_lifetime p = 0) (rv now + np_lifetime p) []))) (so_dtor V E))
        (\<lambda>ended. if ended then thenE (so_dtor V E) (return True) else return False))"
  proof (rule careful_bindE)
    note unwind = careful_on_unwind_kept [OF work kept careful_dtor [OF assms(1)]]
    show "careful inv (on_unwind (thenE (establishSocket V E (np_config p)) (bindE (sys E C_now) (\<lambda>now.
          network_loop n V E (np_lifetime p = 0) (rv now + np_lifetime p) []))) (so_dtor V E))" by (rule unwind(1))
    show "wp (on_unwind (thenE (establishSocket V E (np_config p)) (bindE (sys E C_now) (\<lambda>now.
          network_loop n V E (np_lifetime p = 0) (rv now + np_lifetime p) []))) (so_dtor V E)) (\<lambda>_. inv) (\<lambda>_ _. True) s" if "inv s" for s
      using that by (rule unwind(2))
    show "careful inv (if ended then thenE (so_dtor V E) (return True) else return False)" for ended
      by (intro careful_cases careful_basic careful_last_then careful_dtor [OF assms(1)] only_basic)
  qed
  have made: "wp (so_ctor V E) (\<lambda>_. inv) (\<lambda>_ _. True) s" if "accounts (trace s) {}" for s
    by (rule wp_mono [OF ctor_inv [OF assms(1) that]]) simp_all
  have wait: "quiet (startTask E (np_delay p) :: ('z world_scheme, unit) io)"
    unfolding startTask_def by (intro quiet_intros) simp
  show ?thesis
    unfolding network_body_def
  proof (rule careful_thenE [OF _ _ careful_thenE [OF careful_ctor [OF assms(1)] made ends]])
    show "careful (\<lambda>s. accounts (trace s) {}) (startTask E (np_delay p))"
      unfolding startTask_def by (intro careful_none only_intros) simp
    show "wp (startTask E (np_delay p)) (\<lambda>_ s. accounts (trace s) {}) (\<lambda>_ _. True) s"
      if "accounts (trace s) {}" for s :: "'z world_scheme"
      by (rule quiet_wp [OF wait]) (use that in simp_all)
  qed
qed

lemma network_run_careful:
  assumes "good E" and "waits_ok E" and "trace (blank h) = h" and "accounts h {}" and "sound_uses h"
  shows "sound_uses (snd (network_run blank n E p h V))"
proof -
  have "sound_uses (trace (snd (network_body n V E p (blank h))))"
    by (rule carefulD [OF careful_network_body [OF assms(1,2)]]) (simp_all add: assms(3-5))
  then show ?thesis
    by (auto simp: network_run_def LOG_EXCEPTIONS_def split: prod.split sum.split option.split)
qed

end

section \<open>Every class is careful\<close>

lemma careful_socketI:
  assumes "network_socket good V I" and "\<And>E. good E \<Longrightarrow> careful (\<lambda>s. accounts (trace s) {}) (so_ctor V E)"
    and "\<And>E m. good E \<Longrightarrow> waits_ok E \<Longrightarrow> m \<in> ops E \<Longrightarrow> careful I m" and "\<And>E m. m \<in> so_ops V E \<Longrightarrow> m \<in> ops E \<or> m = return ()"
    and "\<And>E. good E \<Longrightarrow> careful I (so_dtor V E)"
  shows "careful_socket good V I"
proof (rule careful_socket.intro [OF assms(1)], rule careful_socket_axioms.intro)
  fix E m
  assume "good E" "waits_ok E" "m \<in> so_ops V E"
  then show "careful I m" using assms(3,4) careful_basic(1) by metis
qed (use assms(2,5) in auto)

lemma careful_dtors:
  "careful I (tcp_dtor E)" "careful tcp_inv (dccp_dtor E)" "careful J (sctp_dtor E)" "careful K (forked_dtor E)"
  unfolding dccp_dtor_def
  by (intro careful_last_then careful_no_throw careful_dccp_send careful_none on_tcp_dtor on_forked_dtor on_sctp)+

interpretation tcp_careful: careful_socket descriptors_ok "tcp_object locals" tcp_inv for locals
  by (rule careful_socketI [OF tcp_net.network_socket_axioms, where ops = tcp_ops])
    (use connect_task_range in \<open>auto simp: object_defs tcp_ops_def careful_tcp_ctor careful_dtors intro: careful_tcp_ops\<close>)

interpretation dccp_careful: careful_socket descriptors_ok "dccp_object locals" tcp_inv for locals
  by (rule careful_socketI [OF dccp_net.network_socket_axioms, where ops = dccp_ops])
    (use connect_task_range in \<open>auto simp: object_defs dccp_ops_def dccp_ctor_def careful_tcp_ctor careful_dtors intro: careful_tcp_ops\<close>)

interpretation udp_careful: careful_socket descriptors_ok "udp_object locals protocol" udp_inv for locals protocol
  by (rule careful_socketI [OF udp_net.network_socket_axioms, where ops = udp_ops])
    (auto simp: object_defs udp_ops_def careful_udp_ctor careful_udp_dtor waits_ok_def intro: careful_udp_ops)

interpretation unix_careful: careful_socket descriptors_ok unix_object unix_inv
  by (rule careful_socketI [OF unix_net.network_socket_axioms, where ops = unix_ops])
    (use connect_task_range in \<open>auto simp: object_defs unix_ops_def careful_unix_ctor careful_unix_dtor waits_ok_def
      intro: careful_unix_ops\<close>)

interpretation forked_careful: careful_socket forked_good forked_object forked_inv
  by (rule careful_socketI [OF forked_net.network_socket_axioms, where ops = forked_ops])
    (use connect_task_range in \<open>auto simp: object_defs forked_ops_def careful_forked_ctor careful_dtors waits_ok_def
      intro: careful_forked_ops\<close>)

interpretation sctp_careful: careful_socket sctp_good "sctp_object config" sctp_inv for config
  by (rule careful_socketI [OF sctp_net.network_socket_axioms, where ops = sctp_ops])
    (use connect_task_range in \<open>auto simp: object_defs sctp_ops_def sctp_good_def careful_sctp_ctor careful_dtors
      intro: careful_sctp_ops\<close>)

section \<open>Properties\<close>



end
