(* ===== verification/Chat.thy ===== *)
theory Chat
  imports SocketClass "HOL-Library.Sublist"
begin

text \<open>
  \<open>src/src/Chat.cpp\<close> and \<open>src/src/IoTask.cpp\<close>: the mailbox through which the thread that reads standard
  input talks to the threads that own sockets. \<open>chat\<close> exchanges the mailbox's message under a mutex, so
  one call is one step; the threads' steps interleave as the scheduler pleases. A network thread makes
  one such step per round, and a second one when it took the message that means goodbye: it puts it
  back for the others.
\<close>

section \<open>The calls\<close>

text \<open>\<open>exchange(msg, new_msg)\<close>: what is returned, and the new message.\<close>

definition exchange :: "string \<Rightarrow> string \<Rightarrow> string \<times> string" where
  "exchange msg new_msg = (msg, new_msg)"

text \<open>
  Standard input: the characters to come, and whether the stream is good. \<open>getline\<close> on a good stream
  replaces the text by the characters up to the next newline, or by all there are, which leaves the
  stream at its end; on a stream that is not good it leaves the text as it was.
\<close>

record istream =
  chars :: string
  good :: bool

abbreviation newline :: char where "newline \<equiv> CHR 0x0A"

definition getline :: "istream \<Rightarrow> string \<Rightarrow> istream \<times> string" where
  "getline i s =
     (if \<not> good i then (i, s)
      else if newline \<in> set (chars i)
      then (i\<lparr>chars := tl (dropWhile (\<lambda>c. c \<noteq> newline) (chars i))\<rparr>, takeWhile (\<lambda>c. c \<noteq> newline) (chars i))
      else (\<lparr>chars = [], good = False\<rparr>, chars i))"

section \<open>The threads\<close>

text \<open>
  \<open>Running\<close>: a network thread in its loop. \<open>Quitting\<close>: it took the goodbye and is about to put it
  back. \<open>Ended\<close>: its loop is over. \<open>typed\<close> and \<open>delivered\<close> record what the input thread put into the
  mailbox and what the network threads took to send.
\<close>

datatype net_thread = Running | Quitting | Ended

record chat_world =
  mailbox :: string
  stdin :: istream
  io_msg :: string
  nets :: "net_thread list"
  typed :: "string list"
  delivered :: "string list"

definition chat_start :: "string \<Rightarrow> nat \<Rightarrow> chat_world" where
  "chat_start input n = \<lparr>mailbox = [], stdin = \<lparr>chars = input, good = True\<rparr>, io_msg = [],
     nets = replicate n Running, typed = [], delivered = []\<rparr>"

text \<open>\<open>chatFromStdin\<close>; what the mailbox held is thrown away.\<close>

definition chatFromStdin :: "chat_world \<Rightarrow> chat_world" where
  "chatFromStdin w = (let (i, s) = getline (stdin w) (io_msg w) in
     w\<lparr>stdin := i, io_msg := s, mailbox := snd (exchange (mailbox w) s), typed := typed w @ [s]\<rparr>)"

text \<open>The first call of \<open>chatOrQuit\<close> by the network thread \<open>i\<close>, and what it does with the message.\<close>

definition net_take :: "nat \<Rightarrow> chat_world \<Rightarrow> chat_world" where
  "net_take i w = (let (msg, m) = exchange (mailbox w) [] in
     if msg = quit_msg then w\<lparr>mailbox := m, nets := (nets w)[i := Quitting]\<rparr>
     else if msg = [] then w\<lparr>mailbox := m\<rparr>
     else w\<lparr>mailbox := m, delivered := delivered w @ [msg]\<rparr>)"

definition net_put_back :: "nat \<Rightarrow> chat_world \<Rightarrow> chat_world" where
  "net_put_back i w = w\<lparr>mailbox := snd (exchange (mailbox w) quit_msg), nets := (nets w)[i := Ended]\<rparr>"

text \<open>
  One step of one thread. The input thread loops until it read the goodbye; a network thread may also
  end because of an exception or at the end of its lifetime.
\<close>

datatype actor = Io | Net nat

inductive chat_step :: "actor \<Rightarrow> chat_world \<Rightarrow> chat_world \<Rightarrow> bool" where
  io: "io_msg w \<noteq> quit_msg \<Longrightarrow> chat_step Io w (chatFromStdin w)"
| take: "i < length (nets w) \<Longrightarrow> nets w ! i = Running \<Longrightarrow> chat_step (Net i) w (net_take i w)"
| put_back: "i < length (nets w) \<Longrightarrow> nets w ! i = Quitting \<Longrightarrow> chat_step (Net i) w (net_put_back i w)"
| die: "i < length (nets w) \<Longrightarrow> nets w ! i = Running \<Longrightarrow> chat_step (Net i) w (w\<lparr>nets := (nets w)[i := Ended]\<rparr>)"

code_pred chat_step .

inductive_cases chat_stepE: "chat_step a w w'"
inductive_simps chat_step_io [simp]: "chat_step Io w w'"

inductive chat_run :: "chat_world \<Rightarrow> chat_world \<Rightarrow> bool" for w where
  refl: "chat_run w w"
| step: "chat_run w w' \<Longrightarrow> chat_step a w' w'' \<Longrightarrow> chat_run w w''"

text \<open>An invariant of every step holds after every run.\<close>

lemma chat_run_invariant:
  assumes "chat_run w w'" and "I w" and "\<And>a u v. chat_step a u v \<Longrightarrow> I u \<Longrightarrow> I v"
  shows "I w'"
  using assms(1,2) by induction (auto intro: assms(3))

section \<open>The goodbye is never lost\<close>

definition quit_alive :: "chat_world \<Rightarrow> bool" where
  "quit_alive w \<longleftrightarrow> (io_msg w = quit_msg \<longrightarrow> mailbox w = quit_msg \<or> mailbox w = [] \<and> Quitting \<in> set (nets w))"

lemma set_update_mem: "x \<in> set xs \<Longrightarrow> xs ! i \<noteq> x \<Longrightarrow> x \<in> set (xs[i := y])"
  by (metis in_set_conv_nth length_list_update nth_list_update_neq)

lemma quit_alive_step: "chat_step a w w' \<Longrightarrow> quit_alive w \<Longrightarrow> quit_alive w'"
proof (induction rule: chat_step.induct)
  case (io w)
  then show ?case by (auto simp: quit_alive_def chatFromStdin_def exchange_def Let_def split: prod.split)
next
  case (take i w)
  then show ?case
    by (auto simp: quit_alive_def net_take_def exchange_def quit_msg_def set_update_memI Let_def)
next
  case (put_back i w)
  then show ?case by (simp add: quit_alive_def net_put_back_def exchange_def)
next
  case (die i w)
  then show ?case by (auto simp: quit_alive_def intro: set_update_mem)
qed

text \<open>
  The goodbye is never lost: from the moment the input thread read it, in every interleaving, it is
  in the mailbox, or one network thread holds it and is about to put it back.
\<close>

theorem quit_is_never_lost:
  assumes "chat_run (chat_start input n) w" and "io_msg w = quit_msg"
  shows "mailbox w = quit_msg \<or> mailbox w = [] \<and> (\<exists>i<length (nets w). nets w ! i = Quitting)"
proof -
  have "quit_alive (chat_start input n)" by (simp add: quit_alive_def chat_start_def quit_msg_def)
  with assms(1) have "quit_alive w" using quit_alive_step by (rule chat_run_invariant)
  then show ?thesis using assms(2) by (auto simp: quit_alive_def in_set_conv_nth)
qed


section \<open>The goodbye reaches every thread\<close>

text \<open>
  A fair run: in every instant one thread makes a step or nobody does, and no network thread waits for
  ever for its turn.
\<close>

definition fair_run :: "(nat \<Rightarrow> chat_world) \<Rightarrow> (nat \<Rightarrow> actor option) \<Rightarrow> bool" where
  "fair_run ws as \<longleftrightarrow>
     (\<forall>n. case as n of None \<Rightarrow> ws (Suc n) = ws n | Some a \<Rightarrow> chat_step a (ws n) (ws (Suc n))) \<and>
     (\<forall>i<length (nets (ws 0)). \<forall>n. \<exists>m\<ge>n. as m = Some (Net i) \<or> nets (ws m) ! i = Ended)"

primrec turns :: "net_thread \<Rightarrow> nat" where
  "turns Running = 2"
| "turns Quitting = 1"
| "turns Ended = 0"

text \<open>The effective steps the network threads have left once the goodbye is there.\<close>

definition turns_left :: "chat_world \<Rightarrow> nat" where
  "turns_left w = sum_list (map turns (nets w))"

lemma turns_left_update:
  assumes "i < length (nets w)" and "turns x < turns (nets w ! i)"
  shows "turns_left (w\<lparr>mailbox := m, nets := (nets w)[i := x]\<rparr>) < turns_left w"
    and "turns_left (w\<lparr>nets := (nets w)[i := x]\<rparr>) < turns_left w"
proof -
  have "turns (nets w ! i) \<le> sum_list (map turns (nets w))"
    using assms(1) by (intro member_le_sum_list) auto
  then have "sum_list ((map turns (nets w))[i := turns x]) < sum_list (map turns (nets w))"
    using assms by (simp add: sum_list_update)
  then show "turns_left (w\<lparr>mailbox := m, nets := (nets w)[i := x]\<rparr>) < turns_left w"
    and "turns_left (w\<lparr>nets := (nets w)[i := x]\<rparr>) < turns_left w"
    by (simp_all add: turns_left_def map_update)
qed

lemma turns_left_0: "turns_left w = 0 \<longleftrightarrow> (\<forall>i<length (nets w). nets w ! i = Ended)"
proof -
  have "turns x = 0 \<longleftrightarrow> x = Ended" for x by (cases x) auto
  then show ?thesis by (auto simp: turns_left_def sum_list_eq_0_iff all_set_conv_all_nth)
qed

text \<open>Once the goodbye was read, a step is effective or does nothing at all.\<close>

lemma effective_or_idle:
  assumes "chat_step a w w'" and "io_msg w = quit_msg" and "quit_alive w"
  shows "w' = w \<or> turns_left w' < turns_left w"
  using assms
proof (induction rule: chat_step.induct)
  case (io w)
  then show ?case by simp
next
  case (take i w)
  then show ?case
    using turns_left_update(1) [of i w Quitting "[]"]
    by (cases w) (auto simp: quit_alive_def net_take_def exchange_def quit_msg_def)
next
  case (put_back i w)
  then show ?case
    using turns_left_update(1) [of i w Ended quit_msg] by (simp add: net_put_back_def exchange_def)
next
  case (die i w)
  then show ?case using turns_left_update(2) [of i w Ended] by simp
qed

lemma chat_step_same:
  assumes "chat_step a w w'"
  shows "length (nets w') = length (nets w)" and "io_msg w = quit_msg \<Longrightarrow> io_msg w' = quit_msg"
  using assms
  by (auto simp: chatFromStdin_def net_take_def net_put_back_def Let_def elim!: chat_stepE split: prod.split)

text \<open>Some thread has an effective step: its next turn is one.\<close>

lemma effective_turn:
  assumes "quit_alive w" and "io_msg w = quit_msg" and "turns_left w \<noteq> 0"
  obtains i where "i < length (nets w)" "nets w ! i \<noteq> Ended"
    "\<And>w'. chat_step (Net i) w w' \<Longrightarrow> turns_left w' < turns_left w"
proof (cases "mailbox w = quit_msg")
  case True
  obtain i where i: "i < length (nets w)" "nets w ! i \<noteq> Ended" using assms(3) by (auto simp: turns_left_0)
  show thesis
  proof (rule that [OF i])
    fix w'
    assume "chat_step (Net i) w w'"
    then show "turns_left w' < turns_left w"
      using True turns_left_update(1) [of i w Quitting "[]"] turns_left_update(1) [of i w Ended quit_msg]
        turns_left_update(2) [of i w Ended]
      by (auto simp: net_take_def net_put_back_def exchange_def elim!: chat_stepE)
  qed
next
  case False
  then obtain i where i: "i < length (nets w)" "nets w ! i = Quitting"
    using assms(1,2) by (auto simp: quit_alive_def in_set_conv_nth)
  show thesis
  proof (rule that [OF i(1)])
    fix w'
    assume "chat_step (Net i) w w'"
    then show "turns_left w' < turns_left w"
      using i turns_left_update(1) [of i w Ended quit_msg]
      by (auto simp: net_put_back_def exchange_def elim!: chat_stepE)
  qed (use i in simp)
qed

text \<open>A fair run from there on makes progress until nothing is left to do.\<close>

lemma fair_progress:
  assumes fair: "fair_run ws as" and pos: "turns_left (ws n) \<noteq> 0"
    and inv: "\<And>n. quit_alive (ws n) \<and> io_msg (ws n) = quit_msg \<and> length (nets (ws n)) = length (nets (ws 0))"
  shows "\<exists>m. turns_left (ws m) < turns_left (ws n)"
proof (rule ccontr)
  have step: "ws (Suc n) = ws n \<or> (\<exists>a. as n = Some a \<and> chat_step a (ws n) (ws (Suc n)))" for n
    using fair unfolding fair_run_def by (auto split: option.splits dest!: spec [of _ n])
  have idle: "ws (Suc n) = ws n \<or> turns_left (ws (Suc n)) < turns_left (ws n)" for n
    using step [of n] inv [of n] effective_or_idle by blast
  assume no: "\<nexists>m. turns_left (ws m) < turns_left (ws n)"
  have same: "ws m = ws n" if "n \<le> m" for m
    using that by (induction m rule: dec_induct) (use idle no in metis)+
  obtain i where i: "i < length (nets (ws n))" "nets (ws n) ! i \<noteq> Ended"
      "\<And>w'. chat_step (Net i) (ws n) w' \<Longrightarrow> turns_left w' < turns_left (ws n)"
    using effective_turn inv pos by metis
  then obtain m where m: "n \<le> m" "as m = Some (Net i) \<or> nets (ws m) ! i = Ended"
    using fair inv [of n] unfolding fair_run_def by metis
  then have a: "as m = Some (Net i)" using i(2) same by metis
  then have "chat_step (Net i) (ws m) (ws (Suc m))"
    using fair unfolding fair_run_def by (auto split: option.splits dest!: spec [of _ m])
  then show False using i(3) no same [OF m(1)] by metis
qed

text \<open>
  C3. Typing the goodbye ends every network thread: in every fair interleaving from then on there is an
  instant at which all their loops are over.
\<close>

theorem quit_reaches_everyone:
  assumes "chat_run (chat_start input k) (ws 0)" and "io_msg (ws 0) = quit_msg" and fair: "fair_run ws as"
  shows "\<exists>n. \<forall>i<length (nets (ws n)). nets (ws n) ! i = Ended"
proof -
  have step: "ws (Suc n) = ws n \<or> (\<exists>a. as n = Some a \<and> chat_step a (ws n) (ws (Suc n)))" for n
    using fair unfolding fair_run_def by (auto split: option.splits dest!: spec [of _ n])
  have "quit_alive (chat_start input k)" by (simp add: quit_alive_def chat_start_def quit_msg_def)
  with assms(1) have q0: "quit_alive (ws 0)" using quit_alive_step by (rule chat_run_invariant)
  have inv: "quit_alive (ws n) \<and> io_msg (ws n) = quit_msg \<and> length (nets (ws n)) = length (nets (ws 0))" for n
  proof (induction n)
    case 0
    then show ?case using q0 assms(2) by simp
  next
    case (Suc n)
    then show ?case using step [of n] by (auto simp: chat_step_same quit_alive_step)
  qed
  have "\<exists>m. turns_left (ws m) = 0" for n :: nat
  proof (induction "turns_left (ws n)" arbitrary: n rule: less_induct)
    case less
    show ?case
    proof (cases "turns_left (ws n) = 0")
      case False
      then obtain m where "turns_left (ws m) < turns_left (ws n)" using fair_progress [OF fair False inv] by blast
      then show ?thesis by (rule less.hyps)
    qed blast
  qed
  then show ?thesis by (auto simp: turns_left_0)
qed


section \<open>What is delivered\<close>

definition pending :: "chat_world \<Rightarrow> string list" where
  "pending w = (if mailbox w \<in> {[], quit_msg} then [] else [mailbox w])"

lemma subseq_left: "subseq (a @ b) c \<Longrightarrow> subseq a c"
  by (rule subseq_order.order_trans [OF subseq_rev_drop_many [OF subseq_order.order_refl]])

lemma delivery_step:
  "chat_step a w w' \<Longrightarrow> subseq (delivered w @ pending w) (typed w) \<Longrightarrow> subseq (delivered w' @ pending w') (typed w')"
proof (induction rule: chat_step.induct)
  case (io w)
  then have "subseq (delivered w) (typed w)" by (blast intro: subseq_left)
  then show ?case
    by (auto simp: pending_def chatFromStdin_def exchange_def Let_def split: prod.split intro: subseq_rev_drop_many)
next
  case (take i w)
  consider "mailbox w \<in> {[], quit_msg}" | "mailbox w \<notin> {[], quit_msg}" by blast
  then show ?case
    using take by cases (auto simp: pending_def net_take_def exchange_def)
next
  case (put_back i w)
  then show ?case
    by (auto simp: pending_def net_put_back_def exchange_def split: if_splits dest: subseq_left)
next
  case (die i w)
  have "pending (w\<lparr>nets := l\<rparr>) = pending w" for l by (simp add: pending_def)
  then show ?case using die by simp
qed

text \<open>
  No message is sent twice and the order is kept: what all network threads together took to send is a
  subsequence of what the input thread put into the mailbox. Messages can be lost: the input thread
  overwrites what nobody took.
\<close>

theorem chat_delivers_at_most_once:
  assumes "chat_run (chat_start input n) w"
  shows "subseq (delivered w) (typed w)"
proof -
  have "subseq (delivered w @ pending w) (typed w)"
    by (rule chat_run_invariant [OF assms _ delivery_step]) (simp_all add: chat_start_def pending_def)
  then show ?thesis by (rule subseq_left)
qed


section \<open>The end of standard input\<close>

definition eof_inv :: "string \<Rightarrow> chat_world \<Rightarrow> bool" where
  "eof_inv m w \<longleftrightarrow> (if good (stdin w) then chars (stdin w) = m \<and> io_msg w = [] else io_msg w = m)"

lemma net_step_input: "chat_step (Net i) w w' \<Longrightarrow> stdin w' = stdin w \<and> io_msg w' = io_msg w"
  by (auto simp: net_take_def net_put_back_def exchange_def elim!: chat_stepE)

lemma eof_inv_step: "newline \<notin> set m \<Longrightarrow> chat_step a w w' \<Longrightarrow> eof_inv m w \<Longrightarrow> eof_inv m w'"
  by (cases a) (auto simp: eof_inv_def chatFromStdin_def getline_def Let_def dest!: net_step_input split: if_splits)

text \<open>One turn of the input thread and one of the first network thread, at the end of the input.\<close>

lemma eof_round:
  assumes "newline \<notin> set m" and "m \<notin> {[], quit_msg}" and "eof_inv m w" and "nets w \<noteq> []" and "nets w ! 0 = Running"
  shows "\<exists>w'. chat_run w w' \<and> eof_inv m w' \<and> nets w' = nets w \<and> delivered w' = delivered w @ [m]"
proof -
  let ?u = "chatFromStdin w"
  have io: "io_msg w \<noteq> quit_msg" using assms(2,3) by (auto simp: eof_inv_def quit_msg_def split: if_splits)
  have u: "eof_inv m ?u" "mailbox ?u = m" "nets ?u = nets w" "delivered ?u = delivered w"
    using assms(1,3) by (auto simp: eof_inv_def chatFromStdin_def getline_def exchange_def Let_def split: if_splits)
  have "chat_run w ?u" using chat_run.step [OF chat_run.refl chat_step.io [OF io]] .
  moreover have "chat_step (Net 0) ?u (net_take 0 ?u)" by (rule chat_step.take) (use u(3) assms(4,5) in auto)
  ultimately have "chat_run w (net_take 0 ?u)" by (rule chat_run.step)
  moreover have "eof_inv m (net_take 0 ?u)" "nets (net_take 0 ?u) = nets w" "delivered (net_take 0 ?u) = delivered w @ [m]"
    using u assms(2) by (auto simp: net_take_def exchange_def eof_inv_def split: if_splits)
  ultimately show ?thesis by blast
qed

lemma chat_run_trans: "chat_run v w \<Longrightarrow> chat_run u v \<Longrightarrow> chat_run u w"
  by (induction rule: chat_run.induct) (auto intro: chat_run.step)



text \<open>One thread, one line.\<close>

definition demo_quit :: chat_world where
  "demo_quit = chatFromStdin (chat_start [CHR ''q'', newline] 1)"

lemma demo_quit_sel [simp]:
  "mailbox demo_quit = ''q''" "io_msg demo_quit = ''q''" "nets demo_quit = [Running]"
  by (simp_all add: demo_quit_def chatFromStdin_def chat_start_def getline_def exchange_def)

lemma demo_quit_run: "chat_run (chat_start [CHR ''q'', newline] 1) demo_quit"
  unfolding demo_quit_def
  by (rule chat_run.step [OF chat_run.refl]) (rule chat_step.io, simp add: chat_start_def quit_msg_def)

theorem quit_reaches_everyone_witness:
  "let ws = (\<lambda>n. [demo_quit, net_take 0 demo_quit, net_put_back 0 (net_take 0 demo_quit)] ! min n 2) in
   \<exists>n. \<forall>i<length (nets (ws n)). nets (ws n) ! i = Ended"
  unfolding Let_def
proof (rule quit_reaches_everyone)
  let ?ws = "\<lambda>n. [demo_quit, net_take 0 demo_quit, net_put_back 0 (net_take 0 demo_quit)] ! min n 2"
  have 1: "chat_step (Net 0) demo_quit (net_take 0 demo_quit)"
    by (rule chat_step.take) simp_all
  have 2: "chat_step (Net 0) (net_take 0 demo_quit) (net_put_back 0 (net_take 0 demo_quit))"
    by (rule chat_step.put_back) (simp_all add: net_take_def exchange_def quit_msg_def)
  have steps: "case (if n < 2 then Some (Net 0) else None) of None \<Rightarrow> ?ws (Suc n) = ?ws n
      | Some a \<Rightarrow> chat_step a (?ws n) (?ws (Suc n))" for n
    using 1 2 by (cases n; cases "n - 1") (auto simp: numeral_2_eq_2)
  have ended: "nets (?ws (n + 2)) ! 0 = Ended" for n
    by (simp add: net_put_back_def net_take_def exchange_def quit_msg_def)
  show "fair_run ?ws (\<lambda>n. if n < 2 then Some (Net 0) else None)"
    unfolding fair_run_def
  proof (intro conjI allI impI)
    fix i n
    assume "i < length (nets (?ws 0))"
    then have "nets (?ws (n + 2)) ! i = Ended" using ended by simp
    then show "\<exists>m\<ge>n. (if m < 2 then Some (Net 0) else None) = Some (Net i) \<or> nets (?ws m) ! i = Ended"
      by (intro exI [of _ "n + 2"]) simp
  qed (rule steps)
qed (use demo_quit_run in \<open>simp_all add: quit_msg_def\<close>)

end
