(* ===== verification/ChatThreads.thy ===== *)
theory ChatThreads
  imports NetworkTask Chat
begin

text \<open>
  The threads of the program at the mailbox. \<open>Chat\<close> lets threads make steps of their own; here they are the
  program's: the network threads are runs of \<open>networkTask\<close>, each with its own socket and its own kernel, the
  input thread is the loop of \<open>ioTask\<close>, and what ties them together is the mailbox only: \<open>chat\<close> returns what
  the previous call put there, whichever thread made it. Every such composition is a run of \<open>Chat\<close>.
\<close>

section \<open>The calls a thread makes at the mailbox\<close>

text \<open>What a history offered to the mailbox and got from it, in the order of time.\<close>

type_synonym dialogue = "(string \<times> string) list"

fun chat_call :: "call \<times> ret \<Rightarrow> dialogue" where
  "chat_call (C_chat w, r) = [(w, odata r)]"
| "chat_call (c, r) = []"

primrec chats :: "history \<Rightarrow> dialogue" where
  "chats [] = []"
| "chats (e # h) = chats h @ chat_call e"

lemma chats_append [simp]: "chats (u @ h) = chats h @ chats u"
  by (induction u) simp_all

lemma chat_call_other: "\<forall>w. fst e \<noteq> C_chat w \<Longrightarrow> chat_call e = []"
  by (cases e rule: chat_call.cases) auto

lemma chats_other: "\<forall>e\<in>set u. \<forall>w. fst e \<noteq> C_chat w \<Longrightarrow> chats u = []"
  by (induction u) (simp_all add: chat_call_other)

text \<open>
  What becomes of a network thread by a dialogue: it offers nothing until it got the goodbye, then it offers the
  goodbye, and then it is silent. There is no value for any other dialogue.
\<close>

fun after :: "net_thread \<Rightarrow> dialogue \<Rightarrow> net_thread option" where
  "after st [] = Some st"
| "after Running ((w, r) # es) = (if w = [] then after (if r = quit_msg then Quitting else Running) es else None)"
| "after Quitting ((w, r) # es) = (if w = quit_msg then after Ended es else None)"
| "after Ended (e # es) = None"

lemma after_append: "after st (es @ es') = Option.bind (after st es) (\<lambda>st'. after st' es')"
  by (induction st es rule: after.induct) simp_all

lemma after_prefix: "after st es \<noteq> None \<Longrightarrow> prefix ds es \<Longrightarrow> after st ds \<noteq> None"
  by (cases "after st ds") (auto simp: after_append elim!: prefixE)

text \<open>Run by a thread in the state \<open>st\<close>, a computation ends, and leaves the thread, as \<open>Q\<close> says.\<close>

definition talks :: "net_thread \<Rightarrow> (error + 'a \<Rightarrow> net_thread \<Rightarrow> bool) \<Rightarrow> ('z world_scheme, 'a) io \<Rightarrow> bool" where
  "talks st Q m \<longleftrightarrow> (\<forall>s. \<exists>u st'. trace (snd (m s)) = u @ trace s \<and> after st (chats u) = Some st' \<and> Q (fst (m s)) st')"

lemma talks_mono: "talks st Q m \<Longrightarrow> (\<And>r st'. Q r st' \<Longrightarrow> R r st') \<Longrightarrow> talks st R m"
  unfolding talks_def by metis

lemma talks_mute:
  assumes "mute m" and "\<And>r. Q r st"
  shows "talks st Q m"
  unfolding talks_def
proof
  fix s
  obtain u where "trace (snd (m s)) = u @ trace s" "\<forall>e\<in>set u. \<forall>w. fst e \<noteq> C_chat w"
    using assms(1) unfolding only_def by blast
  then show "\<exists>u st'. trace (snd (m s)) = u @ trace s \<and> after st (chats u) = Some st' \<and> Q (fst (m s)) st'"
    using assms(2) by (intro exI [of _ u] exI [of _ st]) (simp add: chats_other)
qed

lemma talks_chat:
  assumes "\<And>r st'. after st [(w, r)] = Some st' \<Longrightarrow> Q (Inr r) st'"
    and "\<And>r. after st [(w, r)] \<noteq> None"
  shows "talks st Q (chat E w)"
  unfolding talks_def
proof
  fix s :: "'b world_scheme"
  let ?r = "os E (trace s) (C_chat w)"
  have "chat E w s = (Inr (odata ?r), s\<lparr>trace := (C_chat w, ?r) # trace s\<rparr>)"
    by (simp add: chat_def sys_def bindE_def return_def Let_def)
  then show "\<exists>u st'. trace (snd (chat E w s)) = u @ trace s \<and> after st (chats u) = Some st' \<and> Q (fst (chat E w s)) st'"
    using assms [of "odata ?r"] by (intro exI [of _ "[(C_chat w, ?r)]"]) auto
qed

lemma talks_bindE:
  assumes "talks st Q m" and "\<And>x st'. Q (Inr x) st' \<Longrightarrow> talks st' R (f x)" and "\<And>e st'. Q (Inl e) st' \<Longrightarrow> R (Inl e) st'"
  shows "talks st R (bindE m f)"
  unfolding talks_def
proof
  fix s
  obtain r t where r: "m s = (r, t)" by force
  obtain u st' where u: "trace t = u @ trace s" "after st (chats u) = Some st'" "Q r st'"
    using assms(1) [unfolded talks_def, rule_format, of s] r by auto
  show "\<exists>u st'. trace (snd (bindE m f s)) = u @ trace s \<and> after st (chats u) = Some st' \<and> R (fst (bindE m f s)) st'"
  proof (cases r)
    case (Inl e)
    then show ?thesis using r u assms(3) by (intro exI [of _ u]) (simp add: bindE_def)
  next
    case (Inr x)
    then obtain v st'' where "trace (snd (f x t)) = v @ trace t" "after st' (chats v) = Some st''" "R (fst (f x t)) st''"
      using assms(2) [of x st'] u(3) unfolding talks_def by metis
    then show ?thesis using Inr r u by (intro exI [of _ "v @ u"]) (simp add: bindE_def after_append)
  qed
qed

lemma talks_thenE:
  "talks st Q m \<Longrightarrow> (\<And>x st'. Q (Inr x) st' \<Longrightarrow> talks st' R n) \<Longrightarrow> (\<And>e st'. Q (Inl e) st' \<Longrightarrow> R (Inl e) st') \<Longrightarrow>
    talks st R (thenE m n)"
  unfolding thenE_def by (rule talks_bindE)

text \<open>Before, and after, a computation that keeps away from the mailbox.\<close>

lemma talks_after_mute: "mute m \<Longrightarrow> (\<And>x. talks st R (f x)) \<Longrightarrow> (\<And>e. R (Inl e) st) \<Longrightarrow> talks st R (bindE m f)"
  by (rule talks_bindE [OF talks_mute [where Q = "\<lambda>_ st'. st' = st"]]) auto

lemma talks_then_mute: "mute m \<Longrightarrow> talks st R n \<Longrightarrow> (\<And>e. R (Inl e) st) \<Longrightarrow> talks st R (thenE m n)"
  unfolding thenE_def by (rule talks_after_mute)

lemma talks_on_unwind:
  assumes "talks st Q m" and "mute c" and "\<And>e e' st'. Q (Inl e) st' \<Longrightarrow> Q (Inl e') st'"
  shows "talks st Q (on_unwind m c)"
  unfolding talks_def
proof
  fix s
  obtain r t where r: "m s = (r, t)" by force
  obtain u st' where u: "trace t = u @ trace s" "after st (chats u) = Some st'" "Q r st'"
    using assms(1) [unfolded talks_def, rule_format, of s] r by auto
  obtain v where "trace (snd (c t)) = v @ trace t" "\<forall>e\<in>set v. \<forall>w. fst e \<noteq> C_chat w"
    using assms(2) unfolding only_def by blast
  then have v: "trace (snd (c t)) = v @ trace t" "chats v = []" by (simp_all add: chats_other)
  show "\<exists>u st'. trace (snd (on_unwind m c s)) = u @ trace s \<and> after st (chats u) = Some st' \<and> Q (fst (on_unwind m c s)) st'"
  proof (cases "\<exists>e. r = Inl e \<and> is_exception e")
    case True
    then have "\<exists>e. fst (on_unwind m c s) = Inl e" "snd (on_unwind m c s) = snd (c t)"
      using r by (auto simp: on_unwind_def split: prod.split sum.split)
    then show ?thesis using True u v assms(3) by (intro exI [of _ "v @ u"]) auto
  next
    case False
    then have "on_unwind m c s = (r, t)" using r by (auto simp: on_unwind_def split: sum.split)
    then show ?thesis using u by auto
  qed
qed

section \<open>A network thread's calls\<close>

text \<open>
  After one call of \<open>chatOrQuit\<close> the loop goes on, or the goodbye is back in the mailbox; an exception leaves
  the thread where it was.
\<close>

definition asked :: "error + string \<Rightarrow> net_thread \<Rightarrow> bool" where
  "asked r st \<longleftrightarrow> st = (if r = Inr quit_msg then Ended else Running)"

definition not_quitting :: "error + 'a \<Rightarrow> net_thread \<Rightarrow> bool" where
  "not_quitting r st \<longleftrightarrow> st \<noteq> Quitting"

lemma not_quitting [simp]: "not_quitting r Running" "not_quitting r Ended"
  by (simp_all add: not_quitting_def)

text \<open>From one history to the next: a thread's dialogue, from the start, that does not end between the two calls.\<close>

definition chat_thread :: "history \<Rightarrow> history \<Rightarrow> bool" where
  "chat_thread h h' \<longleftrightarrow> (\<exists>u st. h' = u @ h \<and> after Running (chats u) = Some st \<and> st \<noteq> Quitting)"

context mute_socket
begin

lemma mute_round: "mute (launch V E)" "mute (so_receive V E)" "mute (so_send V E msg)"
  unfolding launch_def by (intro only_intros mute_op [of _ E]; simp)+

lemma mute_establishSocket: "mute (establishSocket V E config)"
  unfolding establishSocket_def by (intro only_intros mute_op [of _ E]; simp)

lemma talks_chatOrQuit: "talks Running asked (chatOrQuit V E)"
proof -
  let ?got = "\<lambda>r st. st = (if r = Inr quit_msg then Quitting else Running)"
  have "talks Running ?got (chat E [] :: ('z world_scheme, string) io)"
    by (rule talks_chat) auto
  moreover have "talks st asked (thenE (if msg \<noteq> [] then if msg \<noteq> quit_msg then so_send V E msg else thenE (chat E msg) (return ())
        else return ()) (return msg))" if "?got (Inr msg) st" for msg st
  proof (cases "msg = quit_msg")
    case True
    have "talks Quitting (\<lambda>r st. \<exists>w. r = Inr w \<and> st = Ended) (chat E quit_msg :: ('z world_scheme, string) io)"
      by (rule talks_chat) auto
    then have "talks Quitting asked (thenE (thenE (chat E quit_msg) (return ())) (return quit_msg) :: ('z world_scheme, string) io)"
      unfolding thenE_def
      by (intro talks_bindE [where Q = "\<lambda>r st. r = Inr () \<and> st = Ended"] talks_bindE [where Q = "\<lambda>r st. \<exists>w. r = Inr w \<and> st = Ended"])
        (auto simp: talks_def return_def asked_def intro: exI [of _ "[]"])
    then show ?thesis using that True by (simp add: quit_msg_def)
  next
    case False
    then have "mute (if msg \<noteq> [] then if msg \<noteq> quit_msg then so_send V E msg else thenE (chat E msg) (return ()) else return ())"
      by (simp add: mute_round only_intros)
    then show ?thesis
      by (rule talks_then_mute) (use that False in \<open>auto simp: asked_def talks_def return_def intro: exI [of _ "[]"]\<close>)
  qed
  ultimately show ?thesis
    unfolding chatOrQuit_def by (rule talks_bindE) (auto simp: asked_def)
qed

lemma talks_network_loop:
  "talks (if msg = quit_msg then Ended else Running) not_quitting (network_loop n V E forever die msg)"
proof (induction n arbitrary: msg)
  case 0
  then show ?case by (auto simp: talks_def return_def intro: exI [of _ "[]"])
next
  case (Suc n)
  have now: "mute (if forever then return True else bindE (sys E C_now) (\<lambda>r. return (rv r < die)) :: ('z world_scheme, bool) io)"
    by (intro only_intros) simp
  have round: "talks Running not_quitting (thenE (launch V E) (thenE (so_receive V E) (bindE (chatOrQuit V E) (network_loop n V E forever die))))"
  proof (intro talks_then_mute mute_round)
    show "talks Running not_quitting (bindE (chatOrQuit V E) (network_loop n V E forever die))"
    proof (rule talks_bindE [OF talks_chatOrQuit])
      fix m st
      assume "asked (Inr m) st"
      then show "talks st not_quitting (network_loop n V E forever die m)" using Suc [of m] by (simp add: asked_def)
    qed (simp add: asked_def)
  qed simp_all
  show ?case
    unfolding network_loop.simps
    by (rule talks_after_mute [OF now]) (use round in \<open>auto intro: talks_mute only_basic\<close>)
qed

lemma talks_network_body: "talks Running not_quitting (network_body n V E p)"
proof -
  have start: "mute (startTask E (np_delay p) :: ('z world_scheme, unit) io)" and now: "mute (sys E C_now :: ('z world_scheme, ret) io)"
    unfolding startTask_def by (intro only_intros; simp)+
  have loop: "talks Running not_quitting (network_loop n V E (np_lifetime p = 0) die [])" for die
    using talks_network_loop [of "[]"] by (simp add: quit_msg_def)
  have work: "talks Running not_quitting (on_unwind (thenE (establishSocket V E (np_config p))
      (bindE (sys E C_now) (\<lambda>now. network_loop n V E (np_lifetime p = 0) (rv now + np_lifetime p) []))) (so_dtor V E))"
    by (rule talks_on_unwind [OF talks_then_mute [OF mute_establishSocket talks_after_mute [OF now loop]] mute_dtor])
      (simp_all add: not_quitting_def)
  have close: "mute (if ended then thenE (so_dtor V E) (return True) else return False)" for ended
    by (intro only_intros mute_dtor)
  have rest: "talks Running not_quitting (bindE (on_unwind (thenE (establishSocket V E (np_config p))
      (bindE (sys E C_now) (\<lambda>now. network_loop n V E (np_lifetime p = 0) (rv now + np_lifetime p) []))) (so_dtor V E))
      (\<lambda>ended. if ended then thenE (so_dtor V E) (return True) else return False))"
    by (rule talks_bindE [OF work talks_mute [OF close]]) (simp_all add: not_quitting_def)
  show ?thesis
    unfolding network_body_def by (intro talks_then_mute start mute_ctor rest) simp_all
qed

lemma network_run_talks:
  assumes "trace (blank h) = h"
  shows "chat_thread h (snd (network_run blank n E p h V))"
proof -
  obtain r t where rt: "network_body n V E p (blank h) = (r, t)" by force
  have "snd (network_run blank n E p h V) = trace t"
    by (simp add: network_run_def LOG_EXCEPTIONS_def rt split: sum.split option.split)
  then show ?thesis
    using talks_network_body [of n E p, unfolded talks_def, rule_format, of "blank h"] assms by (simp add: rt not_quitting_def chat_thread_def)
qed

end

lemma networkTask_chats: "chat_thread h (snd (networkTask n E p h))"
proof -
  have b: "trace (blank_tcp h) = h" "trace (blank_udp h) = h" "trace (blank_unix h) = h" "trace (blank_forked h) = h"
      "trace (blank_sctp c h) = h" for c
    by (simp_all add: blank_tcp_def blank_udp_def blank_unix_def blank_forked_def blank_sctp_def)
  then show ?thesis
    unfolding networkTask_def createSocket_def
    by (cases "cfg_protocol (np_config p)")
      (simp_all add: b tcp_mute.network_run_talks dccp_mute.network_run_talks udp_mute.network_run_talks
        unix_mute.network_run_talks forked_mute.network_run_talks sctp_mute.network_run_talks)
qed

lemma task_chats: "after Running (chats (snd (networkTask n E p []))) \<noteq> None"
  using networkTask_chats [of "[]" n E p] by (auto simp: chat_thread_def)

section \<open>All threads together\<close>

text \<open>
  Who offered what to the mailbox, and what it got, in the order in which the calls of \<open>chat\<close> took the mutex.
  \<open>exchanged\<close>: each call got what the one before it offered.
\<close>

type_synonym exchanges = "(actor \<times> string \<times> string) list"

fun exchanged :: "string \<Rightarrow> exchanges \<Rightarrow> bool" where
  "exchanged m [] = True"
| "exchanged m ((a, w, r) # es) = (case exchange m w of (got, m') \<Rightarrow> r = got \<and> exchanged m' es)"

fun last_offer :: "string \<Rightarrow> exchanges \<Rightarrow> string" where
  "last_offer m [] = m"
| "last_offer m ((a, w, r) # es) = last_offer w es"

lemma exchanged_append [simp]:
  "exchanged m (es @ [(a, w, r)]) \<longleftrightarrow> exchanged m es \<and> r = last_offer m es" "last_offer m (es @ [(a, w, r)]) = w"
  by (induction m es rule: exchanged.induct) (auto simp: exchange_def)

definition dialogue_of :: "actor \<Rightarrow> exchanges \<Rightarrow> dialogue" where
  "dialogue_of a es = map snd (filter (\<lambda>e. fst e = a) es)"

lemma dialogue_of_append [simp]:
  "dialogue_of a (es @ [(b, wr)]) = (if a = b then dialogue_of a es @ [wr] else dialogue_of a es)"
  by (simp add: dialogue_of_def)

text \<open>What the network threads took to send; what is found while the goodbye is put back is thrown away.\<close>

definition taken :: "exchanges \<Rightarrow> string list" where
  "taken es = [r. (a, w, r) \<leftarrow> es, a \<noteq> Io \<and> w = [] \<and> r \<noteq> [] \<and> r \<noteq> quit_msg]"

lemma taken_append [simp]:
  "taken [] = []"
  "taken (es @ [(a, w, r)]) = taken es @ (if a \<noteq> Io \<and> w = [] \<and> r \<noteq> [] \<and> r \<noteq> quit_msg then [r] else [])"
  by (simp_all add: taken_def)

text \<open>\<open>ioTask\<close>: what it offers in its first \<open>k\<close> rounds, when it started with the message \<open>msg\<close>.\<close>

primrec ioTask :: "nat \<Rightarrow> istream \<Rightarrow> string \<Rightarrow> string list" where
  "ioTask 0 i msg = []"
| "ioTask (Suc k) i msg =
     (if msg \<noteq> quit_msg then case getline i msg of (i', msg') \<Rightarrow> msg' # ioTask k i' msg' else [])"

definition after_lines :: "nat \<Rightarrow> istream \<times> string \<Rightarrow> istream \<times> string" where
  "after_lines k = (\<lambda>(i, msg). getline i msg) ^^ k"

lemma ioTask_next:
  assumes "prefix (ls @ [l]) (ioTask k i msg)" and "after_lines (length ls) (i, msg) = (j, m)"
  shows "m \<noteq> quit_msg \<and> l = snd (getline j m)"
  using assms
proof (induction ls arbitrary: k i msg)
  case Nil
  then show ?case by (cases k) (auto simp: after_lines_def split: if_splits prod.splits)
next
  case (Cons l' ls)
  obtain i' msg' where g: "getline i msg = (i', msg')" by force
  have "prefix (ls @ [l]) (ioTask (k - 1) i' msg')"
    using Cons.prems(1) g by (cases k) (auto split: if_splits)
  moreover have "after_lines (length ls) (i', msg') = (j, m)"
    using Cons.prems(2) g by (simp add: after_lines_def funpow_swap1)
  ultimately show ?case by (rule Cons.IH)
qed

lemma after_lines_Suc: "after_lines (Suc k) x = (case after_lines k x of (i, msg) \<Rightarrow> getline i msg)"
  by (simp add: after_lines_def)

text \<open>
  The program: the input thread, and a network thread for each of \<open>ts\<close>, a number of rounds, a kernel and
  parameters. Each made the first calls of its dialogue, and what a network thread's kernel let \<open>chat\<close>
  return is what was in the mailbox.
\<close>

fun task_dialogue :: "nat \<times> env \<times> NetworkTaskParams \<Rightarrow> dialogue" where
  "task_dialogue (n, E, p) = chats (snd (networkTask n E p []))"

definition program :: "string \<Rightarrow> nat \<Rightarrow> (nat \<times> env \<times> NetworkTaskParams) list \<Rightarrow> exchanges \<Rightarrow> bool" where
  "program input k ts es \<longleftrightarrow>
     exchanged [] es \<and> fst ` set es \<subseteq> insert Io (Net ` {..<length ts}) \<and>
     prefix (map fst (dialogue_of Io es)) (ioTask k \<lparr>chars = input, good = True\<rparr> []) \<and>
     (\<forall>i<length ts. prefix (dialogue_of (Net i) es) (task_dialogue (ts ! i)))"

lemma program_before: "program input k ts (es @ [e]) \<Longrightarrow> program input k ts es"
  by (cases e) (auto simp: program_def dest: append_prefixD split: if_splits)

section \<open>The program is a run of the chat\<close>

text \<open>A state of \<open>Chat\<close> in which all that happened has happened.\<close>

definition shows_chat :: "string \<Rightarrow> (nat \<times> env \<times> NetworkTaskParams) list \<Rightarrow> exchanges \<Rightarrow> chat_world \<Rightarrow> bool" where
  "shows_chat input ts es w \<longleftrightarrow>
     mailbox w = last_offer [] es \<and> typed w = map fst (dialogue_of Io es) \<and> delivered w = taken es \<and>
     (stdin w, io_msg w) = after_lines (length (dialogue_of Io es)) (\<lparr>chars = input, good = True\<rparr>, []) \<and>
     length (nets w) = length ts \<and>
     (\<forall>i<length ts. after Running (dialogue_of (Net i) es) = Some (nets w ! i))"

lemma shows_chat_start: "shows_chat input ts [] (chat_start input (length ts))"
  by (simp add: shows_chat_def chat_start_def dialogue_of_def after_lines_def)

lemma input_step:
  assumes "program input k ts (es @ [(Io, l, r)])" and "shows_chat input ts es w"
  shows "chat_step Io w (chatFromStdin w) \<and> shows_chat input ts (es @ [(Io, l, r)]) (chatFromStdin w)"
proof -
  have "io_msg w \<noteq> quit_msg \<and> l = snd (getline (stdin w) (io_msg w))"
    by (rule ioTask_next [of "map fst (dialogue_of Io es)" l k "\<lparr>chars = input, good = True\<rparr>" "[]"])
      (use assms in \<open>auto simp: program_def shows_chat_def\<close>)
  then show ?thesis
    using assms(2) by (auto simp: shows_chat_def chatFromStdin_def exchange_def after_lines_Suc split: prod.splits)
qed

text \<open>A thread's call is the one step it can make.\<close>

lemma task_step:
  assumes "program input k ts (es @ [(Net i, l, r)])" and "shows_chat input ts es w"
  shows "\<exists>w'. chat_step (Net i) w w' \<and> shows_chat input ts (es @ [(Net i, l, r)]) w'"
proof -
  have i: "i < length ts" "i < length (nets w)" and r: "r = mailbox w"
    using assms by (auto simp: program_def shows_chat_def)
  obtain n E p where t: "ts ! i = (n, E, p)" by (cases "ts ! i")
  have "prefix (dialogue_of (Net i) es @ [(l, r)]) (task_dialogue (ts ! i))"
    using assms(1) i by (auto simp: program_def)
  then have "after Running (dialogue_of (Net i) es @ [(l, r)]) \<noteq> None"
    by (rule after_prefix [rotated]) (simp add: t task_chats)
  then have "after (nets w ! i) [(l, r)] \<noteq> None"
    using assms(2) i by (simp add: shows_chat_def after_append)
  then consider (take) "nets w ! i = Running" "l = []" | (give) "nets w ! i = Quitting" "l = quit_msg"
    by (cases "nets w ! i") (auto split: if_splits)
  then show ?thesis
  proof cases
    case take
    then have "chat_step (Net i) w (net_take i w)" using i by (intro chat_step.take)
    moreover have "shows_chat input ts (es @ [(Net i, l, r)]) (net_take i w)"
      using assms(2) take i r
      by (auto simp: shows_chat_def net_take_def exchange_def after_append nth_list_update)
    ultimately show ?thesis by blast
  next
    case give
    then have "chat_step (Net i) w (net_put_back i w)" using i by (intro chat_step.put_back)
    moreover have "shows_chat input ts (es @ [(Net i, l, r)]) (net_put_back i w)"
      using assms(2) give i
      by (auto simp: shows_chat_def net_put_back_def exchange_def after_append nth_list_update quit_msg_def)
    ultimately show ?thesis by blast
  qed
qed

lemma program_shows_chat:
  assumes "program input k ts es"
  shows "\<exists>w. chat_run (chat_start input (length ts)) w \<and> shows_chat input ts es w"
  using assms
proof (induction es rule: rev_induct)
  case Nil
  show ?case using shows_chat_start chat_run.refl by blast
next
  case (snoc e es)
  obtain a l r where e: "e = (a, l, r)" by (cases e)
  obtain w where w: "chat_run (chat_start input (length ts)) w" "shows_chat input ts es w"
    using snoc.IH [OF program_before [OF snoc.prems]] by blast
  have "\<exists>w'. chat_step a w w' \<and> shows_chat input ts (es @ [(a, l, r)]) w'"
    using input_step task_step snoc.prems w(2) unfolding e by (cases a) blast+
  then show ?case unfolding e by (blast intro: chat_run.step [OF w(1)])
qed

text \<open>The input thread does not read on after the goodbye.\<close>

lemma ioTask_quit:
  "prefix ls (ioTask k i msg) \<Longrightarrow> quit_msg \<in> set ls \<Longrightarrow> snd (after_lines (length ls) (i, msg)) = quit_msg"
proof (induction ls arbitrary: k i msg)
  case (Cons l ls)
  obtain i' msg' where g: "getline i msg = (i', msg')" by force
  have ls: "l = msg'" "prefix ls (ioTask (k - 1) i' msg')"
    using Cons.prems(1) g by (cases k; auto split: if_splits)+
  have "snd (after_lines (length ls) (i', msg')) = quit_msg"
  proof (cases "msg' = quit_msg")
    case True
    then have "ls = []" using ls(2) by (cases "k - 1") auto
    then show ?thesis using True by (simp add: after_lines_def)
  next
    case False
    then show ?thesis using Cons.IH [OF ls(2)] Cons.prems(2) ls(1) by simp
  qed
  then show ?case using g by (simp add: after_lines_def funpow_swap1)
qed simp

section \<open>Properties\<close>

text \<open>
  C4. The program refines \<open>Chat\<close>: however the input thread and the network tasks, each with its protocol, its
  kernel and its failures, interleave at the mailbox, what happened there is a run of \<open>Chat\<close>, with the same mailbox,
  the same lines typed and taken, and every thread where its dialogue left it.
\<close>

theorem program_refines_chat:
  assumes "program input k ts es"
  shows "\<exists>w. chat_run (chat_start input (length ts)) w \<and> mailbox w = last_offer [] es \<and>
    typed w = map fst (dialogue_of Io es) \<and> delivered w = taken es \<and>
    (\<forall>i<length ts. after Running (dialogue_of (Net i) es) = Some (nets w ! i))"
  using program_shows_chat [OF assms] unfolding shows_chat_def by blast

text \<open>
  C11. The goodbye is never lost by the program: from the moment the input thread read it, however the threads
  interleave and whatever fails in them, it is in the mailbox, or one network task took it and its next call
  of \<open>chat\<close> puts it back.
\<close>

theorem program_keeps_the_goodbye:
  assumes "program input k ts es" and "quit_msg \<in> set (map fst (dialogue_of Io es))"
  shows "last_offer [] es = quit_msg \<or>
    last_offer [] es = [] \<and> (\<exists>i<length ts. after Running (dialogue_of (Net i) es) = Some Quitting)"
proof -
  obtain w where w: "chat_run (chat_start input (length ts)) w" "shows_chat input ts es w"
    using program_shows_chat [OF assms(1)] by blast
  have "prefix (map fst (dialogue_of Io es)) (ioTask k \<lparr>chars = input, good = True\<rparr> [])"
    using assms(1) by (simp add: program_def)
  from ioTask_quit [OF this assms(2)] have "io_msg w = quit_msg"
    using w(2) by (metis length_map shows_chat_def snd_conv)
  then show ?thesis using quit_is_never_lost [OF w(1)] w(2) by (auto simp: shows_chat_def)
qed

text \<open>
  C16. The program sends nothing that was not typed, nothing twice, and in the order of typing: what all network
  tasks together took to send is a subsequence of the lines the input thread read.
\<close>

theorem program_sends_what_was_typed:
  assumes "program input k ts es"
  shows "subseq (taken es) (ioTask k \<lparr>chars = input, good = True\<rparr> [])"
proof -
  obtain w where w: "chat_run (chat_start input (length ts)) w" "shows_chat input ts es w"
    using program_shows_chat [OF assms] by blast
  have "subseq (taken es) (map fst (dialogue_of Io es))"
    using chat_delivers_at_most_once [OF w(1)] w(2) by (simp add: shows_chat_def)
  then show ?thesis
    using assms by (auto simp: program_def elim!: prefixE)
qed

text \<open>
  C20. Whatever its protocol, its kernel and the messages it takes, and however it ends, a network task does at
  the mailbox what \<open>Chat\<close> says of a network thread: it only takes, until it took the goodbye; the goodbye it puts
  back, whatever else may fail, and from then on it keeps away from the mailbox. It is never left between the two.
\<close>

theorem network_task_is_a_chat_thread:
  "\<exists>u st. snd (networkTask n E p h) = u @ h \<and> after Running (chats u) = Some st \<and> st \<in> {Running, Ended}"
  using networkTask_chats [of h n E p] unfolding chat_thread_def by (metis insertI1 insertI2 net_thread.exhaust)

section \<open>A program that runs\<close>

text \<open>
  A task with a socket of the class \<open>SocketUnix\<close>, no peers, and a kernel that succeeds in everything, has nothing
  to receive, and finds the message \<open>m\<close> in the mailbox.
\<close>

definition chat_env :: "string \<Rightarrow> env" where
  "chat_env m = (demo_env 16 [] [])\<lparr>check_outcome := \<lambda>_ _. None,
     os := \<lambda>h c. if c = C_chat [] then (reply 0)\<lparr>odata := m\<rparr> else reply 0\<rparr>"

definition chat_params :: NetworkTaskParams where
  "chat_params = (demo_params Unix)\<lparr>np_config := (demo_config Unix)\<lparr>cfg_remotes := []\<rparr>, np_lifetime := 0\<rparr>"

lemma chat_env_sel:
  "check_outcome (chat_env m) = (\<lambda>_ _. None)" "due_tasks (chat_env m) = (\<lambda>_. [])" "launch_result (chat_env m) [] = None"
  "os (chat_env m) = (\<lambda>h c. if c = C_chat [] then (reply 0)\<lparr>odata := m\<rparr> else reply 0)"
  "task_order (chat_env m) h [] = []" "join_tasks (chat_env m) [] = None"
  by (simp_all add: chat_env_def demo_env_def)

lemma chat_params_sel:
  "cfg_protocol (np_config chat_params) = Unix" "cfg_remotes (np_config chat_params) = []" "np_delay chat_params = 0"
  "np_lifetime chat_params = 0"
  by (simp_all add: chat_params_def demo_params_def demo_config_def)

lemma unix_object_sel:
  "so_ctor unix_object E = unix_ctor E ()" "so_listen unix_object = Socket_listen" "so_connect unix_object = (\<lambda>_. unix_connect)"
  "so_receive unix_object = unix_receive" "so_send unix_object = unix_send" "so_dtor unix_object = unix_dtor"
  by (simp_all add: unix_object_def)

lemmas unix_eval = unix_ctor_def Socket_ctor_def Socket_init_def Socket_create_def fd_move_assign_def fd_close_def fd_dtor_def
  FileDescriptor_ctor_def invalid_fd_def Socket_configure_def configureReuseAddr_def configureNonBlockingMode_def SETSOCKOPT_def
  AF_UNIX_def AF_UNSPEC_def unix_bind_def unix_receive_def Socket_receive_def Socket_selectFds_def FDSet_reset_def FDSet_set_def
  FDSet_select_def FDSet_selectImpl_def FD_SETSIZE_def unix_connect_def unix_dtor_def unix_send_def Socket_dtor_def
  Socket_listen_def shouldListen_def

lemma chat_env_dialogue:
  assumes "m \<noteq> []"
  shows "task_dialogue (1, chat_env m, chat_params) = ([], m) # (if m = quit_msg then [(quit_msg, [])] else [])"
proof -
  have "wp (network_body 1 unix_object (chat_env m) chat_params)
      (\<lambda>_ t. chats (trace t) = ([], m) # (if m = quit_msg then [(quit_msg, [])] else [])) (\<lambda>_ _. False) (blank_unix [])"
    using assms by (simp add: chat_params_sel network_body_def startTask_def unix_object_sel blank_unix_def establishSocket_def
        launch_def chatOrQuit_def chat_def quit_msg_def chat_env_sel unix_eval wp_simps)
  then show ?thesis
    by (auto simp: networkTask_def createSocket_def chat_params_sel network_run_def LOG_EXCEPTIONS_def dest!: wp_run)
qed

lemma demo_program:
  "program [CHR ''q'', newline] 1 [(1, chat_env quit_msg, chat_params)] [(Io, quit_msg, []), (Net 0, [], quit_msg), (Net 0, quit_msg, [])]"
  "program (''hi'' @ [newline]) 1 [(1, chat_env ''hi'', chat_params)] [(Io, ''hi'', []), (Net 0, [], ''hi'')]"
  using chat_env_dialogue [of quit_msg] chat_env_dialogue [of "''hi''"]
  by (simp_all add: program_def dialogue_of_def exchange_def getline_def quit_msg_def)

theorem program_refines_chat_witness:
  "\<exists>w. chat_run (chat_start [CHR ''q'', newline] 1) w \<and> mailbox w = ''q'' \<and> typed w = [''q''] \<and> delivered w = [] \<and> nets w ! 0 = Ended"
  using program_refines_chat [OF demo_program(1)] by (simp add: dialogue_of_def taken_def quit_msg_def eq_commute [of Ended])

theorem program_keeps_the_goodbye_witness:
  "last_offer [] [(Io, quit_msg, []), (Net 0, [], quit_msg)] = [] \<and> after Running [([], quit_msg)] = Some Quitting"
proof -
  have "program [CHR ''q'', newline] 1 [(1, chat_env quit_msg, chat_params)] [(Io, quit_msg, []), (Net 0, [], quit_msg)]"
    by (rule program_before [where e = "(Net 0, quit_msg, [])"]) (use demo_program(1) in simp)
  from program_keeps_the_goodbye [OF this] show ?thesis by (simp add: dialogue_of_def quit_msg_def)
qed

theorem program_sends_what_was_typed_witness: "subseq [''hi''] (ioTask 1 \<lparr>chars = ''hi'' @ [newline], good = True\<rparr> [])"
  using program_sends_what_was_typed [OF demo_program(2)] by (simp add: taken_def quit_msg_def)

end
