(* ===== verification/UdpConversation.thy ===== *)
theory UdpConversation
  imports Growth
begin

text \<open>
  Datagram sockets that talk to each other. First, one object over its life: the tasks of a peer given
  by a text are never put off, because every sender is decoded to another key. Then several objects and the
  datagrams between them: a network of hosts (\<open>udp_net\<close>) whose steps run the methods of
  \<open>SocketUdp\<close> on one host, take a datagram from those on their way and add what the method sent.
\<close>

section \<open>Peers whose tasks nobody touches\<close>

text \<open>
  \<open>touching i j\<close>: the calls that put off or end the tasks \<open>i\<close> and \<open>j\<close>. \<open>untouched\<close>: the peer \<open>ip\<close> holds
  these two tasks, no other peer does, and only calls of \<open>C\<close> have touched them.
\<close>

definition touching :: "nat \<Rightarrow> nat \<Rightarrow> call set" where
  "touching i j = {C_task_reset i, C_task_disable i, C_task_reset j, C_task_disable j}"

definition foreign :: "nat \<Rightarrow> nat \<Rightarrow> UdpPeer \<Rightarrow> bool" where
  "foreign i j p \<longleftrightarrow> ping_task p \<notin> {Some i, Some j} \<and> comm_lost_task p \<notin> {Some i, Some j}"

definition untouched :: "IPSocket \<Rightarrow> nat \<Rightarrow> nat \<Rightarrow> call set \<Rightarrow> 'z SocketUdp_scheme \<Rightarrow> bool" where
  "untouched ip i j C s \<longleftrightarrow> std_map_ok (udp_peers s) \<and>
     map_of (udp_peers s) ip = Some \<lparr>ping_task = Some i, comm_lost_task = Some j\<rparr> \<and>
     (\<forall>k p. map_of (udp_peers s) k = Some p \<longrightarrow> k \<noteq> ip \<longrightarrow> foreign i j p) \<and>
     fst ` set (trace s) \<inter> touching i j \<subseteq> C"

definition new_numbers :: "env \<Rightarrow> nat set \<Rightarrow> bool" where
  "new_numbers E K \<longleftrightarrow> (\<forall>h t d n. nat (rv (os E h (C_schedule t d n))) \<notin> K)"

lemma untouched_other [simp]:
  "untouched ip i j C (s\<lparr>fds := F\<rparr>) = untouched ip i j C s" "untouched ip i j C (s\<lparr>fd_max := m\<rparr>) = untouched ip i j C s"
  "untouched ip i j C (s\<lparr>selected_fds := l\<rparr>) = untouched ip i j C s"
  "untouched ip i j C (s\<lparr>main_msg_buffer := b\<rparr>) = untouched ip i j C s"
  by (simp_all add: untouched_def)

lemma untouched_call [simp]:
  "c \<notin> touching i j \<Longrightarrow> untouched ip i j C (s\<lparr>trace := (c, r) # h\<rparr>) = untouched ip i j C (s\<lparr>trace := h\<rparr>)"
  by (auto simp: untouched_def)

lemma trace_same [simp]: "trace s = h \<Longrightarrow> s\<lparr>trace := h\<rparr> = s"
  by (cases s) simp

lemma not_touching [simp]:
  "C_schedule t d n \<notin> touching i j" "C_sendto fd msg a \<notin> touching i j" "C_log_received msg \<notin> touching i j"
  "C_task_lock k \<notin> touching i j" "C_recvfrom fd m \<notin> touching i j" "C_select q F u \<notin> touching i j"
  "C_listen fd l \<notin> touching i j"
  "C_task_reset k \<in> touching i j \<longleftrightarrow> k \<in> {i, j}" "C_task_disable k \<in> touching i j \<longleftrightarrow> k \<in> {i, j}"
  by (auto simp: touching_def)

lemma untouched_emplace:
  assumes "untouched ip i j C s" and "remote = ip \<or> foreign i j p"
  shows "untouched ip i j C (s\<lparr>udp_peers := map_emplace remote p (udp_peers s)\<rparr>)"
  using assms by (auto simp: untouched_def std_map_ok_emplace map_of_emplace split: if_splits)

lemma untouched_erase:
  "untouched ip i j C s \<Longrightarrow> remote \<noteq> ip \<Longrightarrow> untouched ip i j C (s\<lparr>udp_peers := map_erase remote (udp_peers s)\<rparr>)"
  by (auto simp: untouched_def std_map_ok_erase map_of_erase split: if_splits)

lemma untouched_ping:
  "untouched ip i j C s \<Longrightarrow> remote \<noteq> ip \<Longrightarrow> t \<notin> {Some i, Some j} \<Longrightarrow>
     untouched ip i j C (s\<lparr>udp_peers := map_update remote (\<lambda>p. p\<lparr>ping_task := t\<rparr>) (udp_peers s)\<rparr>)"
  by (auto simp: untouched_def std_map_ok_update map_of_update foreign_def split: if_splits option.splits)


lemma keeps_untouched_sys [keeps_intros]: "c \<notin> touching i j \<Longrightarrow> keeps (untouched ip i j C) (sys E c)"
  by (rule keepsI) (simp add: wp_simps)

lemma keeps_untouched_check [keeps_intros]: "keeps (untouched ip i j C) (check E n f)"
  by (rule keepsI) (simp add: wp_simps safely_def split: option.split)

lemma keeps_untouched_set [keeps_intros]:
  "keeps (untouched ip i j C) FDSet_reset" "keeps (untouched ip i j C) (FDSet_set fd)"
  "keeps (untouched ip i j C) (FDSet_select E t)"
  unfolding FDSet_reset_def FDSet_set_def FDSet_select_def FDSet_selectImpl_def checked_def
  by (intro keeps_intros keeps_modify; simp)+

lemma untouched_handleCommUp [keeps_intros]:
  assumes "new_numbers E {i, j}"
  shows "keeps (untouched ip i j C) (udp_handleCommUp E remote)"
proof (rule keepsI)
  fix s :: "'a SocketUdp_scheme"
  assume s: "untouched ip i j C s"
  have new: "nat (rv (os E h (C_schedule t d n))) \<noteq> i" "nat (rv (os E h (C_schedule t d n))) \<noteq> j" for h t d n
    using assms by (auto simp: new_numbers_def)
  show "wp (udp_handleCommUp E remote) (\<lambda>_. untouched ip i j C) (safely (untouched ip i j C)) s"
    unfolding wp_udp_handleCommUp Let_def
    using untouched_emplace [OF s] new by (simp add: foreign_def)
qed

text \<open>Methods that look up the tasks of another peer.\<close>

lemma untouched_lookup:
  assumes "untouched ip i j C s" and "remote \<noteq> ip"
    and "\<And>p. foreign i j p \<Longrightarrow> keeps (untouched ip i j C) (f p)"
  shows "wp (bindE (udp_peer_ref remote) f) (\<lambda>_. untouched ip i j C) (safely (untouched ip i j C)) s"
proof -
  let ?m = "map_emplace remote \<lparr>ping_task = None, comm_lost_task = None\<rparr> (udp_peers s)"
  have u: "untouched ip i j C (s\<lparr>udp_peers := ?m\<rparr>)"
    by (rule untouched_emplace [OF assms(1)]) (simp add: foreign_def)
  moreover have "foreign i j (the (map_of ?m remote))"
  proof -
    have "map_of ?m remote \<noteq> None" using assms(1) by (simp add: untouched_def map_of_emplace)
    then show ?thesis using u assms(2) by (auto simp: untouched_def)
  qed
  ultimately show ?thesis
    unfolding wp_bindE wp_udp_peer_ref Let_def by (intro keepsD assms(3)) simp_all
qed

text \<open>What is done with a task that is neither \<open>i\<close> nor \<open>j\<close>.\<close>

lemma untouched_task:
  assumes "t \<notin> {Some i, Some j}" and "keeps (untouched ip i j C) (f None)"
    and "\<And>k. k \<notin> {i, j} \<Longrightarrow> keeps (untouched ip i j C) (f (Some k))"
  shows "keeps (untouched ip i j C) (bindE (task_lock E t) f)"
proof (rule keepsI)
  fix s :: "'a SocketUdp_scheme"
  assume s: "untouched ip i j C s"
  then have "untouched ip i j C (s\<lparr>trace := (C_task_lock k, r) # trace s\<rparr>)" for k r by simp
  then show "wp (bindE (task_lock E t) f) (\<lambda>_. untouched ip i j C) (safely (untouched ip i j C)) s"
    using s assms keepsD by (cases t) (fastforce simp: task_lock_def wp_simps)+
qed

lemma untouched_resetTasks:
  assumes "new_numbers E {i, j}" and "untouched ip i j C s" and "remote \<noteq> ip"
  shows "wp (udp_resetTasks E remote) (\<lambda>_. untouched ip i j C) (safely (untouched ip i j C)) s"
proof -
  have ping: "keeps (untouched ip i j C :: 'a SocketUdp_scheme \<Rightarrow> bool) (bindE (udp_schedulePing E remote) (\<lambda>t. modify (\<lambda>s. s\<lparr>udp_peers :=
      map_update remote (\<lambda>p. p\<lparr>ping_task := t\<rparr>) (udp_peers s)\<rparr>)))"
  proof (rule keepsI)
    fix s :: "'a SocketUdp_scheme"
    assume s: "untouched ip i j C s"
    show "wp (bindE (udp_schedulePing E remote) (\<lambda>t. modify (\<lambda>s. s\<lparr>udp_peers :=
      map_update remote (\<lambda>p. p\<lparr>ping_task := t\<rparr>) (udp_peers s)\<rparr>))) (\<lambda>_. untouched ip i j C)
      (safely (untouched ip i j C)) s"
      using untouched_ping [OF s assms(3)] assms(1)
      by (simp add: udp_schedulePing_def wp_simps new_numbers_def)
  qed
  show ?thesis
    unfolding udp_resetTasks_def
    by (rule untouched_lookup [OF assms(2,3)])
      (auto intro!: untouched_task keeps_thenE keeps_return keeps_untouched_sys ping simp: foreign_def)
qed

lemma untouched_remove:
  assumes "untouched ip i j C s" and "remote \<noteq> ip"
  shows "wp (udp_remove E remote) (\<lambda>_. untouched ip i j C) (safely (untouched ip i j C)) s"
proof -
  have "wp (udp_disableTasks E remote) (\<lambda>_. untouched ip i j C) (safely (untouched ip i j C)) s"
    unfolding udp_disableTasks_def
    by (rule untouched_lookup [OF assms])
      (auto intro!: untouched_task keeps_thenE keeps_return keeps_untouched_sys simp: foreign_def)
  then show ?thesis
    unfolding udp_remove_def wp_thenE wp_modify
    by (rule wp_mono) (use assms(2) in \<open>auto intro: untouched_erase\<close>)
qed

text \<open>Every decoded IP address ends in NUL, the text of no one who was given by a text does.\<close>

definition textual :: "IPSocket \<Rightarrow> bool" where
  "textual ip \<longleftrightarrow> family ip \<in> {AF_INET, AF_INET6} \<and> NUL \<notin> set (addr ip)"

lemma inet_ok_ntop:
  assumes "inet_ok E" and "length b = (if f = AF_INET6 then 16 else 4)" and "f \<in> {AF_INET, AF_INET6}"
  shows "\<exists>a. inet_ntop E f b = Some a \<and> length a < addrstrlen f"
  using assms by (auto simp: inet_ok_def addrstrlen_def)

lemma decoded_not_textual:
  assumes "inet_ok E" and "checks_ok E" and "IPSocket_of_sockaddr E bs = Inr remote"
  shows "\<not> textual remote"
proof
  assume t: "textual remote"
  have d: "length bs \<ge> (if of_le16 bs = AF_INET6 then 24 else 8)"
    "checked_sum E ''Inetntop'' (failedInetntop p) (IPSocket (pad_text (addrstrlen (of_le16 bs)) a)
       (ntohs (of_le16 (drop 2 bs))) (of_le16 bs)) = Inr remote"
    if "(p, a) = (case inet_ntop E (of_le16 bs) (if of_le16 bs = AF_INET6 then take 16 (drop 8 bs) else take 4 (drop 4 bs)) of
        None \<Rightarrow> (0, []) | Some a \<Rightarrow> (1, a))" for p a
    using assms(3) that by (auto simp: IPSocket_of_sockaddr_def Let_def split: if_splits prod.splits)
  have f: "of_le16 bs = family remote"
    using d(2) [OF surjective_pairing [symmetric]] by (auto simp: checked_sum_def split: option.splits)
  let ?b = "if of_le16 bs = AF_INET6 then take 16 (drop 8 bs) else take 4 (drop 4 bs)"
  have l: "length ?b = (if of_le16 bs = AF_INET6 then 16 else 4)"
    using d(1) [OF surjective_pairing [symmetric]] by auto
  have "\<exists>a. inet_ntop E (of_le16 bs) ?b = Some a \<and> length a < addrstrlen (of_le16 bs)"
    by (rule inet_ok_ntop [OF assms(1) l]) (use t f in \<open>simp add: textual_def\<close>)
  then obtain a where a: "inet_ntop E (of_le16 bs) ?b = Some a" "length a < addrstrlen (of_le16 bs)" by blast
  have "addr remote = pad_text (addrstrlen (of_le16 bs)) a"
    using d(2) [of 1 a] a(1) by (auto simp: checked_sum_def split: option.splits)
  then show False using t a(2) by (auto simp: textual_def pad_text_def)
qed

lemma untouched_dispatch:
  assumes "new_numbers E {i, j}" and "untouched ip i j C s" and "remote \<noteq> ip"
  shows "wp (udp_dispatch E msg remote) (\<lambda>_. untouched ip i j C) (safely (untouched ip i j C)) s"
proof -
  have ack: "keeps (untouched ip i j C) (if msg = keep_alive_msg then udp_send_to E keep_alive_ack_msg remote else return ())"
    unfolding udp_send_to_def by (intro keeps_intros) simp
  have "wp (if map_of (udp_peers t) remote \<noteq> None then udp_resetTasks E remote else udp_handleCommUp E remote)
      (\<lambda>_. untouched ip i j C) (safely (untouched ip i j C)) t" if "untouched ip i j C t" for t
    using untouched_resetTasks [OF assms(1) that assms(3)] keepsD [OF untouched_handleCommUp [OF assms(1)] that] by simp
  then have "wp (thenE (if msg = keep_alive_msg then udp_send_to E keep_alive_ack_msg remote else return ())
      (bindE (gets (\<lambda>s. map_of (udp_peers s) remote)) (\<lambda>p.
         if p \<noteq> None then udp_resetTasks E remote else udp_handleCommUp E remote)))
      (\<lambda>_. untouched ip i j C) (safely (untouched ip i j C)) s"
    unfolding wp_thenE wp_bindE wp_gets by (intro wp_mono [OF keepsD [OF ack assms(2)]])
  then show ?thesis
    using untouched_remove [OF assms(2,3)] by (simp add: udp_dispatch_def udp_handleGracefulShutdown_def)
qed


lemma keeps_bind_lift: "(\<And>x. r = Inr x \<Longrightarrow> keeps I (f x)) \<Longrightarrow> keeps I (bindE (lift_sum r) f)"
  by (rule keepsI) (auto simp: wp_simps safely_def dest: keepsD split: sum.split)

lemma untouched_handleMessage [keeps_intros]:
  assumes "inet_ok E" and "checks_ok E" and "new_numbers E {i, j}" and "textual ip"
  shows "keeps (untouched ip i j C) (udp_handleMessage E fd)"
proof -
  have "keeps (untouched ip i j C) (udp_dispatch E msg remote)" if "IPSocket_of_sockaddr E bs = Inr remote" for msg remote bs
    by (rule keepsI, rule untouched_dispatch [OF assms(3)])
      (use decoded_not_textual [OF assms(1,2) that] assms(4) in auto)
  then show ?thesis
    unfolding udp_handleMessage_def Socket_getBuffer_def log_received_def
    by (intro keeps_bind_lift keeps_intros keeps_modify) simp_all
qed

text \<open>
  What may happen to a datagram socket: any operation, the closures of the scheduler included, but for one
  closure, the one that gives up \<open>ip\<close>.
\<close>

definition udp_ops_but :: "env \<Rightarrow> IPSocket \<Rightarrow> ('z SocketUdp_scheme, unit) io set" where
  "udp_ops_but E ip = range (Socket_listen E) \<union> range (udp_connect E) \<union> range (udp_send E) \<union>
     {udp_receive E} \<union> udp_task E ` {t. t \<noteq> T_comm_lost ip}"

lemma untouched_ops:
  assumes "inet_ok E" and "checks_ok E" and "new_numbers E {i, j}" and "textual ip" and "m \<in> udp_ops_but E ip"
  shows "keeps (untouched ip i j C) m"
proof -
  have conn: "keeps (untouched ip i j C) (udp_connect E remotes)" for remotes
    unfolding udp_connect_def by (intro keeps_intros assms(3))
  have lost: "keeps (untouched ip i j C) (udp_handleCommLost E remote)" if "remote \<noteq> ip" for remote
  proof -
    have "keeps (untouched ip i j C) (udp_remove E remote)" by (rule keepsI, rule untouched_remove [OF _ that])
    then show ?thesis
      unfolding udp_handleCommLost_def scheduleReestablishment_def by (intro keeps_intros) simp
  qed
  have send: "keeps (untouched ip i j C) (udp_send_to E msg remote)" for msg remote
    unfolding udp_send_to_def by (intro keeps_intros) simp
  have "keeps (untouched ip i j C) (udp_task E t)" if "t \<noteq> T_comm_lost ip" for t
    using that conn lost send by (cases t) auto
  moreover have "keeps (untouched ip i j C) (udp_receive E)"
    unfolding udp_receive_def Socket_selectFds_def
    by (intro keeps_Socket_receive untouched_handleMessage assms keeps_intros)
  moreover have "keeps (untouched ip i j C) (Socket_listen E n)" for n
    unfolding Socket_listen_def by (intro keeps_intros) simp_all
  moreover have "keeps (untouched ip i j C) (udp_send E msg)" for msg
    unfolding udp_send_def by (intro keeps_intros send)
  ultimately show ?thesis
    using assms(5) conn unfolding udp_ops_but_def by fastforce
qed


lemma wp_run_one_task:
  "wp (run_tasks h [x]) Q R s = wp (h x) (\<lambda>_. Q [None]) (\<lambda>e. if is_exception e then Q [Some e] else R e) s"
  by (auto simp: wp_def bindE_def return_def split: prod.split sum.split)



section \<open>Messages an operation sends\<close>

text \<open>
  \<open>texts h\<close>: the messages given to \<open>sendto\<close>. \<open>offers X m\<close>: however it ends, \<open>m\<close> only adds calls, and
  gives no message to \<open>sendto\<close> but those of \<open>X\<close>, each at most as often as it is in \<open>X\<close>.
\<close>

fun text_of :: "call \<Rightarrow> string multiset" where
  "text_of (C_sendto fd msg a) = {#msg#}"
| "text_of c = {#}"

definition texts :: "history \<Rightarrow> string multiset" where
  "texts h = \<Sum>\<^sub># (mset (map (text_of \<circ> fst) h))"

lemma texts_simps [simp]:
  "texts [] = {#}" "texts (e # h) = text_of (fst e) + texts h" "texts (g @ h) = texts g + texts h"
  by (simp_all add: texts_def)

definition offers :: "string multiset \<Rightarrow> ('z world_scheme, 'a) io \<Rightarrow> bool" where
  "offers X m \<longleftrightarrow> (\<forall>s. \<exists>u. trace (snd (m s)) = u @ trace s \<and> texts u \<subseteq># X)"

named_theorems offers_intros "messages a computation sends"

lemma offers_nothing:
  assumes "only (\<lambda>c. text_of c = {#}) m"
  shows "offers X m"
  unfolding offers_def
proof
  fix s :: "'a world_scheme"
  obtain u where u: "trace (snd (m s)) = u @ trace s" "\<forall>e\<in>set u. text_of (fst e) = {#}"
    using assms unfolding only_def by blast
  from u(2) have "texts u = {#}" by (induction u) auto
  then show "\<exists>u. trace (snd (m s)) = u @ trace s \<and> texts u \<subseteq># X" using u(1) by auto
qed

lemma offers_bindE:
  assumes "offers X m" and "\<And>x. offers Y (f x)"
  shows "offers (X + Y) (bindE m f)"
  unfolding offers_def
proof
  fix s :: "'a world_scheme"
  obtain r t where r: "m s = (r, t)" by force
  obtain u where u: "trace t = u @ trace s" "texts u \<subseteq># X"
    using assms(1) [unfolded offers_def, rule_format, of s] r by auto
  show "\<exists>u. trace (snd (bindE m f s)) = u @ trace s \<and> texts u \<subseteq># X + Y"
  proof (cases r)
    case (Inl e)
    then show ?thesis using r u by (auto simp: bindE_def intro: subset_mset.add_increasing2)
  next
    case (Inr x)
    obtain v where "trace (snd (f x t)) = v @ trace t" "texts v \<subseteq># Y"
      using assms(2) unfolding offers_def by blast
    then show ?thesis using Inr r u
      by (intro exI [of _ "v @ u"]) (auto simp: bindE_def add.commute intro: subset_mset.add_mono)
  qed
qed

lemma offers_rest [offers_intros]:
  "only (\<lambda>c. text_of c = {#}) m \<Longrightarrow> offers X n \<Longrightarrow> offers X (thenE m n)"
  using offers_bindE [OF offers_nothing [of m "{#}"], of X "\<lambda>_. n"] by (simp add: thenE_def)

lemma offers_last [offers_intros]:
  "offers X m \<Longrightarrow> (\<And>x. only (\<lambda>c. text_of c = {#}) (f x)) \<Longrightarrow> offers X (bindE m f)"
  using offers_bindE [of X m "{#}" f] offers_nothing by fastforce

lemma offers_gets [offers_intros]: "(\<And>x. offers X (f x)) \<Longrightarrow> offers X (bindE (gets g) f)"
  by (simp add: offers_def bindE_def gets_def)

lemma offers_reply [offers_intros]:
  assumes "text_of c = {#}" and "\<And>h. offers X (f (os E h c))"
  shows "offers X (bindE (sys E c) f)"
  unfolding offers_def
proof
  fix s :: "'a world_scheme"
  let ?t = "s\<lparr>trace := (c, os E (trace s) c) # trace s\<rparr>"
  obtain u where "trace (snd (f (os E (trace s) c) ?t)) = u @ trace ?t" "texts u \<subseteq># X"
    using assms(2) unfolding offers_def by blast
  then show "\<exists>u. trace (snd (bindE (sys E c) f s)) = u @ trace s \<and> texts u \<subseteq># X"
    using assms(1) by (intro exI [of _ "u @ [(c, os E (trace s) c)]"]) (simp add: bindE_def sys_def Let_def)
qed

lemma offers_lift [offers_intros]: "(\<And>x. r = Inr x \<Longrightarrow> offers X (f x)) \<Longrightarrow> offers X (bindE (lift_sum r) f)"
  by (cases r) (auto simp: offers_def bindE_def lift_sum_def)

lemma only_udp [only_intros]:
  "only (\<lambda>c. text_of c = {#}) (udp_handleCommUp E remote)" "only (\<lambda>c. text_of c = {#}) (udp_remove E remote)"
  "only (\<lambda>c. text_of c = {#}) (udp_resetTasks E remote)"
  unfolding udp_handleCommUp_def udp_schedulePing_def udp_scheduleCommLost_def udp_remove_def
    udp_disableTasks_def udp_resetTasks_def udp_peer_ref_def task_lock_def
  by (auto intro!: only_intros only_modify simp: wp_simps split: option.split)

lemma only_log: "only (\<lambda>c. text_of c = {#}) (log_received E m)"
  unfolding log_received_def by (intro only_intros) simp

lemma offers_sendto: "offers {#msg#} (sys E (C_sendto fd msg a))"
  by (auto simp: offers_def sys_def Let_def intro!: exI [of _ "[x]" for x])

lemma offers_send_to: "offers {#msg#} (udp_send_to E msg remote)"
  unfolding udp_send_to_def by (intro offers_lift offers_gets offers_last offers_sendto only_intros)

text \<open>The answer to a message: an acknowledgement of a keep-alive message, nothing for any other.\<close>

definition answer :: "string \<Rightarrow> string multiset" where
  "answer msg = (if msg = keep_alive_msg then {#keep_alive_ack_msg#} else {#})"

lemma offers_dispatch: "offers (answer msg) (udp_dispatch E msg remote)"
proof -
  have rest: "only (\<lambda>c. text_of c = {#}) (bindE (gets (\<lambda>s. map_of (udp_peers s) remote)) (\<lambda>p.
      if p \<noteq> None then udp_resetTasks E remote else udp_handleCommUp E remote) :: ('a SocketUdp_scheme, unit) io)"
    by (intro only_intros)
  consider "msg = quit_msg" | "msg = keep_alive_msg" "msg \<noteq> quit_msg" | "msg \<noteq> keep_alive_msg" "msg \<noteq> quit_msg" by blast
  then show ?thesis
  proof cases
    case 1
    then show ?thesis
      by (simp add: udp_dispatch_def udp_handleGracefulShutdown_def offers_nothing only_udp)
  next
    case 2
    have "offers {#keep_alive_ack_msg#} (thenE (udp_send_to E keep_alive_ack_msg remote)
        (bindE (gets (\<lambda>s. map_of (udp_peers s) remote)) (\<lambda>p.
      if p \<noteq> None then udp_resetTasks E remote else udp_handleCommUp E remote)) :: ('a SocketUdp_scheme, unit) io)"
      unfolding thenE_def by (intro offers_last offers_send_to rest)
    then show ?thesis using 2 by (simp add: udp_dispatch_def answer_def)
  next
    case 3
    then show ?thesis
      by (simp add: udp_dispatch_def answer_def) (intro offers_nothing only_intros rest)
  qed
qed

section \<open>A network of datagram sockets\<close>

text \<open>
  A datagram carries the address it was sent from, the one it was sent to, and a text. \<open>arriving d E\<close> is
  the environment \<open>E\<close> in which \<open>recvfrom\<close> hands out the datagram \<open>d\<close>, cut off at the
  length asked for.
\<close>

record datagram =
  dg_src :: bytes
  dg_dst :: bytes
  dg_text :: string

definition arriving :: "datagram \<Rightarrow> env \<Rightarrow> env" where
  "arriving d E = E\<lparr>os := \<lambda>h c. case c of
     C_recvfrom fd n \<Rightarrow> (reply (int (length (take n (dg_text d)))))\<lparr>odata := take n (dg_text d), oaddr := dg_src d\<rparr>
   | _ \<Rightarrow> os E h c\<rparr>"

lemma arriving_sel [simp]:
  "check_outcome (arriving d E) = check_outcome E" "inet_pton (arriving d E) = inet_pton E"
  "inet_ntop (arriving d E) = inet_ntop E" "garbage (arriving d E) = garbage E" "succeeded (arriving d E) = succeeded E"
  "checks_ok (arriving d E) = checks_ok E" "inet_ok (arriving d E) = inet_ok E"
  by (simp_all add: arriving_def checks_ok_def inet_ok_def)

text \<open>
  A datagram is handled as its text says, up to the first NUL, or undefined behaviour is met: when its
  text does not fit the buffer.
\<close>

lemma offers_handleMessage: "offers (answer (c_str (dg_text d))) (udp_handleMessage (arriving d E) fd)"
proof -
  let ?E = "arriving d E"
  have msg: "c_str b = c_str (dg_text d)"
    if "store_received buf (os ?E h (C_recvfrom fd (length buf))) = Inr b" for buf b h
  proof -
    let ?r = "os ?E h (C_recvfrom fd (length buf))"
    have r: "rv ?r = int (length (odata ?r))" "odata ?r = take (length buf) (dg_text d)" by (simp_all add: arriving_def)
    then have l: "length (odata ?r) < length buf"
      using that by (auto simp: store_received_def Let_def split: if_splits)
    then have "odata ?r = dg_text d" using r(2) by simp
    then show ?thesis using store_received_ok [OF r(1) l] that by auto
  qed
  have "offers (answer (c_str (dg_text d))) (udp_dispatch ?E (c_str b) remote :: ('a SocketUdp_scheme, unit) io)"
    if "store_received buf (os ?E h (C_recvfrom fd (length buf))) = Inr b" for buf b h remote
    using offers_dispatch [of "c_str b"] unfolding msg [OF that] .
  then show ?thesis
    unfolding udp_handleMessage_def Socket_getBuffer_def
    by (intro offers_gets offers_reply offers_rest offers_lift only_intros only_modify only_log) auto
qed


text \<open>
  A host: its environment, its address and its socket. The network: the hosts, and the datagrams on their
  way. Whatever a host does (\<open>act\<close>), the datagrams its \<open>sendto\<close> calls took join those on their way.
\<close>

record udp_host =
  host_env :: env
  host_addr :: bytes
  host_sock :: SocketUdp

record udp_net =
  hosts :: "udp_host list"
  pool :: "datagram multiset"

fun datagram_of :: "bytes \<Rightarrow> call \<times> ret \<Rightarrow> datagram multiset" where
  "datagram_of src (C_sendto fd msg dst, r) =
     (if 0 \<le> rv r then {#\<lparr>dg_src = src, dg_dst = dst, dg_text = msg\<rparr>#} else {#})"
| "datagram_of src (c, r) = {#}"

definition sent :: "bytes \<Rightarrow> history \<Rightarrow> datagram multiset" where
  "sent src h = \<Sum>\<^sub># (mset (map (datagram_of src) h))"

definition act :: "nat \<Rightarrow> (SocketUdp, unit) io \<Rightarrow> udp_net \<Rightarrow> udp_net" where
  "act i m N =
     (let host = hosts N ! i; h = trace (host_sock host); s = snd (m (host_sock host)) in
      N\<lparr>hosts := (hosts N)[i := host\<lparr>host_sock := s\<rparr>],
        pool := pool N + sent (host_addr host) (take (length (trace s) - length h) (trace s))\<rparr>)"

definition deliver :: "nat \<Rightarrow> datagram \<Rightarrow> udp_net \<Rightarrow> udp_net" where
  "deliver i d N =
     (let host = hosts N ! i in
      act i (udp_handleMessage (arriving d (host_env host)) (raw_fd (sk_fd (host_sock host)))) (N\<lparr>pool := pool N - {#d#}\<rparr>))"

text \<open>What happens to the datagrams when nobody acts of his own accord: each is delivered, or lost.\<close>

inductive udp_delivery :: "udp_net \<Rightarrow> udp_net \<Rightarrow> bool" where
  delivered: "i < length (hosts N) \<Longrightarrow> d \<in># pool N \<Longrightarrow> dg_dst d = host_addr (hosts N ! i) \<Longrightarrow>
    udp_delivery N (deliver i d N)"
| lost: "d \<in># pool N \<Longrightarrow> udp_delivery N (N\<lparr>pool := pool N - {#d#}\<rparr>)"

lemma sent_simps [simp]:
  "sent src [] = {#}" "sent src (e # h) = datagram_of src e + sent src h"
  "sent src (g @ h) = sent src g + sent src h"
  by (simp_all add: sent_def)

lemma sent_texts: "image_mset dg_text (sent src h) \<subseteq># texts h"
proof (induction h)
  case (Cons e h)
  obtain c r where e: "e = (c, r)" by force
  have "image_mset dg_text (datagram_of src e) \<subseteq># text_of (fst e)"
    unfolding e by (cases c) auto
  then show ?case using Cons by (simp add: subset_mset.add_mono)
qed simp

lemma act_pool:
  assumes "offers X m"
  shows "\<exists>D. pool (act i m N) = pool N + D \<and> image_mset dg_text D \<subseteq># X"
proof -
  let ?s = "host_sock (hosts N ! i)"
  obtain u where u: "trace (snd (m ?s)) = u @ trace ?s" "texts u \<subseteq># X"
    using assms unfolding offers_def by blast
  then have "pool (act i m N) = pool N + sent (host_addr (hosts N ! i)) u" by (simp add: act_def Let_def)
  then show ?thesis using sent_texts u(2) subset_mset.order_trans by blast
qed

text \<open>A keep-alive message counts twice: it may be answered, and answers are not.\<close>

definition to_come :: "datagram multiset \<Rightarrow> nat" where
  "to_come D = size D + size {#d \<in># D. c_str (dg_text d) = keep_alive_msg#}"

lemma to_come_simps [simp]: "to_come {#} = 0" "to_come (D + D') = to_come D + to_come D'"
  by (simp_all add: to_come_def)

lemma to_come_take: "d \<in># D \<Longrightarrow> to_come D = to_come (D - {#d#}) + (if c_str (dg_text d) = keep_alive_msg then 2 else 1)"
  by (auto simp: to_come_def dest!: multi_member_split)

lemma to_come_answer:
  assumes "image_mset dg_text D \<subseteq># answer msg"
  shows "to_come D \<le> (if msg = keep_alive_msg then 1 else 0)"
proof -
  have "size D \<le> size (answer msg)" using size_mset_mono [OF assms] by simp
  moreover have "dg_text d = keep_alive_ack_msg" if "d \<in># D" for d
  proof -
    have "dg_text d \<in># answer msg" using mset_subset_eqD [OF assms] that by simp
    then show ?thesis by (simp add: answer_def split: if_splits)
  qed
  then have "{#d \<in># D. c_str (dg_text d) = keep_alive_msg#} = {#}"
    by (auto simp: keep_alive_defs c_str_def)
  then have "to_come D = size D" unfolding to_come_def by (simp only: size_empty add_0_right)
  ultimately show ?thesis by (simp add: answer_def split: if_splits)
qed

lemma udp_delivery_uses_up: "udp_delivery N N' \<Longrightarrow> to_come (pool N') < to_come (pool N)"
proof (induction rule: udp_delivery.induct)
  case (delivered i N d)
  let ?m = "udp_handleMessage (arriving d (host_env (hosts N ! i))) (raw_fd (sk_fd (host_sock (hosts N ! i))))"
  obtain D where D: "pool (deliver i d N) = pool N - {#d#} + D" "image_mset dg_text D \<subseteq># answer (c_str (dg_text d))"
    using act_pool [OF offers_handleMessage [of d "host_env (hosts N ! i)"], of i _ "N\<lparr>pool := pool N - {#d#}\<rparr>"]
    by (auto simp: deliver_def Let_def)
  then show ?case using to_come_take [OF delivered(2)] to_come_answer [OF D(2)] by (auto split: if_splits)
next
  case (lost d N)
  then show ?case using to_come_take [OF lost] by (simp split: if_splits)
qed

text \<open>
  C8. Sockets that talk to each other come to rest: whatever datagrams are on their way between any number of
  hosts, in whatever order they arrive and whichever get lost, as long as no timer runs and nobody types there are at
  most as many deliveries as there are datagrams, plus one for each that asks for an acknowledgement.
\<close>

theorem udp_conversation_ends:
  assumes "(udp_delivery ^^ n) N N'"
  shows "n \<le> size (pool N) + size {#d \<in># pool N. c_str (dg_text d) = ''ka''#}"
proof -
  have "n + to_come (pool N') \<le> to_come (pool N)"
    using assms
  proof (induction n arbitrary: N')
    case (Suc n)
    then obtain M where M: "(udp_delivery ^^ n) N M" "udp_delivery M N'" by auto
    then show ?case using Suc.IH [OF M(1)] udp_delivery_uses_up [OF M(2)] by simp
  qed simp
  then show ?thesis by (simp add: to_come_def keep_alive_msg_def)
qed


section \<open>A conversation that goes well\<close>

text \<open>\<open>located E ip a\<close>: the text, port and family of \<open>ip\<close> denote the socket address with the bytes \<open>a\<close>.\<close>

definition located :: "env \<Rightarrow> IPSocket \<Rightarrow> bytes \<Rightarrow> bool" where
  "located E ip a \<longleftrightarrow> encodable E ip \<and> (\<exists>st. to_sockaddr_storage E ip = Inr st \<and> take (sizeofSockaddr ip) st = a)"

definition sends_succeed :: "env \<Rightarrow> bool" where
  "sends_succeed E \<longleftrightarrow> (\<forall>h fd msg a. 0 \<le> rv (os E h (C_sendto fd msg a)))"

lemma to_sockaddr_storage_canonical:
  assumes "encodable E ip" and "inet_ok E"
  shows "to_sockaddr_storage E (canonical E ip) = to_sockaddr_storage E ip"
  unfolding to_sockaddr_storage_def sockaddr_in6_of_def sockaddr_in_of_def isIPv6_def canonical_sel
    canonical_same_address [OF assms] ..

lemma to_sockaddr_storage_arriving [simp]: "to_sockaddr_storage (arriving d E) ip = to_sockaddr_storage E ip"
  by (simp add: arriving_def)

lemma IPSocket_of_sockaddr_arriving [simp]: "IPSocket_of_sockaddr (arriving d E) b = IPSocket_of_sockaddr E b"
  by (simp add: arriving_def)

text \<open>Sending one message to a located peer.\<close>

lemma wp_udp_send_to:
  assumes "checks_ok E" and "sends_succeed E" and "to_sockaddr_storage E remote = Inr st"
  shows "wp (udp_send_to E msg remote) Q R s =
    (let c = C_sendto (raw_fd (sk_fd s)) msg (take (sizeofSockaddr remote) st); r = os E (trace s) c
     in Q () (s\<lparr>trace := (c, r) # trace s\<rparr>))"
proof -
  have ok: "(rv (os E h (C_sendto fd m a)) < 0) = False" for h fd m a
    using assms(2) by (simp add: sends_succeed_def not_less)
  show ?thesis
    by (simp add: udp_send_to_def wp_simps assms(3) checks_ok_eq [OF assms(1)] failedSend_def Let_def ok)
qed

lemma udp_resetTasks_returns: "wp (udp_resetTasks E remote) (\<lambda>_ _. True) (\<lambda>_ _. False) s"
  by (simp add: udp_resetTasks_def udp_peer_ref_def task_lock_def udp_schedulePing_def wp_simps split: option.split)

text \<open>Steps that send nothing and do not fail.\<close>

lemma sends_nothing:
  assumes "only (\<lambda>c. text_of c = {#}) m" and "wp m (\<lambda>_ _. True) (\<lambda>_ _. False) v"
    and "\<exists>u. trace v = u @ h \<and> sent src u = D"
  shows "wp m (\<lambda>_ t. \<exists>u. trace t = u @ h \<and> sent src u = D) (\<lambda>_ _. False) v"
proof -
  obtain w where w: "trace (snd (m v)) = w @ trace v" "\<forall>e\<in>set w. text_of (fst e) = {#}"
    using assms(1) unfolding only_def by blast
  have "datagram_of src e = {#}" if "text_of (fst e) = {#}" for e
    using that by (cases "fst e"; cases e) auto
  with w(2) have "sent src w = {#}" by (induction w) auto
  then have "\<exists>u. trace (snd (m v)) = u @ h \<and> sent src u = D"
    using w(1) assms(3) by (metis append_assoc sent_simps(3) add_0_left)
  then show ?thesis using assms(2) by (auto simp: wp_def split: prod.splits sum.splits)
qed

lemma udp_dispatch_answers:
  assumes "checks_ok E" and "sends_succeed E" and "to_sockaddr_storage E remote = Inr st"
  shows "wp (udp_dispatch E msg remote) (\<lambda>_ t. \<exists>u. trace t = u @ trace s \<and> sent src u =
      (if msg = keep_alive_msg then {#\<lparr>dg_src = src, dg_dst = take (sizeofSockaddr remote) st, dg_text = keep_alive_ack_msg\<rparr>#}
       else {#})) (\<lambda>_ _. False) s"
proof -
  let ?D = "if msg = keep_alive_msg then {#\<lparr>dg_src = src, dg_dst = take (sizeofSockaddr remote) st, dg_text = keep_alive_ack_msg\<rparr>#}
       else {#}"
  let ?rest = "bindE (gets (\<lambda>s. map_of (udp_peers s) remote)) (\<lambda>p.
      if p \<noteq> None then udp_resetTasks E remote else udp_handleCommUp E remote) :: ('a SocketUdp_scheme, unit) io"
  have rest: "wp ?rest (\<lambda>_ t. \<exists>u. trace t = u @ trace s \<and> sent src u = ?D) (\<lambda>_ _. False) v"
    if "\<exists>u. trace v = u @ trace s \<and> sent src u = ?D" for v
    by (rule sends_nothing [OF _ _ that], intro only_intros)
      (use udp_resetTasks_returns [of E remote v] in \<open>simp add: wp_simps wp_udp_handleCommUp Let_def\<close>)
  show ?thesis
  proof (cases "msg = quit_msg")
    case True
    have "wp (udp_remove E remote) (\<lambda>_ t. \<exists>u. trace t = u @ trace s \<and> sent src u = {#}) (\<lambda>_ _. False) s"
      by (rule sends_nothing) (auto intro: only_udp wp_udp_remove)
    then show ?thesis using True by (simp add: udp_dispatch_def udp_handleGracefulShutdown_def keep_alive_msg_def quit_msg_def)
  next
    case False
    have "0 \<le> rv (os E h (C_sendto fd m a))" for h fd m a using assms(2) by (simp add: sends_succeed_def)
    then show ?thesis
      using False rest [of s] rest [of "s\<lparr>trace := (c, r) # trace s\<rparr>" for c r]
      by (auto simp: udp_dispatch_def wp_thenE wp_return wp_udp_send_to [OF assms(1-3)] Let_def)
  qed
qed

lemma decode_located:
  assumes "located E ip (oaddr r)" and "inet_ok E" and "checks_ok E"
  shows "IPSocket_of_sockaddr E (storage r) = Inr (canonical E ip)"
proof -
  obtain st where st: "encodable E ip" "to_sockaddr_storage E ip = Inr st" "oaddr r = take (sizeofSockaddr ip) st"
    using assms(1) by (auto simp: located_def)
  have "sizeofSockaddr ip \<le> 128" by (simp add: sizeofSockaddr_def)
  then have "storage r = take (sizeofSockaddr ip) st @ replicate (128 - length (oaddr r)) 0"
    by (simp add: storage_def st(3) min_absorb2)
  then show ?thesis using of_sockaddr_to_sockaddr(1) [OF st(1) assms(2,3) st(2)] by simp
qed

lemma located_canonical:
  assumes "located E ip a" and "inet_ok E"
  obtains st where "to_sockaddr_storage E (canonical E ip) = Inr st" "take (sizeofSockaddr (canonical E ip)) st = a"
  using assms by (auto simp: located_def to_sockaddr_storage_canonical)

text \<open>Handling a message leaves the buffer as long as it was.\<close>

lemma wp_dispatch_buffer:
  assumes "udp_inv s"
  shows "wp (udp_dispatch E msg remote) (\<lambda>_ t. main_msg_buffer t = main_msg_buffer s) (\<lambda>_ _. True) s"
proof -
  have rest: "wp (bindE (gets (\<lambda>s. map_of (udp_peers s) remote)) (\<lambda>p.
      if p \<noteq> None then udp_resetTasks E remote else udp_handleCommUp E remote))
      (\<lambda>_ t. main_msg_buffer t = main_msg_buffer s) (\<lambda>_ _. True) (s\<lparr>trace := h\<rparr>)" for h
    using assms by (auto simp: wp_bindE wp_gets wp_udp_handleCommUp Let_def udp_inv_def intro!: wp_udp_resetTasks)
  have ack: "quiet (if msg = keep_alive_msg then udp_send_to E keep_alive_ack_msg remote else return () ::
      ('a SocketUdp_scheme, unit) io)"
    by (intro quiet_intros)
  have "wp (thenE (if msg = keep_alive_msg then udp_send_to E keep_alive_ack_msg remote else return ())
      (bindE (gets (\<lambda>s. map_of (udp_peers s) remote)) (\<lambda>p.
      if p \<noteq> None then udp_resetTasks E remote else udp_handleCommUp E remote)))
      (\<lambda>_ t. main_msg_buffer t = main_msg_buffer s) (\<lambda>_ _. True) s"
    unfolding wp_thenE by (rule quiet_wp [OF ack], rule rest) simp
  then show ?thesis
    by (auto simp: udp_dispatch_def udp_handleGracefulShutdown_def intro: wp_udp_remove)
qed

text \<open>
  A message from a located host that fits the buffer is handled: it makes the host a peer, or no peer if it is the
  goodbye, is answered to that host's address if it is to be answered, and leaves a well-formed socket.
\<close>

abbreviation acks :: "bytes \<Rightarrow> datagram \<Rightarrow> datagram multiset" where
  "acks src d \<equiv> if c_str (dg_text d) = keep_alive_msg
     then {#\<lparr>dg_src = src, dg_dst = dg_src d, dg_text = keep_alive_ack_msg\<rparr>#} else {#}"

lemma udp_arrival:
  assumes "checks_ok E" and "inet_ok E" and "sends_succeed E" and "udp_inv s" and "located E ip (dg_src d)"
    and "length (dg_text d) < length (main_msg_buffer s)"
  shows "wp (udp_handleMessage (arriving d E) fd) (\<lambda>_ t. udp_inv t \<and> length (main_msg_buffer t) = length (main_msg_buffer s) \<and>
      udp_known t = known_after (canonical E ip) (c_str (dg_text d)) (udp_known s) \<and>
      (\<exists>u. trace t = u @ trace s \<and> sent src u = acks src d)) (\<lambda>_ _. False) s"
proof -
  let ?E = "arriving d E"
  define r where "r = os ?E (trace s) (C_recvfrom fd (length (main_msg_buffer s)))"
  have r: "odata r = dg_text d" "rv r = int (length (odata r))" "oaddr r = dg_src d"
    using assms(6) by (simp_all add: r_def arriving_def)
  obtain b where b: "store_received (main_msg_buffer s) r = Inr b" "length b = length (main_msg_buffer s)"
      "c_str b = c_str (dg_text d)"
    using store_received_ok [OF r(2)] assms(6) r(1) by auto
  have dec: "IPSocket_of_sockaddr ?E (storage r) = Inr (canonical E ip)"
    using decode_located [of E ip r] assms(1,2,5) r(3) by simp
  obtain st where st: "to_sockaddr_storage ?E (canonical E ip) = Inr st" "take (sizeofSockaddr (canonical E ip)) st = dg_src d"
    using located_canonical [OF assms(5,2)] by auto
  have ok: "checks_ok ?E" "sends_succeed ?E"
    using assms(1) by simp (use assms(3) in \<open>simp add: sends_succeed_def arriving_def\<close>)
  let ?Q = "\<lambda>(_ :: unit) t. main_msg_buffer t = b \<and> (\<exists>u. trace t = u @ trace s \<and> sent src u = acks src d)"
  let ?t = "\<lambda>m r2 n r1. s\<lparr>main_msg_buffer := b, trace := (C_log_received m, r2) # (C_recvfrom fd n, r1) # trace s\<rparr>"
  have inv: "udp_inv (?t m r2 n r1)" for m r2 n r1
    using assms(4) udp_inv_neutral [of "[(C_log_received m, r2), (C_recvfrom fd n, r1)]" "s\<lparr>main_msg_buffer := b\<rparr>"] by simp
  have "wp (udp_dispatch ?E (c_str b) (canonical E ip)) ?Q (\<lambda>_ _. False) (?t m r2 n r1)" for m r2 n r1
    by (rule wp_mono [OF wp_conj [OF wp_dispatch_buffer [OF inv] udp_dispatch_answers [OF ok st(1)]]])
      (use b(3) st(2) in \<open>auto intro: exI [of _ "v @ w" for v w]\<close>)
  then have "wp (udp_handleMessage ?E fd) ?Q (\<lambda>_ _. False) s"
    using b(1) dec r(2)
    by (simp add: udp_handleMessage_def Socket_getBuffer_def log_received_def wp_simps checks_ok_eq [OF assms(1)]
        failedReceive_def r_def [symmetric])
  moreover have "wp (udp_handleMessage ?E fd)
      (\<lambda>_ t. udp_inv t \<and> udp_known t = known_after (canonical E ip) (c_str (dg_text d)) (udp_known s)) (\<lambda>_ _. True) s"
    by (rule wp_mono [OF wp_udp_handleMessage [OF assms(4), of ?E fd, folded r_def]]) (use dec b in auto)
  ultimately show ?thesis using b(2) by (auto simp: wp_def split: prod.splits sum.splits)
qed

text \<open>A host that takes part: its environment works, its socket is well-formed and its buffer holds the answers.\<close>

definition host_works :: "udp_host \<Rightarrow> bool" where
  "host_works host \<longleftrightarrow> checks_ok (host_env host) \<and> inet_ok (host_env host) \<and> sends_succeed (host_env host) \<and>
     udp_inv (host_sock host) \<and> 4 < length (main_msg_buffer (host_sock host))"

lemma deliver_answered:
  fixes i N
  defines "host \<equiv> hosts N ! i"
  assumes "i < length (hosts N)" and "host_works host" and "located (host_env host) ip (dg_src d)"
    and "length (dg_text d) < length (main_msg_buffer (host_sock host))"
  obtains s where "deliver i d N = N\<lparr>hosts := (hosts N)[i := host\<lparr>host_sock := s\<rparr>], pool := pool N - {#d#} + acks (host_addr host) d\<rparr>"
    and "host_works (host\<lparr>host_sock := s\<rparr>)" and "length (main_msg_buffer s) = length (main_msg_buffer (host_sock host))"
    and "udp_known s = known_after (canonical (host_env host) ip) (c_str (dg_text d)) (udp_known (host_sock host))"
proof -
  let ?m = "udp_handleMessage (arriving d (host_env host)) (raw_fd (sk_fd (host_sock host)))"
  have w: "checks_ok (host_env host)" "inet_ok (host_env host)" "sends_succeed (host_env host)" "udp_inv (host_sock host)"
    using assms(3) by (simp_all add: host_works_def)
  obtain t u where t: "snd (?m (host_sock host)) = t" "udp_inv t"
      "length (main_msg_buffer t) = length (main_msg_buffer (host_sock host))"
      "udp_known t = known_after (canonical (host_env host) ip) (c_str (dg_text d)) (udp_known (host_sock host))"
      "trace t = u @ trace (host_sock host)" "sent (host_addr host) u = acks (host_addr host) d"
    using wp_run [OF udp_arrival [OF w assms(4,5), where src = "host_addr host" and fd = "raw_fd (sk_fd (host_sock host))"]]
    by (metis snd_conv)
  have "deliver i d N = N\<lparr>hosts := (hosts N)[i := host\<lparr>host_sock := t\<rparr>], pool := pool N - {#d#} + acks (host_addr host) d\<rparr>"
    unfolding t(6) [symmetric] deliver_def act_def Let_def using t(1,5) by (simp add: host_def)
  moreover have "host_works (host\<lparr>host_sock := t\<rparr>)" using assms(3) t(2,3) by (simp add: host_works_def)
  ultimately show thesis using that t(3,4) by blast
qed

text \<open>A timer that pings a located peer sends one datagram to its address.\<close>

lemma act_ping:
  assumes "i < length (hosts N)" and "checks_ok (host_env (hosts N ! i))" and "sends_succeed (host_env (hosts N ! i))"
    and "located (host_env (hosts N ! i)) ip a"
  shows "\<exists>r. let host = hosts N ! i in act i (udp_task (host_env host) (T_ping ip)) N =
    N\<lparr>hosts := (hosts N)[i := host\<lparr>host_sock := (host_sock host)\<lparr>trace := r # trace (host_sock host)\<rparr>\<rparr>],
      pool := add_mset \<lparr>dg_src = host_addr host, dg_dst = a, dg_text = ''ka''\<rparr> (pool N)\<rparr> \<and> opened r = {} \<and> closed r = {}"
proof -
  let ?E = "host_env (hosts N ! i)" and ?s = "host_sock (hosts N ! i)"
  obtain st where st: "to_sockaddr_storage ?E ip = Inr st" "take (sizeofSockaddr ip) st = a"
    using assms(4) by (auto simp: located_def)
  have "wp (udp_task ?E (T_ping ip)) (\<lambda>_ t. \<exists>r. t = ?s\<lparr>trace :=
      (C_sendto (raw_fd (sk_fd ?s)) keep_alive_msg a, r) # trace ?s\<rparr> \<and> 0 \<le> rv r) (\<lambda>_ _. False) ?s"
    using assms(3) st(2) by (auto simp: wp_udp_send_to [OF assms(2,3) st(1)] Let_def sends_succeed_def)
  then obtain r where r: "snd (udp_task ?E (T_ping ip) ?s) = ?s\<lparr>trace :=
      (C_sendto (raw_fd (sk_fd ?s)) keep_alive_msg a, r) # trace ?s\<rparr>" "0 \<le> rv r"
    by (auto dest!: wp_run)
  then show ?thesis
    unfolding Let_def
    by (intro exI [of _ "(C_sendto (raw_fd (sk_fd ?s)) keep_alive_msg a, r)"])
      (simp add: act_def Let_def keep_alive_msg_def)
qed

text \<open>
  C18. Two hosts that do not lose messages get to know each other by one keep-alive message: when the timer of
  host \<open>i\<close> pings the address of host \<open>j\<close>, exactly one datagram to \<open>j\<close> leaves; when \<open>j\<close> handles it, it
  sends exactly one, the acknowledgement to \<open>i\<close>; when \<open>i\<close> handles that, nothing more is sent. Then each
  has the other among its peers, under the key decoded from its address, and all other peers are as before.
\<close>

theorem udp_ping_introduces:
  fixes i j N
  defines "hi \<equiv> hosts N ! i" and "hj \<equiv> hosts N ! j"
  defines "ping \<equiv> \<lparr>dg_src = host_addr hi, dg_dst = host_addr hj, dg_text = ''ka''\<rparr>"
    and "ack \<equiv> \<lparr>dg_src = host_addr hj, dg_dst = host_addr hi, dg_text = ''kack''\<rparr>"
  assumes "i < length (hosts N)" and "j < length (hosts N)" and "i \<noteq> j" and "host_works hi" and "host_works hj"
    and "located (host_env hi) to_j (host_addr hj)" and "located (host_env hj) to_i (host_addr hi)"
  shows "let N1 = act i (udp_task (host_env hi) (T_ping to_j)) N; N2 = deliver j ping N1; N3 = deliver i ack N2 in
    pool N1 = add_mset ping (pool N) \<and> pool N2 = add_mset ack (pool N) \<and> pool N3 = pool N \<and>
    udp_known (host_sock (hosts N3 ! i)) = insert (canonical (host_env hi) to_j) (udp_known (host_sock hi)) \<and>
    udp_known (host_sock (hosts N3 ! j)) = insert (canonical (host_env hj) to_i) (udp_known (host_sock hj))"
proof -
  define N1 where "N1 = act i (udp_task (host_env hi) (T_ping to_j)) N"
  obtain r where r: "N1 = N\<lparr>hosts := (hosts N)[i := hi\<lparr>host_sock := (host_sock hi)\<lparr>trace := r # trace (host_sock hi)\<rparr>\<rparr>],
      pool := add_mset ping (pool N)\<rparr>" "opened r = {}" "closed r = {}"
    using act_ping [of i N to_j "host_addr hj"] assms(5,8,10)
    unfolding Let_def N1_def ping_def hi_def [symmetric] host_works_def by blast
  have ka: "c_str ''ka'' = keep_alive_msg" "c_str ''kack'' = keep_alive_ack_msg" "keep_alive_ack_msg = ''kack''"
      "keep_alive_ack_msg \<noteq> keep_alive_msg" and ne: "keep_alive_msg \<noteq> ''q''" "keep_alive_ack_msg \<noteq> ''q''"
    by (simp_all add: keep_alive_defs c_str_def)
  have j: "hosts N1 ! j = hj" "j < length (hosts N1)" using r(1) assms(6,7) by (simp_all add: hj_def)
  have fit: "length (dg_text ping) < length (main_msg_buffer (host_sock hj))" "length (dg_text ack) < length (main_msg_buffer (host_sock hi))"
    using assms(8,9) by (simp_all add: host_works_def ping_def ack_def)
  obtain sj where sj: "deliver j ping N1 = N1\<lparr>hosts := (hosts N1)[j := hj\<lparr>host_sock := sj\<rparr>], pool := add_mset ack (pool N)\<rparr>"
      "udp_known sj = insert (canonical (host_env hj) to_i) (udp_known (host_sock hj))"
    using deliver_answered [of j N1 to_i ping, unfolded j(1)] j(2) assms(9,11) fit(1) ka ne
    by (auto simp: ping_def ack_def known_after_def r(1))
  define N2 where "N2 = deliver j ping N1"
  let ?hi = "hi\<lparr>host_sock := (host_sock hi)\<lparr>trace := r # trace (host_sock hi)\<rparr>\<rparr>"
  have i: "hosts N2 ! i = ?hi" "i < length (hosts N2)" using sj(1) r(1) assms(5,7) by (simp_all add: N2_def)
  have "host_works ?hi"
    using assms(8) udp_inv_neutral [of "[r]" "host_sock hi"] r(2,3) by (simp add: host_works_def)
  then obtain si where si: "deliver i ack N2 = N2\<lparr>hosts := (hosts N2)[i := ?hi\<lparr>host_sock := si\<rparr>], pool := pool N\<rparr>"
      "udp_known si = insert (canonical (host_env hi) to_j) (udp_known (host_sock hi))"
    using deliver_answered [of i N2 to_j ack, unfolded i(1)] i(2) assms(10) fit(2) ka ne
    by (auto simp: ack_def known_after_def N2_def sj(1))
  show ?thesis
    unfolding Let_def N1_def [symmetric] N2_def [symmetric] si(1)
    using sj si(2) r(1) assms(5,6,7) by (simp add: N2_def)
qed

text \<open>
  C19. A goodbye that is overtaken brings its sender back. Datagrams arrive in any order: when a host handles a peer's goodbye
  before something the peer had sent earlier, the peer that is gone is a peer again, and tasks are scheduled for it.
\<close>

theorem udp_goodbye_overtaken:
  fixes i N
  defines "host \<equiv> hosts N ! i"
  assumes "i < length (hosts N)" and "host_works host" and "located (host_env host) ip (dg_src d)"
    and "dg_src bye = dg_src d" and "dg_text bye = ''q''" and "c_str (dg_text d) \<noteq> ''q''"
    and "length (dg_text d) < length (main_msg_buffer (host_sock host))"
  shows "canonical (host_env host) ip \<notin> udp_known (host_sock (hosts (deliver i bye (deliver i d N)) ! i)) \<and>
    canonical (host_env host) ip \<in> udp_known (host_sock (hosts (deliver i d (deliver i bye N)) ! i))"
proof -
  have q: "c_str (dg_text bye) = ''q''" "length (dg_text bye) < length (main_msg_buffer (host_sock host))"
    using assms(3,6) by (simp_all add: c_str_def host_works_def)
  have two: "udp_known (host_sock (hosts (deliver i d2 (deliver i d1 N)) ! i)) = known_after (canonical (host_env host) ip)
      (c_str (dg_text d2)) (known_after (canonical (host_env host) ip) (c_str (dg_text d1)) (udp_known (host_sock host)))"
    if "dg_src d1 = dg_src d" "dg_src d2 = dg_src d"
      "length (dg_text d1) < length (main_msg_buffer (host_sock host))" "length (dg_text d2) < length (main_msg_buffer (host_sock host))"
    for d1 d2
  proof -
    note d = that
    have l: "located (host_env host) ip (dg_src d1)" "located (host_env host) ip (dg_src d2)" using assms(4) d(1,2) by simp_all
    obtain s where s: "hosts (deliver i d1 N) ! i = host\<lparr>host_sock := s\<rparr>" "i < length (hosts (deliver i d1 N))"
        "host_works (host\<lparr>host_sock := s\<rparr>)" "length (main_msg_buffer s) = length (main_msg_buffer (host_sock host))"
        "udp_known s = known_after (canonical (host_env host) ip) (c_str (dg_text d1)) (udp_known (host_sock host))"
      by (rule deliver_answered [of i N ip d1, folded host_def, OF assms(2,3) l(1) d(3)]) (use assms(2) in simp)
    show ?thesis
      by (rule deliver_answered [of i "deliver i d1 N" ip d2, unfolded s(1), OF s(2,3)])
        (use s(2,4,5) l(2) d(4) in simp_all)
  qed
  show ?thesis
    using two [of d bye] two [of bye d] assms(5,7,8) q by (auto simp: known_after_def)
qed

section \<open>A conversation does not go wrong\<close>

text \<open>
  \<open>net_works N\<close>: every host works, every host's address and every source of a datagram is the address of some text to every
  host, and every datagram fits every buffer.
\<close>

definition takes :: "udp_host \<Rightarrow> datagram \<Rightarrow> bool" where
  "takes h d \<longleftrightarrow> (\<exists>ip. located (host_env h) ip (dg_src d)) \<and> length (dg_text d) < length (main_msg_buffer (host_sock h))"

definition net_works :: "udp_net \<Rightarrow> bool" where
  "net_works N \<longleftrightarrow> (\<forall>h\<in>set (hosts N). host_works h \<and> (\<forall>g\<in>set (hosts N). \<exists>ip. located (host_env h) ip (host_addr g)) \<and>
     (\<forall>d\<in>#pool N. takes h d))"

lemma net_worksD:
  assumes "net_works N" and "i < length (hosts N)"
  shows "host_works (hosts N ! i)" and "d \<in># pool N \<Longrightarrow> takes (hosts N ! i) d"
  using assms unfolding net_works_def by (meson nth_mem)+

lemma net_works_delivery: "udp_delivery N N' \<Longrightarrow> net_works N \<Longrightarrow> net_works N'"
proof (induction rule: udp_delivery.induct)
  case (delivered i N d)
  let ?host = "hosts N ! i"
  have h: "?host \<in> set (hosts N)" using delivered(1) by simp
  obtain ip where ip: "located (host_env ?host) ip (dg_src d)" "length (dg_text d) < length (main_msg_buffer (host_sock ?host))"
    using net_worksD(2) [OF delivered(4,1,2)] by (auto simp: takes_def)
  obtain s where s: "deliver i d N = N\<lparr>hosts := (hosts N)[i := ?host\<lparr>host_sock := s\<rparr>], pool := pool N - {#d#} + acks (host_addr ?host) d\<rparr>"
      "host_works (?host\<lparr>host_sock := s\<rparr>)" "length (main_msg_buffer s) = length (main_msg_buffer (host_sock ?host))"
    using deliver_answered [OF delivered(1) net_worksD(1) [OF delivered(4,1)] ip] by blast
  have old: "\<exists>g\<in>set (hosts N). host_env h = host_env g \<and> host_addr h = host_addr g \<and> host_works h \<and>
      length (main_msg_buffer (host_sock h)) = length (main_msg_buffer (host_sock g))"
    if "h \<in> set ((hosts N)[i := ?host\<lparr>host_sock := s\<rparr>])" for h
    using set_update_subset_insert [THEN subsetD, OF that] h s(2,3) delivered(4) by (auto simp: net_works_def)
  have from_: "d' \<in># pool N \<or> dg_src d' = host_addr ?host \<and> length (dg_text d') \<le> 4"
    if "d' \<in># pool N - {#d#} + acks (host_addr ?host) d" for d'
    using that by (auto simp: keep_alive_defs dest: in_diffD split: if_splits)
  have "takes h d'" if "h \<in> set ((hosts N)[i := ?host\<lparr>host_sock := s\<rparr>])" "d' \<in># pool N - {#d#} + acks (host_addr ?host) d" for h d'
  proof -
    note h' = that
    obtain g where g: "g \<in> set (hosts N)" "host_env h = host_env g" "host_works h"
        "length (main_msg_buffer (host_sock h)) = length (main_msg_buffer (host_sock g))" using old [OF h'(1)] by blast
    show ?thesis
    proof (cases "d' \<in># pool N")
      case True
      then show ?thesis using g delivered(4) by (simp add: net_works_def takes_def)
    next
      case False
      then have "dg_src d' = host_addr ?host" "length (dg_text d') \<le> 4" using from_ [OF h'(2)] by blast+
      moreover have "\<exists>ip. located (host_env g) ip (host_addr ?host)" using delivered(4) g(1) h by (simp add: net_works_def)
      ultimately show ?thesis using g(2,3) by (simp add: takes_def host_works_def)
    qed
  qed
  moreover have "\<exists>ip. located (host_env h) ip (host_addr g)"
    if "h \<in> set ((hosts N)[i := ?host\<lparr>host_sock := s\<rparr>])" "g \<in> set ((hosts N)[i := ?host\<lparr>host_sock := s\<rparr>])" for h g
    using old [OF that(1)] old [OF that(2)] delivered(4) by (auto simp: net_works_def)
  moreover have "host_works h" if "h \<in> set ((hosts N)[i := ?host\<lparr>host_sock := s\<rparr>])" for h using old [OF that] by blast
  ultimately show ?case unfolding s(1) net_works_def by simp
next
  case (lost d N)
  then show ?case by (auto simp: net_works_def dest: in_diffD)
qed


section \<open>An example\<close>

text \<open>Two hosts at the ports 7 and 8 of one address, each with a well-formed socket.\<close>

definition demo_other :: IPSocket where
  "demo_other = IPSocket ''HPAAAAAB'' 8 AF_INET"

definition demo_other_from :: bytes where
  "demo_other_from = le16 AF_INET @ le16 (htons 8) @ [127, 0, 0, 1] @ replicate 8 0"

definition demo_net :: udp_net where
  "demo_net = \<lparr>hosts = [\<lparr>host_env = demo_env 16 [] [], host_addr = demo_from, host_sock = demo_udp\<rparr>,
      \<lparr>host_env = demo_env 16 [] [], host_addr = demo_other_from, host_sock = demo_udp\<rparr>], pool = {#}\<rparr>"

lemma demo_located:
  "located (demo_env 16 [] []) demo_addr demo_from" "located (demo_env 16 [] []) demo_other demo_other_from"
  by (simp_all add: located_def encodable_def sizeofSockaddr_def isIPv6_def demo_from_def demo_other_def demo_other_from_def
      c_str_def)

lemma demo_host_works: "host_works (hosts demo_net ! 0)" "host_works (hosts demo_net ! 1)"
  by (simp_all add: host_works_def demo_net_def sends_succeed_def)

theorem udp_ping_introduces_witness:
  "let N1 = act 0 (udp_task (demo_env 16 [] []) (T_ping demo_other)) demo_net;
     d = \<lparr>dg_src = demo_from, dg_dst = demo_other_from, dg_text = ''ka''\<rparr>;
     d' = \<lparr>dg_src = demo_other_from, dg_dst = demo_from, dg_text = ''kack''\<rparr>; N2 = deliver 1 d N1; N3 = deliver 0 d' N2 in
   pool N1 = {#d#} \<and> pool N2 = {#d'#} \<and> pool N3 = {#} \<and>
     canonical (demo_env 16 [] []) demo_other \<in> udp_known (host_sock (hosts N3 ! 0)) \<and>
     canonical (demo_env 16 [] []) demo_addr \<in> udp_known (host_sock (hosts N3 ! 1))"
proof -
  have "hosts demo_net ! 0 = \<lparr>host_env = demo_env 16 [] [], host_addr = demo_from, host_sock = demo_udp\<rparr>"
    "hosts demo_net ! 1 = \<lparr>host_env = demo_env 16 [] [], host_addr = demo_other_from, host_sock = demo_udp\<rparr>"
    "length (hosts demo_net) = 2" "pool demo_net = {#}"
    by (simp_all add: demo_net_def)
  note demo = this
  show ?thesis
    using udp_ping_introduces [of 0 demo_net 1 demo_other demo_addr] demo_host_works demo_located
    unfolding demo Let_def by simp
qed

theorem udp_conversation_ends_witness:
  "\<exists>N'. (udp_delivery ^^ 1) (demo_net\<lparr>pool := {#\<lparr>dg_src = demo_from, dg_dst = demo_other_from, dg_text = ''ka''\<rparr>#}\<rparr>) N' \<and> (1 :: nat) \<le> 2"
proof -
  let ?d = "\<lparr>dg_src = demo_from, dg_dst = demo_other_from, dg_text = ''ka''\<rparr>"
  let ?N = "demo_net\<lparr>pool := {#?d#}\<rparr>"
  have "udp_delivery ?N (deliver 1 ?d ?N)"
    by (rule udp_delivery.delivered) (simp_all add: demo_net_def)
  then have s: "(udp_delivery ^^ 1) ?N (deliver 1 ?d ?N)" by (simp add: eq_OO)
  from udp_conversation_ends [OF this] have "(1 :: nat) \<le> 2" by (simp add: c_str_def)
  with s show ?thesis by blast
qed


definition demo_ping :: datagram where
  "demo_ping = \<lparr>dg_src = demo_from, dg_dst = demo_other_from, dg_text = ''ka''\<rparr>"

lemma demo_net_works: "net_works (demo_net\<lparr>pool := {#demo_ping#}\<rparr>)"
  using demo_host_works demo_located by (auto simp: net_works_def takes_def demo_net_def demo_ping_def)


theorem udp_goodbye_overtaken_witness:
  "canonical (demo_env 16 [] []) demo_addr \<in>
     udp_known (host_sock (hosts (deliver 1 demo_ping (deliver 1 (demo_ping\<lparr>dg_text := ''q''\<rparr>) demo_net)) ! 1))"
proof -
  have "hosts demo_net ! 1 = \<lparr>host_env = demo_env 16 [] [], host_addr = demo_other_from, host_sock = demo_udp\<rparr>" "1 < length (hosts demo_net)"
    by (simp_all add: demo_net_def)
  then show ?thesis
    using udp_goodbye_overtaken [of 1 demo_net demo_addr demo_ping "demo_ping\<lparr>dg_text := ''q''\<rparr>"] demo_host_works(2) demo_located(1)
    by (simp add: demo_ping_def c_str_def)
qed

end
