(* ===== verification/SctpRace.thy ===== *)
theory SctpRace
  imports SocketSctp
begin

text \<open>
  What one \<open>receive\<close> of an SCTP socket does with several descriptors that are ready: the handlers of
  \<open>SocketSctp\<close> run one after the other, and what one does to the associations meets the next.
\<close>

section \<open>One handler after the other\<close>

lemma wp_run_tasks_Cons:
  "wp (run_tasks h (x # xs)) Q R s = wp (h x) (\<lambda>_. wp (run_tasks h xs) (\<lambda>es. Q (None # es)) R)
     (\<lambda>e. if is_exception e then wp (run_tasks h xs) (\<lambda>es. Q (Some e # es)) R else R e) s"
  by (auto simp: wp_def bindE_def return_def split: prod.split sum.split)

lemma find_entries:
  assumes "hash_ok E" and "umap_ok (sctp_peers s)" and "\<forall>p\<in>set (sctp_peers s). raw_fd (assoc_fd (snd p)) \<noteq> m"
  shows "find (\<lambda>p. raw_fd (assoc_fd (snd p)) = m) (sctp_entries E s) = None"
  using assms(3) mset_eq_setD [OF mset_sctp_entries [OF assms(1,2)]] by (auto simp: find_None_iff)

text \<open>The handler of a descriptor that belongs to nobody any more dereferences \<open>end()\<close>.\<close>

lemma sctp_handleMessage_nobody:
  assumes "std_mutex E" and "hash_ok E" and "peers_mtx s = 0" and "umap_ok (sctp_peers s)" and "m \<noteq> raw_fd (sk_fd s)"
    and "\<forall>p\<in>set (sctp_peers s). raw_fd (assoc_fd (snd p)) \<noteq> m"
  shows "wp (sctp_handleMessage E m) Q R s = R (Undefined ''end() dereferenced'') (s\<lparr>peers_mtx := 1\<rparr>)"
  using assms(5) find_entries [OF assms(2), of "s\<lparr>peers_mtx := 1\<rparr>" m] assms(4,6)
  by (simp add: sctp_handleMessage_def sctp_getBuffer_def wp_bindE wp_with_lock_free [OF assms(1,3)] wp_simps)

text \<open>The end of an association as the socket's own descriptor reports it.\<close>

definition reports_end :: "env \<Rightarrow> 'z SocketSctp_scheme \<Rightarrow> int \<Rightarrow> bool" where
  "reports_end E s k \<longleftrightarrow>
     (let r = os E (trace s) (C_sctp_recvmsg (raw_fd (sk_fd s)) (length (main_msg_buffer s))) in
      0 \<le> rv r \<and> oflags r AND MSG_NOTIFICATION \<noteq> 0 \<and>
      (\<exists>b from sn. store_received (main_msg_buffer s) r = Inr b \<and> IPSocket_of_sockaddr E (storage r) = Inr from \<and>
         notification_of b = Inr sn \<and> sn_type sn = SCTP_ASSOC_CHANGE \<and>
         sac_state sn \<in> {SCTP_SHUTDOWN_COMP, SCTP_COMM_LOST} \<and> sac_assoc_id sn = k))"

text \<open>A notification of the end of an association destroys the peer and closes its descriptor.\<close>

lemma sctp_handle_end:
  assumes "std_mutex E" and "peers_mtx s = 0" and "sctp_inv s" and "map_of (sctp_peers s) k = Some p"
    and "sn_type sn = SCTP_ASSOC_CHANGE" and "sac_state sn \<in> {SCTP_SHUTDOWN_COMP, SCTP_COMM_LOST}" and "sac_assoc_id sn = k"
    and "\<And>h. C_close (raw_fd (assoc_fd p)) \<in> fst ` set h \<Longrightarrow> Q () (s\<lparr>sctp_peers := map_erase k (sctp_peers s), trace := h\<rparr>)"
  shows "wp (sctp_handle E from sn) Q R s"
proof -
  have removed: "wp (sctp_remove E k) Q' R s"
    if "\<And>h. C_close (raw_fd (assoc_fd p)) \<in> fst ` set h \<Longrightarrow> Q' () (s\<lparr>sctp_peers := map_erase k (sctp_peers s), trace := h\<rparr>)" for Q'
  proof (rule wp_sctp_remove [OF assms(1-3)], rule that)
    fix h :: history
    assume "map fst h = (case map_of (sctp_peers s) k of None \<Rightarrow> [] | Some p \<Rightarrow> [C_close (raw_fd (assoc_fd p))]) @ map fst (trace s)"
    then have "C_close (raw_fd (assoc_fd p)) \<in> set (map fst h)" using assms(4) by simp
    then show "C_close (raw_fd (assoc_fd p)) \<in> fst ` set h" by simp
  qed
  have "\<exists>w. notification_text E sn = Inr w" using assms(5) by (simp add: notification_text_def Let_def)
  then show ?thesis
    using assms(5-8) removed [of Q] removed [of "\<lambda>_. wp (scheduleReestablishment E from) Q R"]
    by (auto simp: sctp_handle_def wp_thenE wp_sctp_handle_text isAssocChange_def Let_def sctp_handleGracefulShutdown_def
        sctp_handleCommLost_def notification_defs scheduleReestablishment_def wp_simps)
qed

text \<open>A notification on the socket's own descriptor is handled by \<open>handle\<close>.\<close>

lemma wp_sctp_handleMessage_main:
  assumes "std_mutex E" and "checks_ok E" and "peers_mtx s = 0"
    and "0 \<le> rv (os E (trace s) (C_sctp_recvmsg (raw_fd (sk_fd s)) (length (main_msg_buffer s))))"
    and "oflags (os E (trace s) (C_sctp_recvmsg (raw_fd (sk_fd s)) (length (main_msg_buffer s)))) AND MSG_NOTIFICATION \<noteq> 0"
    and "store_received (main_msg_buffer s) (os E (trace s) (C_sctp_recvmsg (raw_fd (sk_fd s)) (length (main_msg_buffer s)))) = Inr b"
    and "IPSocket_of_sockaddr E (storage (os E (trace s) (C_sctp_recvmsg (raw_fd (sk_fd s)) (length (main_msg_buffer s))))) = Inr src"
    and "notification_of b = Inr sn"
    and "wp (sctp_handle E src sn) Q R (s\<lparr>trace := (C_sctp_recvmsg (raw_fd (sk_fd s)) (length (main_msg_buffer s)),
           os E (trace s) (C_sctp_recvmsg (raw_fd (sk_fd s)) (length (main_msg_buffer s)))) # trace s, main_msg_buffer := b\<rparr>)"
  shows "wp (sctp_handleMessage E (raw_fd (sk_fd s))) Q R s"
  using assms(3-9)
  by (simp add: sctp_handleMessage_def sctp_getBuffer_def wp_simps wp_with_lock_free [OF assms(1)] checks_ok_eq [OF assms(2)]
      failedReceive_def sctp_setBuffer_def)



section \<open>A run\<close>

text \<open>A system whose next message says that the association 5 was lost.\<close>

definition lost_note :: string where
  "lost_note = map (\<lambda>b. char_of (unat b))
     ([0x01, 0x80, 0, 0, 0, 0, 0, 0, 1, 0, 0, 0, 0, 0, 0, 0, 5, 0, 0, 0] @ replicate 128 (0 :: byte))"

definition lost_reply :: ret where
  "lost_reply = (reply 148)\<lparr>odata := lost_note, oaddr := demo_from, oflags := 0x8000\<rparr>"

definition lost_env :: env where
  "lost_env = (demo_env 1 [] demo_from)
     \<lparr>os := \<lambda>h c. case c of C_sctp_recvmsg fd n \<Rightarrow> lost_reply | _ \<Rightarrow> demo_os [] demo_from h c\<rparr>"

definition ready_sctp :: SocketSctp where
  "ready_sctp = demo_sctp\<lparr>main_msg_buffer := replicate 200 NUL\<rparr>"

lemma lost_env_ok: "std_mutex lost_env" "checks_ok lost_env" "hash_ok lost_env"
  using demo_std_mutex [of 1 "[]" demo_from] demo_checks_ok [of 1 "[]" demo_from] demo_hash_ok [of 1 "[]" demo_from]
  by (auto simp: lost_env_def std_mutex_def checks_ok_def hash_ok_def)

lemma lost_note_read:
  "\<exists>sn. notification_of (lost_note @ replicate 52 NUL) = Inr sn \<and> sn_type sn = SCTP_ASSOC_CHANGE \<and>
     sac_state sn \<in> {SCTP_SHUTDOWN_COMP, SCTP_COMM_LOST} \<and> sac_assoc_id sn = 5"
  by (simp add: notification_of_def lost_note_def bytes_of_chars_def sizeof_notification_def of_le16_def le32_int_def
      notification_defs o_def)

lemma lost_env_sel [simp]:
  "os lost_env h (C_select n S t) = (reply (int (card S)))\<lparr>ofds := S\<rparr>" "os lost_env h (C_sctp_recvmsg fd m) = lost_reply"
  "hash_order lost_env h ks = ks" "repeat_ix lost_env n = [0..n - 1]" "check_outcome lost_env = demo_check"
  "task_order lost_env h l = l"
  by (simp_all add: lost_env_def)

lemma lost_select:
  "\<exists>s. sctp_selectFds lost_env ready_sctp = (Inr [3, 4], s) \<and> sk_fd s = FileDescriptor_ctor 3 \<and>
     sctp_peers s = sctp_peers demo_sctp \<and> main_msg_buffer s = replicate 200 NUL"
proof -
  have free: "peers_mtx ready_sctp = 0" by (simp add: ready_sctp_def)
  have sel: "filter (\<lambda>i. i = 4 \<or> i = 3) [0..4 :: int] = [3, 4]" by (simp add: upto.simps)
  have "wp (sctp_selectFds lost_env) (\<lambda>l s. l = [3, 4] \<and> sk_fd s = FileDescriptor_ctor 3 \<and>
     sctp_peers s = sctp_peers demo_sctp \<and> main_msg_buffer s = replicate 200 NUL) (\<lambda>_ _. False) ready_sctp"
    unfolding sctp_selectFds_def wp_with_lock_free [OF lost_env_ok(1) free]
    by (simp add: ready_sctp_def wp_simps FDSet_reset_def FDSet_set_def FDSet_select_def FDSet_selectImpl_def sctp_entries_def
        sel demo_check_def failedSelect_def demo_sctp_def FD_SETSIZE_def)
  from wp_run [OF this] show ?thesis by auto
qed


end
