(* ===== verification/Spec2Isabelle.thy ===== *)
theory Spec2Isabelle
  imports ForkedProcesses OpenDescriptors ChatThreads UdpConversation SctpRace
begin

text \<open>
  A verification development for the SCTP sandbox, the program under \<open>src/src/\<close>: a chat over sockets of
  six kinds. One thread reads lines from standard input (\<open>IoTask.cpp\<close>) and puts them into a mailbox
  (\<open>Chat.cpp\<close>). Each network thread (\<open>NetworkTask.cpp\<close>) owns one socket, made for the protocol that the
  command line (\<open>NetworkConfiguration.cpp\<close>) asks for (\<open>SocketFactory.cpp\<close>), and loops: it runs the tasks
  its socket scheduled, receives, takes a message from the mailbox and sends it. The line \<open>q\<close> means goodbye.
  A socket class derives from \<open>Socket\<close> (\<open>Socket.cpp\<close>), which owns a descriptor (\<open>FileDescriptor.cpp\<close>), a set
  of descriptors to wait on (\<open>FDSet.cpp\<close>) and a buffer, sets the options of \<open>SocketConfiguration.cpp\<close>, and
  checks every system call by the predicates of \<open>SocketErrorChecks.cpp\<close>.

  \<^bold>\<open>How the code is modelled.\<close> A method is a function of the monad of \<open>Prelude\<close>: from the state of the
  object to what the method ends with, a value or an \<open>error\<close>, and the state it leaves. C++ exceptions are
  four of the errors; a deadlock, \<open>std::terminate\<close> and undefined behaviour are the other three, which no
  handler sees. Unwinding, scope guards and \<open>noexcept\<close> are \<open>on_unwind\<close>, \<open>scoped\<close> and \<open>no_throw\<close>.
  The members of a class are a record that extends its base class's. Every object's state holds the history
  of the system calls, and a call (\<open>sys\<close> of \<open>Platform\<close>) asks the parameter \<open>env\<close> for its reply, an
  arbitrary function of the history: a theorem about every \<open>env\<close> is about every kernel. The fields of
  \<open>env\<close> also stand for the \<open>tools\<close> submodule, whose sources the repository does not hold. What the code
  relies on is stated by named predicates (\<open>fresh_fds\<close>, \<open>checks_ok\<close>, \<open>std_mutex\<close>, \<open>recv_ok\<close>, \<open>inet_ok\<close>,
  \<open>hash_ok\<close>, \<open>shuffle_ok\<close>, \<open>time_passes\<close> and others), each a hypothesis where it is needed; \<open>DemoEnv\<close> is one
  concrete environment that satisfies them, in which the witnesses apply the theorems.

  \<^bold>\<open>The theories and what they model.\<close>
  \<^item> \<open>Prelude\<close>: errors, the monad, weakest preconditions (\<open>wp\<close>), kept invariants (\<open>keeps\<close>), reachable
    states, C strings. \<open>CppContainers\<close>: \<open>std::map\<close>, \<open>std::set\<close> and \<open>std::unordered_map\<close> as lists of
    entries, with the locale \<open>cpp_map\<close> interpreted for both. \<open>Platform\<close>: calls, replies, \<open>env\<close>, the
    descriptors a history leaves open (\<open>live\<close>, \<open>accounts\<close>), computations that open nothing (\<open>quiet\<close>) or
    only add to the history (\<open>grows\<close>). \<open>CallScripts\<close>: which calls a computation makes, in which order.
  \<^item> \<open>SocketErrorChecks\<close>, \<open>IPSocketType\<close> and \<open>IPSocket\<close>, \<open>SctpGetAddrs\<close>, \<open>FileDescriptor\<close>, \<open>FDSet\<close>,
    \<open>SocketConfiguration\<close>, \<open>SocketIO\<close>, \<open>NetworkConfiguration\<close>: the source files of these names.
  \<^item> \<open>SocketBase\<close>: \<open>Socket.cpp\<close>. \<open>SocketClass\<close>: the mutex the classes share, and the locale
    \<open>socket_class\<close>, the contract of every class: the constructor establishes the invariant or leaves
    nothing open, every operation keeps it, the destructor closes everything.
  \<^item> \<open>SocketTcp\<close>, \<open>SocketDccp\<close>, \<open>SocketUdp\<close>, \<open>SocketUnix\<close>, \<open>SocketUnixForked\<close>, \<open>SocketSctp\<close>: the six classes,
    one definition per method, each with its invariant and its interpretation of \<open>socket_class\<close>; for the
    forked socket these are in \<open>ForkedDescriptors\<close>, and what its two processes do in \<open>ForkedProcesses\<close>.
    \<open>SctpRace\<close>: two descriptors of an SCTP socket that are ready at once.
    \<open>MutexDiscipline\<close>: the calculus \<open>steady\<close> of operations that cannot deadlock.
  \<^item> \<open>Growth\<close>: no operation takes back a call, and none of the six classes touches the mailbox.
    \<open>NetworkTask\<close>: \<open>NetworkTask.cpp\<close>, \<open>StartTask.cpp\<close>, \<open>SocketFactory.cpp\<close>, \<open>main.cpp\<close>; the virtual functions of
    a class are a record \<open>socket_object\<close>, what the thread relies on is the locale \<open>network_socket\<close> (with
    \<open>mute_socket\<close>, whose operations leave the mailbox alone, and \<open>timed_socket\<close>, which follows from it),
    interpreted for all six classes. \<open>UdpConversation\<close>: hosts with a datagram socket each and the datagrams between them, as a relation
    whose steps run \<open>handleMessage\<close> on one host. \<open>DescriptorUse\<close>: the calculus \<open>careful\<close> of computations that
    work on open descriptors only; \<open>OpenDescriptors\<close>: the locale \<open>careful_socket\<close>, which extends
    \<open>network_socket\<close>, interpreted for all six classes. \<open>Chat\<close>: \<open>Chat.cpp\<close> and \<open>IoTask.cpp\<close> as a step relation on the mailbox
    and the threads. \<open>ChatThreads\<close>: the program as the threads run it. The calls of \<open>chat\<close> that \<open>networkTask\<close> makes,
    for any socket, lifetime and kernel, are the dialogue of a thread of \<open>Chat\<close>; \<open>program\<close> are the interleavings
    of such dialogues and the input thread's that one mailbox can answer.

  \<^bold>\<open>What is shown.\<close>
  \<^item> Descriptors: whatever the kernel does and however it ends, a network task closes every descriptor
    once, and no call of it works on a descriptor that is not open. This rests on the invariants of the six
    classes, which each class's operations keep, exceptions included.
  \<^item> The program's end: the goodbye is never lost and in every fair interleaving ends every network
    thread; a task with a lifetime ends.
  \<^item> The threads refine the step relation: every run of the code's threads over the mailbox is a run of
    \<open>Chat\<close>, so what holds of its reachable states holds of the program. A goodbye that was typed stays in
    the mailbox or is being put back, and what the threads send is a subsequence of what was typed.
  \<^item> The sets of peers: handling a message refines a step on an abstract set of peers (\<open>known_after\<close>, the
    associations of SCTP); sending offers the message to every peer once; lost peers are reconnected.
  \<^item> Conversations of datagram sockets: well-formed hosts handle every datagram to the end, come to rest after a
    bounded number of deliveries, and get to know each other by one ping; but a peer named by a text
    is given up however lively it is, and a goodbye that is overtaken brings its sender back.
  \<^item> Data: socket addresses, packed address arrays and UNIX addresses are read back as they were written;
    the parser of the command line is a recursion over the list of arguments.
  \<^item> Errors: the deadlock of a stream socket at a disconnecting peer, the peer of an SCTP socket that is gone
    when its descriptor's turn comes, buffers written past their end,
    uninitialised members, leaks and blocked restarts are theorems about the code as it is.

  \<^bold>\<open>Bounds and fuel.\<close> Loops over containers are recursions over lists; the walk over packed addresses and
  the parser of arguments terminate by their remaining input. The loop of a network thread may run for ever:
  \<open>network_loop n\<close> runs at most \<open>n\<close> rounds and says whether it is over. Statements about a task hold for every
  \<open>n\<close>, and a task with a lifetime is shown to be over for all \<open>n\<close> from some number on. Ports, option values,
  flags and sizes are words of their widths; descriptors and results of calls are integers.

  \<^bold>\<open>Not modelled.\<close> Logging, but for the line that reports a received message. The \<open>tools\<close> submodule: its
  scheduler, buffer pool, checks and logger are parameters; in particular which scheduled tasks are due and
  what \<open>launch\<close> does with their exceptions. The asynchronous tasks of one \<open>receive\<close> take effect one after the
  other, in any order. Signal handlers run between operations, not inside them. The part of the code for
  Windows (\<open>WinSockCrap.hpp\<close>). Memory is modelled where the code reads or writes past an object; allocation
  does not fail.
\<close>

end
